theory Spec2Isabelle
  imports Complex_Main "HOL-Library.Stream"
begin

section \<open>Game constants (constants.js)\<close>

text \<open>
  JavaScript numbers are modelled by \<^typ>\<open>real\<close>: every coordinate, size and speed of the
  game is a small integer or a half integer, where double arithmetic is exact, and
  timestamps are only subtracted and compared. The one quantity that the game computes
  with rounding, the alpha of an explosion, is rounded in the model as well (see
  \<open>roundToDouble\<close>). Levels, grid columns and grid rows are natural numbers.
\<close>

definition DESIGN_WIDTH :: real where "DESIGN_WIDTH = 1280"
definition DESIGN_HEIGHT :: real where "DESIGN_HEIGHT = 720"

definition TANK_SIZE :: real where "TANK_SIZE = 32"
definition TANK_SPEED :: real where "TANK_SPEED = 2"
definition TANK_FIRE_COOLDOWN :: real where "TANK_FIRE_COOLDOWN = 300"
definition PLAYER_MAX_LIVES :: int where "PLAYER_MAX_LIVES = 3"

definition ENEMY_SPEED :: real where "ENEMY_SPEED = 2"
definition ENEMY_FIRE_COOLDOWN :: real where "ENEMY_FIRE_COOLDOWN = 1500"
definition MAX_ENEMIES :: nat where "MAX_ENEMIES = 4"
definition ENEMY_SPAWN_INTERVAL :: real where "ENEMY_SPAWN_INTERVAL = 3000"
definition ENEMIES_PER_LEVEL :: nat where "ENEMIES_PER_LEVEL = 8"

definition BULLET_SIZE :: real where "BULLET_SIZE = 6"
definition BULLET_SPEED :: real where "BULLET_SPEED = 6"

definition WALL_SIZE :: real where "WALL_SIZE = 36"

definition COLOR_PLAYER :: string where "COLOR_PLAYER = ''#00CC44''"
definition COLOR_ENEMY :: string where "COLOR_ENEMY = ''#DD3333''"
definition COLOR_BULLET_PLAYER :: string where "COLOR_BULLET_PLAYER = ''#FFFF00''"
definition COLOR_BULLET_ENEMY :: string where "COLOR_BULLET_ENEMY = ''#FF8800''"

datatype DIR = UP | DOWN | LEFT | RIGHT

datatype GAME_STATE = MENU | PLAYING | PAUSED | GAME_OVER | LEVEL_CLEAR

datatype WALL_TYPE = BRICK | STEEL

section \<open>Bounding boxes\<close>

record rect =
  r_x :: real
  r_y :: real
  r_w :: real
  r_h :: real

definition rectsOverlap :: "rect \<Rightarrow> rect \<Rightarrow> bool" where
  "rectsOverlap a b \<longleftrightarrow>
     r_x a < r_x b + r_w b \<and>
     r_x a + r_w a > r_x b \<and>
     r_y a < r_y b + r_h b \<and>
     r_y a + r_h a > r_y b"

section \<open>Wall (Wall.js)\<close>

record wall =
  w_x :: real
  w_y :: real
  w_size :: real
  w_type :: WALL_TYPE
  w_alive :: bool
  w_destructible :: bool

definition Wall_new :: "real \<Rightarrow> real \<Rightarrow> WALL_TYPE \<Rightarrow> wall" where
  "Wall_new x y type =
     \<lparr> w_x = x, w_y = y, w_size = WALL_SIZE, w_type = type, w_alive = True,
       w_destructible = (type = BRICK) \<rparr>"

definition wall_getBounds :: "wall \<Rightarrow> rect" where
  "wall_getBounds w = \<lparr> r_x = w_x w, r_y = w_y w, r_w = w_size w, r_h = w_size w \<rparr>"

section \<open>Bullet (Bullet.js)\<close>

record bullet =
  b_x :: real
  b_y :: real
  b_direction :: DIR
  b_isPlayerBullet :: bool
  b_color :: string
  b_size :: real
  b_speed :: real
  b_alive :: bool

definition Bullet_new :: "real \<Rightarrow> real \<Rightarrow> DIR \<Rightarrow> bool \<Rightarrow> string \<Rightarrow> bullet" where
  "Bullet_new x y direction isPlayerBullet color =
     \<lparr> b_x = x, b_y = y, b_direction = direction, b_isPlayerBullet = isPlayerBullet,
       b_color = color, b_size = BULLET_SIZE, b_speed = BULLET_SPEED, b_alive = True \<rparr>"

definition bullet_getBounds :: "bullet \<Rightarrow> rect" where
  "bullet_getBounds b = \<lparr> r_x = b_x b, r_y = b_y b, r_w = b_size b, r_h = b_size b \<rparr>"

text \<open>The position change of \<open>Bullet.update\<close> (the \<open>switch\<close> on the direction).\<close>

definition bullet_advance :: "bullet \<Rightarrow> bullet" where
  "bullet_advance b =
     (case b_direction b of
        UP \<Rightarrow> b\<lparr>b_y := b_y b - b_speed b\<rparr>
      | DOWN \<Rightarrow> b\<lparr>b_y := b_y b + b_speed b\<rparr>
      | LEFT \<Rightarrow> b\<lparr>b_x := b_x b - b_speed b\<rparr>
      | RIGHT \<Rightarrow> b\<lparr>b_x := b_x b + b_speed b\<rparr>)"

text \<open>The bounds test of \<open>Bullet.update\<close>.\<close>

definition bullet_outside :: "bullet \<Rightarrow> bool" where
  "bullet_outside b \<longleftrightarrow>
     b_x b < - b_size b \<or>
     b_x b > DESIGN_WIDTH + b_size b \<or>
     b_y b < - b_size b \<or>
     b_y b > DESIGN_HEIGHT + b_size b"

definition bullet_update :: "bullet \<Rightarrow> bullet" where
  "bullet_update b =
     (if \<not> b_alive b then b
      else let b1 = bullet_advance b
           in if bullet_outside b1 then b1\<lparr>b_alive := False\<rparr> else b1)"

section \<open>Tank (Tank.js)\<close>

text \<open>
  A tank object carries its reference \<open>t_ref\<close>: the test \<open>tank === this\<close> of the source
  compares object identities, which here is equality of references.
\<close>

record tank =
  t_ref :: nat
  t_x :: real
  t_y :: real
  t_direction :: DIR
  t_isPlayer :: bool
  t_speed :: real
  t_fireCooldown :: real
  t_color :: string
  t_bulletColor :: string
  t_lastFireTime :: real
  t_alive :: bool
  t_size :: real
  t_invincibleUntil :: real
  t_aiDirectionTimer :: real
  t_aiDirectionInterval :: real

text \<open>
  The constructor. \<open>ref\<close> is the reference of the new object and \<open>rnd\<close> the value that
  \<open>Math.random()\<close> returns for the AI interval.
\<close>

definition Tank_new :: "nat \<Rightarrow> real \<Rightarrow> real \<Rightarrow> DIR \<Rightarrow> bool \<Rightarrow> real \<Rightarrow> tank" where
  "Tank_new ref x y direction isPlayer rnd =
     \<lparr> t_ref = ref, t_x = x, t_y = y, t_direction = direction, t_isPlayer = isPlayer,
       t_speed = (if isPlayer then TANK_SPEED else ENEMY_SPEED),
       t_fireCooldown = (if isPlayer then TANK_FIRE_COOLDOWN else ENEMY_FIRE_COOLDOWN),
       t_color = (if isPlayer then COLOR_PLAYER else COLOR_ENEMY),
       t_bulletColor = (if isPlayer then COLOR_BULLET_PLAYER else COLOR_BULLET_ENEMY),
       t_lastFireTime = 0,
       t_alive = True,
       t_size = TANK_SIZE,
       t_invincibleUntil = 0,
       t_aiDirectionTimer = 0,
       t_aiDirectionInterval = 1500 + rnd * 1500 \<rparr>"

definition getBounds :: "tank \<Rightarrow> rect" where
  "getBounds t = \<lparr> r_x = t_x t, r_y = t_y t, r_w = t_size t, r_h = t_size t \<rparr>"

text \<open>\<open>Math.round\<close> rounds to the nearest integer, halves upwards, as \<open>round\<close> does.\<close>

definition snapToGrid :: "real \<Rightarrow> real" where
  "snapToGrid val = of_int (round (val / WALL_SIZE)) * WALL_SIZE"

definition isVertical :: "DIR \<Rightarrow> bool" where
  "isVertical d \<longleftrightarrow> d = UP \<or> d = DOWN"

text \<open>
  First part of \<open>Tank.move\<close> for an alive tank: the new direction is stored and, when the
  movement axis changes, the off-axis coordinate is snapped to the grid.
\<close>

definition move_turn :: "tank \<Rightarrow> DIR \<Rightarrow> tank" where
  "move_turn this dir =
     (let wasVertical = isVertical (t_direction this);
          nowVertical = isVertical dir;
          axisChanged = (wasVertical \<noteq> nowVertical);
          this1 = this\<lparr>t_direction := dir\<rparr>
      in if axisChanged
         then (if nowVertical
               then this1\<lparr>t_x := snapToGrid (t_x this1)\<rparr>
               else this1\<lparr>t_y := snapToGrid (t_y this1)\<rparr>)
         else this1)"

text \<open>The tentative position \<open>(nx, ny)\<close> of a tank that has turned: one step, clamped to the world.\<close>

definition move_target :: "tank \<Rightarrow> DIR \<Rightarrow> real \<times> real" where
  "move_target this dir =
     (let nx = t_x this;
          ny = t_y this;
          (nx, ny) = (case dir of
                        UP \<Rightarrow> (nx, ny - t_speed this)
                      | DOWN \<Rightarrow> (nx, ny + t_speed this)
                      | LEFT \<Rightarrow> (nx - t_speed this, ny)
                      | RIGHT \<Rightarrow> (nx + t_speed this, ny));
          nx = max 0 (min (DESIGN_WIDTH - t_size this) nx);
          ny = max 0 (min (DESIGN_HEIGHT - t_size this) ny)
      in (nx, ny))"

definition TOLERANCE :: real where "TOLERANCE = 0.5"

definition nextBounds :: "tank \<Rightarrow> real \<times> real \<Rightarrow> rect" where
  "nextBounds this p =
     \<lparr> r_x = fst p + TOLERANCE, r_y = snd p + TOLERANCE,
       r_w = t_size this - TOLERANCE * 2, r_h = t_size this - TOLERANCE * 2 \<rparr>"

text \<open>The loop over the walls: does the tentative box meet an alive wall?\<close>

fun hitsWall :: "rect \<Rightarrow> wall list \<Rightarrow> bool" where
  "hitsWall nb [] = False"
| "hitsWall nb (w # ws) =
     (if \<not> w_alive w then hitsWall nb ws
      else if rectsOverlap nb (wall_getBounds w) then True
      else hitsWall nb ws)"

text \<open>The loop over the tanks: does the tentative box meet another alive tank?\<close>

fun hitsTank :: "tank \<Rightarrow> rect \<Rightarrow> tank list \<Rightarrow> bool" where
  "hitsTank this nb [] = False"
| "hitsTank this nb (t # ts) =
     (if t_ref t = t_ref this \<or> \<not> t_alive t then hitsTank this nb ts
      else if rectsOverlap nb (getBounds t) then True
      else hitsTank this nb ts)"

definition move :: "tank \<Rightarrow> DIR \<Rightarrow> wall list \<Rightarrow> tank list \<Rightarrow> tank" where
  "move this dir walls tanks =
     (if \<not> t_alive this then this
      else let this1 = move_turn this dir;
               p = move_target this1 dir;
               nb = nextBounds this1 p
           in if hitsWall nb walls then this1
              else if hitsTank this1 nb tanks then this1
              else this1\<lparr>t_x := fst p, t_y := snd p\<rparr>)"

text \<open>\<open>Tank.fire\<close> returns the bullet (or \<open>None\<close> for \<open>null\<close>) and the tank as it is afterwards.\<close>

definition muzzle :: "tank \<Rightarrow> real \<times> real" where
  "muzzle this =
     (let halfTank = t_size this / 2;
          halfBullet = BULLET_SIZE / 2
      in case t_direction this of
           UP \<Rightarrow> (t_x this + halfTank - halfBullet, t_y this - BULLET_SIZE)
         | DOWN \<Rightarrow> (t_x this + halfTank - halfBullet, t_y this + t_size this)
         | LEFT \<Rightarrow> (t_x this - BULLET_SIZE, t_y this + halfTank - halfBullet)
         | RIGHT \<Rightarrow> (t_x this + t_size this, t_y this + halfTank - halfBullet))"

definition fire :: "tank \<Rightarrow> real \<Rightarrow> bullet option \<times> tank" where
  "fire this now =
     (if \<not> t_alive this then (None, this)
      else if now - t_lastFireTime this < t_fireCooldown this then (None, this)
      else let this1 = this\<lparr>t_lastFireTime := now\<rparr>;
               (bx, by) = muzzle this1
           in (Some (Bullet_new bx by (t_direction this1) (t_isPlayer this1) (t_bulletColor this1)),
               this1))"

definition isInvincible :: "tank \<Rightarrow> real \<Rightarrow> bool" where
  "isInvincible this now \<longleftrightarrow> now < t_invincibleUntil this"

section \<open>Map generator (mapGenerator.js)\<close>

definition COLS :: nat where "COLS = nat \<lfloor>DESIGN_WIDTH / WALL_SIZE\<rfloor>"
definition ROWS :: nat where "ROWS = nat \<lfloor>DESIGN_HEIGHT / WALL_SIZE\<rfloor>"

text \<open>
  \<open>pseudoRandom\<close> with \<open>Math.sin\<close> read as the real sine: the floor is that of the
  double computation unless the product lies within rounding error of an integer. Its
  arguments in the generator are sums of products of natural numbers.
\<close>

definition pseudoRandom :: "nat \<Rightarrow> nat" where
  "pseudoRandom n = (let x = sin (real n * 9301 + 49297) * 233280 in nat \<bar>\<lfloor>x\<rfloor>\<bar>)"

definition playerSpawnCol :: nat where "playerSpawnCol = COLS div 2"
definition playerSpawnRow :: nat where "playerSpawnRow = ROWS - 3"

definition enemySpawnPositions :: "(nat \<times> nat) list" where
  "enemySpawnPositions = [(2, 2), (COLS div 2, 2), (COLS - 3, 2)]"

definition isReserved :: "nat \<Rightarrow> nat \<Rightarrow> bool" where
  "isReserved c r \<longleftrightarrow>
     (\<bar>int c - int playerSpawnCol\<bar> \<le> 1 \<and> \<bar>int r - int playerSpawnRow\<bar> \<le> 1) \<or>
     list_ex (\<lambda>sp. \<bar>int c - int (fst sp)\<bar> \<le> 1 \<and> \<bar>int r - int (snd sp)\<bar> \<le> 1)
       enemySpawnPositions"

definition innerStartR :: nat where "innerStartR = 2"
definition innerEndR :: nat where "innerEndR = ROWS - 2"
definition innerStartC :: nat where "innerStartC = 2"
definition innerEndC :: nat where "innerEndC = COLS - 2"

text \<open>The wall of grid cell \<open>(c, r)\<close>.\<close>

definition wallAt :: "nat \<Rightarrow> nat \<Rightarrow> WALL_TYPE \<Rightarrow> wall" where
  "wallAt c r type = Wall_new (real c * WALL_SIZE) (real r * WALL_SIZE) type"

text \<open>Step 1: the steel border, top and bottom rows first, then the two sides.\<close>

definition borderWalls :: "wall list" where
  "borderWalls =
     concat (map (\<lambda>c. [wallAt c 0 STEEL, wallAt c (ROWS - 1) STEEL]) [0..<COLS]) @
     concat (map (\<lambda>r. [wallAt 0 r STEEL, wallAt (COLS - 1) r STEEL]) [1..<ROWS - 1])"

text \<open>\<open>Math.max(3, 5 - Math.floor(level / 3))\<close>, the spacing of structural rows and columns.\<close>

definition spacing :: "nat \<Rightarrow> nat" where
  "spacing level = nat (max 3 (5 - int (level div 3)))"

text \<open>Step 2: the body of the double loop over the inner cells.\<close>

definition cellWalls :: "nat \<Rightarrow> nat \<Rightarrow> nat \<Rightarrow> wall list" where
  "cellWalls level c r =
     (let seed = level * 7 + 3;
          rowSpacing = spacing level;
          colSpacing = spacing level
      in if isReserved c r then []
         else let isStructRow = ((r - innerStartR) mod rowSpacing = 0);
                  isStructCol = ((c - innerStartC) mod colSpacing = 0)
              in if isStructRow \<and> isStructCol
                 then [wallAt c r (if pseudoRandom (c * seed + r * 13) mod 5 = 0
                                   then STEEL else BRICK)]
                 else if isStructRow \<and> \<not> isStructCol
                 then (let hash = pseudoRandom (c * seed + r * 17 + level)
                       in if hash mod 3 \<noteq> 0 then [wallAt c r BRICK] else [])
                 else if \<not> isStructRow \<and> isStructCol
                 then (let hash = pseudoRandom (c * 19 + r * seed + level)
                       in if hash mod 4 = 0 then [wallAt c r BRICK] else [])
                 else [])"

definition structuralWalls :: "nat \<Rightarrow> wall list" where
  "structuralWalls level =
     concat (map (\<lambda>r. concat (map (\<lambda>c. cellWalls level c r) [innerStartC..<innerEndC]))
               [innerStartR..<innerEndR])"

text \<open>Step 3 of the source (step 4 of the specification): the extra steel walls.\<close>

definition extraCell :: "nat \<Rightarrow> nat \<Rightarrow> nat \<times> nat" where
  "extraCell level i =
     (innerStartC + pseudoRandom (i * 31 + level * 7) mod (innerEndC - innerStartC),
      innerStartR + pseudoRandom (i * 37 + level * 11) mod (innerEndR - innerStartR))"

definition extraWall :: "nat \<Rightarrow> nat \<Rightarrow> wall list" where
  "extraWall level i =
     (let c = fst (extraCell level i);
          r = snd (extraCell level i)
      in if \<not> isReserved c r then [wallAt c r STEEL] else [])"

definition extraSteelWalls :: "nat \<Rightarrow> wall list" where
  "extraSteelWalls level =
     (let steelExtra = min level 5
      in concat (map (extraWall level) [0..<steelExtra]))"

definition generateMap :: "nat \<Rightarrow> wall list" where
  "generateMap level = borderWalls @ structuralWalls level @ extraSteelWalls level"

definition getPlayerSpawn :: "real \<times> real" where
  "getPlayerSpawn = (real (COLS div 2) * WALL_SIZE, real (ROWS - 3) * WALL_SIZE)"

definition getEnemySpawnPoints :: "(real \<times> real) list" where
  "getEnemySpawnPoints =
     [(2 * WALL_SIZE, 2 * WALL_SIZE),
      (real (COLS div 2) * WALL_SIZE, 2 * WALL_SIZE),
      (real (COLS - 3) * WALL_SIZE, 2 * WALL_SIZE)]"


subsection \<open>The generator as a program over the state of the process\<close>

text \<open>
  What a JavaScript function can read and write besides its arguments and locals: the
  clock (\<open>performance.now\<close>, \<open>Date.now\<close>), the values that \<open>Math.random\<close> is going to
  return, and the objects that exist, here the \<open>Wall\<close> objects, by reference. \<open>new\<close>
  allocates the next fresh reference. The engine marks a wall destroyed by writing its
  \<open>alive\<close> field, so the walls of an earlier map are mutable state of the process.
\<close>

record process =
  p_clock :: real
  p_random :: "real stream"
  p_walls :: "nat \<Rightarrow> wall option"
  p_fresh :: nat

text \<open>
  \<open>walls.push(new Wall(x, y, type))\<close> on the local array \<open>walls\<close>, an array of references,
  for the wall \<open>w\<close> that the constructor builds.
\<close>

definition push_Wall :: "wall \<Rightarrow> nat list \<times> process \<Rightarrow> nat list \<times> process" where
  "push_Wall w s =
     (let walls = fst s;
          p = snd s;
          ref = p_fresh p
      in (walls @ [ref], p\<lparr>p_walls := (p_walls p)(ref \<mapsto> w), p_fresh := ref + 1\<rparr>))"

text \<open>Step 1: the two loops of the border.\<close>

definition border_run :: "nat list \<times> process \<Rightarrow> nat list \<times> process" where
  "border_run s =
     (let s1 = fold (\<lambda>c s. push_Wall (wallAt c (ROWS - 1) STEEL) (push_Wall (wallAt c 0 STEEL) s))
                 [0..<COLS] s
      in fold (\<lambda>r s. push_Wall (wallAt (COLS - 1) r STEEL) (push_Wall (wallAt 0 r STEEL) s))
           [1..<ROWS - 1] s1)"

text \<open>Step 2: the body of the double loop, and the double loop.\<close>

definition cell_run :: "nat \<Rightarrow> nat \<Rightarrow> nat \<Rightarrow> nat list \<times> process \<Rightarrow> nat list \<times> process" where
  "cell_run level c r s =
     (let seed = level * 7 + 3;
          rowSpacing = spacing level;
          colSpacing = spacing level
      in if isReserved c r then s
         else let isStructRow = ((r - innerStartR) mod rowSpacing = 0);
                  isStructCol = ((c - innerStartC) mod colSpacing = 0)
              in if isStructRow \<and> isStructCol
                 then (let type = (if pseudoRandom (c * seed + r * 13) mod 5 = 0
                                   then STEEL else BRICK)
                       in push_Wall (wallAt c r type) s)
                 else if isStructRow \<and> \<not> isStructCol
                 then (let hash = pseudoRandom (c * seed + r * 17 + level)
                       in if hash mod 3 \<noteq> 0 then push_Wall (wallAt c r BRICK) s else s)
                 else if \<not> isStructRow \<and> isStructCol
                 then (let hash = pseudoRandom (c * 19 + r * seed + level)
                       in if hash mod 4 = 0 then push_Wall (wallAt c r BRICK) s else s)
                 else s)"

definition structural_run :: "nat \<Rightarrow> nat list \<times> process \<Rightarrow> nat list \<times> process" where
  "structural_run level s =
     fold (\<lambda>r. fold (\<lambda>c. cell_run level c r) [innerStartC..<innerEndC])
       [innerStartR..<innerEndR] s"

text \<open>Step 3: the loop of the extra steel walls.\<close>

definition extra_run :: "nat \<Rightarrow> nat list \<times> process \<Rightarrow> nat list \<times> process" where
  "extra_run level s =
     (let steelExtra = min level 5
      in fold (\<lambda>i s.
                 let c = innerStartC + pseudoRandom (i * 31 + level * 7) mod (innerEndC - innerStartC);
                     r = innerStartR + pseudoRandom (i * 37 + level * 11) mod (innerEndR - innerStartR)
                 in if \<not> isReserved c r then push_Wall (wallAt c r STEEL) s else s)
           [0..<steelExtra] s)"

text \<open>
  \<open>generateMap(level)\<close> run in the process state \<open>p\<close>: the array of references it returns
  and the state it leaves.
\<close>

definition generateMap_run :: "nat \<Rightarrow> process \<Rightarrow> nat list \<times> process" where
  "generateMap_run level p = extra_run level (structural_run level (border_run ([], p)))"

text \<open>The objects that the references of a returned array lead to.\<close>

definition readWalls :: "nat list \<times> process \<Rightarrow> wall option list" where
  "readWalls s = map (p_walls (snd s)) (fst s)"

text \<open>The engine destroys the wall at a reference: \<open>wall.alive = false\<close>.\<close>

definition destroyWall :: "nat \<Rightarrow> process \<Rightarrow> process" where
  "destroyWall ref p =
     p\<lparr>p_walls := (p_walls p)(ref := map_option (\<lambda>w. w\<lparr>w_alive := False\<rparr>) (p_walls p ref))\<rparr>"
section \<open>Game engine (GameEngine.js)\<close>

record explosion =
  e_x :: real
  e_y :: real
  e_radius :: real
  e_maxRadius :: real
  e_alpha :: real
  e_color :: string

record keys =
  k_up :: bool
  k_down :: bool
  k_left :: bool
  k_right :: bool
  k_fire :: bool

text \<open>
  The engine object. \<open>g_player\<close> is \<open>None\<close> for \<open>null\<close>. \<open>g_nextRef\<close> is the next unused
  object reference: every \<open>new Tank\<close> takes it and increments it. Sound effects and the
  \<open>onStateChange\<close> notification do not change the engine and are left out.
\<close>

record engine =
  g_state :: GAME_STATE
  g_score :: int
  g_lives :: int
  g_level :: nat
  g_enemiesDestroyed :: nat
  g_totalEnemiesSpawned :: nat
  g_player :: "tank option"
  g_enemies :: "tank list"
  g_bullets :: "bullet list"
  g_walls :: "wall list"
  g_lastEnemySpawnTime :: real
  g_keys :: keys
  g_explosions :: "explosion list"
  g_nextRef :: nat

definition GameEngine_new :: engine where
  "GameEngine_new =
     \<lparr> g_state = MENU, g_score = 0, g_lives = PLAYER_MAX_LIVES, g_level = 1,
       g_enemiesDestroyed = 0, g_totalEnemiesSpawned = 0,
       g_player = None, g_enemies = [], g_bullets = [], g_walls = [],
       g_lastEnemySpawnTime = 0,
       g_keys = \<lparr> k_up = False, k_down = False, k_left = False, k_right = False,
                  k_fire = False \<rparr>,
       g_explosions = [], g_nextRef = 0 \<rparr>"

text \<open>
  \<open>startGame\<close>. \<open>t1\<close> and \<open>t2\<close> are the values of the two calls of \<open>performance.now()\<close>,
  \<open>rnd\<close> the value of \<open>Math.random()\<close> in the tank constructor.
\<close>

definition startGame :: "real \<Rightarrow> real \<Rightarrow> real \<Rightarrow> nat \<Rightarrow> engine \<Rightarrow> engine" where
  "startGame t1 t2 rnd level g =
     (let spawn = getPlayerSpawn;
          player = (Tank_new (g_nextRef g) (fst spawn) (snd spawn) UP True rnd)
                     \<lparr>t_invincibleUntil := t1 + 2000\<rparr>
      in g\<lparr> g_state := PLAYING,
            g_level := level,
            g_score := (if level = 1 then 0 else g_score g),
            g_lives := (if level = 1 then PLAYER_MAX_LIVES else g_lives g),
            g_enemiesDestroyed := 0,
            g_totalEnemiesSpawned := 0,
            g_bullets := [],
            g_enemies := [],
            g_explosions := [],
            g_walls := generateMap level,
            g_player := Some player,
            g_lastEnemySpawnTime := t2,
            g_nextRef := g_nextRef g + 1 \<rparr>)"

definition nextLevel :: "real \<Rightarrow> real \<Rightarrow> real \<Rightarrow> engine \<Rightarrow> engine" where
  "nextLevel t1 t2 rnd g = startGame t1 t2 rnd (g_level g + 1) g"

definition togglePause :: "engine \<Rightarrow> engine" where
  "togglePause g =
     (if g_state g = PLAYING then g\<lparr>g_state := PAUSED\<rparr>
      else if g_state g = PAUSED then g\<lparr>g_state := PLAYING\<rparr>
      else g)"

text \<open>The array \<open>[this.player, ...this.enemies]\<close> when the player is an object.\<close>

definition allTanks :: "engine \<Rightarrow> tank list" where
  "allTanks g = (case g_player g of None \<Rightarrow> [] | Some p \<Rightarrow> [p]) @ g_enemies g"

definition handlePlayerInput :: "real \<Rightarrow> engine \<Rightarrow> engine" where
  "handlePlayerInput now g =
     (case g_player g of
        None \<Rightarrow> g
      | Some p \<Rightarrow>
          if \<not> t_alive p then g
          else let tanks = p # g_enemies g;
                   k = g_keys g;
                   p1 = (if k_up k then move p UP (g_walls g) tanks
                         else if k_down k then move p DOWN (g_walls g) tanks
                         else if k_left k then move p LEFT (g_walls g) tanks
                         else if k_right k then move p RIGHT (g_walls g) tanks
                         else p)
               in if k_fire k
                  then (case fire p1 now of
                          (Some bullet, p2) \<Rightarrow>
                            g\<lparr>g_player := Some p2, g_bullets := g_bullets g @ [bullet]\<rparr>
                        | (None, p2) \<Rightarrow> g\<lparr>g_player := Some p2\<rparr>)
                  else g\<lparr>g_player := Some p1\<rparr>)"

text \<open>
  \<open>directions[Math.floor(Math.random() * 4)]\<close>, for a value of \<open>Math.random()\<close>, which lies
  in the interval from 0 (inclusive) to 1 (exclusive).
\<close>

definition pickDirection :: "real \<Rightarrow> DIR" where
  "pickDirection rnd =
     (let i = \<lfloor>rnd * 4\<rfloor>
      in if i \<le> 0 then UP else if i = 1 then DOWN else if i = 2 then LEFT else RIGHT)"

text \<open>
  The call \<open>enemy.move(enemy.direction, this.walls, allTanks)\<close>. When the player is \<open>null\<close>
  the array starts with \<open>null\<close>, and the loop over the tanks, reached by an alive enemy that
  no wall blocks, throws a TypeError: the result \<open>None\<close>.
\<close>

definition enemyMove :: "tank \<Rightarrow> engine \<Rightarrow> tank option" where
  "enemyMove enemy g =
     (case g_player g of
        Some p \<Rightarrow> Some (move enemy (t_direction enemy) (g_walls g) (p # g_enemies g))
      | None \<Rightarrow>
          if t_alive enemy \<and>
             \<not> hitsWall (nextBounds (move_turn enemy (t_direction enemy))
                           (move_target (move_turn enemy (t_direction enemy)) (t_direction enemy)))
                 (g_walls g)
          then None
          else Some (move enemy (t_direction enemy) (g_walls g) []))"

text \<open>
  The body of the loop of \<open>_updateEnemyAI\<close> for the enemy at index \<open>i\<close>. \<open>rs\<close> is the stream
  of the values that the coming calls of \<open>Math.random()\<close> return; the rest of the stream is
  returned with the engine.
\<close>

definition enemyAI_step ::
  "real \<Rightarrow> nat \<Rightarrow> real stream \<Rightarrow> engine \<Rightarrow> (engine \<times> real stream) option" where
  "enemyAI_step now i rs g =
     (let enemy = g_enemies g ! i
      in if \<not> t_alive enemy then Some (g, rs)
         else
           let turn = (now - t_aiDirectionTimer enemy > t_aiDirectionInterval enemy);
               enemy1 = (if turn
                         then enemy\<lparr> t_aiDirectionTimer := now,
                                     t_direction := pickDirection (shd rs),
                                     t_aiDirectionInterval := 1500 + shd (stl rs) * 1500 \<rparr>
                         else enemy);
               rs1 = (if turn then stl (stl rs) else rs);
               g1 = g\<lparr>g_enemies := (g_enemies g)[i := enemy1]\<rparr>
           in case enemyMove enemy1 g1 of
                None \<Rightarrow> None
              | Some enemy2 \<Rightarrow>
                  let g2 = g1\<lparr>g_enemies := (g_enemies g1)[i := enemy2]\<rparr>
                  in if shd rs1 < 0.02
                     then (case fire enemy2 now of
                             (Some bullet, enemy3) \<Rightarrow>
                               Some (g2\<lparr> g_enemies := (g_enemies g2)[i := enemy3],
                                          g_bullets := g_bullets g2 @ [bullet] \<rparr>, stl rs1)
                           | (None, enemy3) \<Rightarrow>
                               Some (g2\<lparr>g_enemies := (g_enemies g2)[i := enemy3]\<rparr>, stl rs1))
                     else Some (g2, stl rs1))"

text \<open>The loop of \<open>_updateEnemyAI\<close> from index \<open>i\<close> on, for \<open>n\<close> more enemies.\<close>

fun enemyAI_loop ::
  "real \<Rightarrow> nat \<Rightarrow> nat \<Rightarrow> real stream \<Rightarrow> engine \<Rightarrow> (engine \<times> real stream) option" where
  "enemyAI_loop now 0 i rs g = Some (g, rs)"
| "enemyAI_loop now (Suc n) i rs g =
     (case enemyAI_step now i rs g of
        None \<Rightarrow> None
      | Some (g1, rs1) \<Rightarrow> enemyAI_loop now n (Suc i) rs1 g1)"

definition updateEnemyAI ::
  "real \<Rightarrow> real stream \<Rightarrow> engine \<Rightarrow> (engine \<times> real stream) option" where
  "updateEnemyAI now rs g = enemyAI_loop now (length (g_enemies g)) 0 rs g"

text \<open>The spawn point that \<open>_spawnEnemies\<close> targets, in round-robin order.\<close>

definition spawnPoint :: "engine \<Rightarrow> real \<times> real" where
  "spawnPoint g =
     (let spawnPoints = getEnemySpawnPoints
      in spawnPoints ! (g_totalEnemiesSpawned g mod length spawnPoints))"

text \<open>The test \<open>blocked\<close> of \<open>_spawnEnemies\<close>; a \<open>null\<close> player is skipped.\<close>

definition spawnBlocked :: "engine \<Rightarrow> bool" where
  "spawnBlocked g =
     (let sp = spawnPoint g;
          testBounds = \<lparr> r_x = fst sp, r_y = snd sp, r_w = 36, r_h = 36 \<rparr>
      in list_ex (\<lambda>t. t_alive t \<and> rectsOverlap testBounds (getBounds t))
           (g_enemies g @ (case g_player g of None \<Rightarrow> [] | Some p \<Rightarrow> [p])))"

definition spawnEnemies :: "real \<Rightarrow> real stream \<Rightarrow> engine \<Rightarrow> engine \<times> real stream" where
  "spawnEnemies now rs g =
     (if g_totalEnemiesSpawned g \<ge> ENEMIES_PER_LEVEL then (g, rs)
      else if length (g_enemies g) \<ge> MAX_ENEMIES then (g, rs)
      else if now - g_lastEnemySpawnTime g < ENEMY_SPAWN_INTERVAL then (g, rs)
      else let g1 = g\<lparr>g_lastEnemySpawnTime := now\<rparr>;
               sp = spawnPoint g1
           in if spawnBlocked g1 then (g1, rs)
              else let enemy = (Tank_new (g_nextRef g1) (fst sp) (snd sp) DOWN False (shd rs))
                                 \<lparr>t_aiDirectionTimer := now\<rparr>
                   in (g1\<lparr> g_enemies := g_enemies g1 @ [enemy],
                            g_totalEnemiesSpawned := g_totalEnemiesSpawned g1 + 1,
                            g_nextRef := g_nextRef g1 + 1 \<rparr>, stl rs))"

definition addExplosion :: "real \<Rightarrow> real \<Rightarrow> real \<Rightarrow> string \<Rightarrow> engine \<Rightarrow> engine" where
  "addExplosion x y maxRadius color g =
     g\<lparr>g_explosions := g_explosions g @
         [\<lparr> e_x = x, e_y = y, e_radius = 2, e_maxRadius = maxRadius, e_alpha = 1,
            e_color = color \<rparr>]\<rparr>"

text \<open>Index of the first element that satisfies \<open>P\<close>: where a loop with \<open>break\<close> stops.\<close>

fun firstIndex :: "('a \<Rightarrow> bool) \<Rightarrow> 'a list \<Rightarrow> nat option" where
  "firstIndex P [] = None"
| "firstIndex P (x # xs) = (if P x then Some 0 else map_option Suc (firstIndex P xs))"

text \<open>Bullet against walls: the first alive wall that the bullet overlaps.\<close>

definition bulletVsWalls :: "bullet \<Rightarrow> engine \<Rightarrow> bullet \<times> engine" where
  "bulletVsWalls bullet g =
     (let bb = bullet_getBounds bullet
      in case firstIndex (\<lambda>w. w_alive w \<and> rectsOverlap bb (wall_getBounds w)) (g_walls g) of
           None \<Rightarrow> (bullet, g)
         | Some i \<Rightarrow>
             let wall = g_walls g ! i;
                 bullet1 = bullet\<lparr>b_alive := False\<rparr>
             in if w_destructible wall
                then (bullet1,
                      addExplosion (w_x wall + w_size wall / 2) (w_y wall + w_size wall / 2) 12
                        ''#AA6633''
                        (g\<lparr>g_walls := (g_walls g)[i := wall\<lparr>w_alive := False\<rparr>]\<rparr>))
                else (bullet1, addExplosion (b_x bullet) (b_y bullet) 6 ''#CCCCCC'' g))"

text \<open>Player bullet against enemies: the first alive enemy that the bullet overlaps.\<close>

definition bulletVsEnemies :: "bullet \<Rightarrow> engine \<Rightarrow> bullet \<times> engine" where
  "bulletVsEnemies bullet g =
     (let bb = bullet_getBounds bullet
      in case firstIndex (\<lambda>e. t_alive e \<and> rectsOverlap bb (getBounds e)) (g_enemies g) of
           None \<Rightarrow> (bullet, g)
         | Some i \<Rightarrow>
             let enemy = g_enemies g ! i
             in (bullet\<lparr>b_alive := False\<rparr>,
                 addExplosion (t_x enemy + t_size enemy / 2) (t_y enemy + t_size enemy / 2) 25
                   ''#FF4400''
                   (g\<lparr> g_enemies := (g_enemies g)[i := enemy\<lparr>t_alive := False\<rparr>],
                        g_score := g_score g + 100,
                        g_enemiesDestroyed := g_enemiesDestroyed g + 1 \<rparr>)))"

text \<open>Enemy bullet against the player.\<close>

definition bulletVsPlayer :: "real \<Rightarrow> bullet \<Rightarrow> engine \<Rightarrow> bullet \<times> engine" where
  "bulletVsPlayer now bullet g =
     (let bb = bullet_getBounds bullet
      in case g_player g of
           None \<Rightarrow> (bullet, g)
         | Some p \<Rightarrow>
             if \<not> b_isPlayerBullet bullet \<and> t_alive p
             then if \<not> isInvincible p now \<and> rectsOverlap bb (getBounds p)
                  then let bullet1 = bullet\<lparr>b_alive := False\<rparr>;
                           g1 = g\<lparr>g_lives := g_lives g - 1\<rparr>;
                           g2 = addExplosion (t_x p + t_size p / 2) (t_y p + t_size p / 2) 25
                                  ''#00FF66'' g1
                       in if g_lives g2 \<le> 0
                          then (bullet1,
                                g2\<lparr> g_player := Some (p\<lparr>t_alive := False\<rparr>),
                                     g_state := GAME_OVER \<rparr>)
                          else let spawn = getPlayerSpawn
                               in (bullet1,
                                   g2\<lparr>g_player :=
                                        Some (p\<lparr> t_x := fst spawn, t_y := snd spawn,
                                                  t_direction := UP,
                                                  t_invincibleUntil := now + 2000 \<rparr>)\<rparr>)
                  else (bullet, g)
             else (bullet, g))"

text \<open>The body of the loop of \<open>_checkCollisions\<close> for one bullet.\<close>

definition checkBullet :: "real \<Rightarrow> bullet \<Rightarrow> engine \<Rightarrow> bullet \<times> engine" where
  "checkBullet now bullet g =
     (if \<not> b_alive bullet then (bullet, g)
      else let (bullet1, g1) = bulletVsWalls bullet g
           in if \<not> b_alive bullet1 then (bullet1, g1)
              else let (bullet2, g2) = (if b_isPlayerBullet bullet1
                                        then bulletVsEnemies bullet1 g1
                                        else (bullet1, g1))
                   in bulletVsPlayer now bullet2 g2)"

fun checkBullets :: "real \<Rightarrow> bullet list \<Rightarrow> engine \<Rightarrow> bullet list \<times> engine" where
  "checkBullets now [] g = ([], g)"
| "checkBullets now (b # bs) g =
     (let (b1, g1) = checkBullet now b g;
          (bs1, g2) = checkBullets now bs g1
      in (b1 # bs1, g2))"

definition checkCollisions :: "real \<Rightarrow> engine \<Rightarrow> engine" where
  "checkCollisions now g =
     (let (bs, g1) = checkBullets now (g_bullets g) g in g1\<lparr>g_bullets := bs\<rparr>)"

definition updateBullets :: "engine \<Rightarrow> engine" where
  "updateBullets g = g\<lparr>g_bullets := map bullet_update (g_bullets g)\<rparr>"

definition cleanup :: "engine \<Rightarrow> engine" where
  "cleanup g =
     g\<lparr> g_bullets := filter b_alive (g_bullets g),
        g_enemies := filter t_alive (g_enemies g),
        g_walls := filter w_alive (g_walls g),
        g_explosions := filter (\<lambda>e. e_alpha e > 0) (g_explosions g) \<rparr>"

text \<open>
  JavaScript numbers are IEEE 754 doubles. The coordinates, sizes and speeds of the game
  are integers, on which the arithmetic of doubles is exact. The alpha of an explosion is
  decreased by \<open>0.03\<close>, which is no double: the radius and the alpha of an explosion
  are therefore computed as the machine does it, every result rounded to the nearest
  double, a tie going to the even mantissa. \<open>binade n y\<close> is the binary exponent of
  \<open>y > 0\<close>, found in at most \<open>n\<close> doublings or halvings; exponents below that of the
  smallest normal double share its spacing. Results beyond the largest double, which
  JavaScript turns into \<open>Infinity\<close>, do not occur here and are not modelled.
\<close>

fun binade :: "nat \<Rightarrow> real \<Rightarrow> int" where
  "binade 0 y = 0"
| "binade (Suc n) y =
     (if 2 \<le> y then binade n (y / 2) + 1
      else if y < 1 then binade n (y * 2) - 1
      else 0)"

definition pow2 :: "int \<Rightarrow> real" where
  "pow2 e = (if 0 \<le> e then 2 ^ nat e else 1 / 2 ^ nat (- e))"

definition roundEven :: "real \<Rightarrow> int" where
  "roundEven q =
     (let f = \<lfloor>q\<rfloor>;
          d = q - of_int f
      in if d < 1 / 2 then f
         else if 1 / 2 < d then f + 1
         else if even f then f else f + 1)"

definition roundToDouble :: "real \<Rightarrow> real" where
  "roundToDouble y =
     (if y = 0 then 0
      else let e = max (binade 1100 \<bar>y\<bar>) (- 1022);
               ulp = pow2 (e - 52)
           in of_int (roundEven (y / ulp)) * ulp)"

definition updateExplosions :: "engine \<Rightarrow> engine" where
  "updateExplosions g =
     g\<lparr>g_explosions :=
         map (\<lambda>exp. exp\<lparr>e_radius := roundToDouble (e_radius exp + 1.5),
                        e_alpha := roundToDouble (e_alpha exp - roundToDouble 0.03)\<rparr>)
           (g_explosions g)\<rparr>"

definition checkLevelClear :: "engine \<Rightarrow> engine" where
  "checkLevelClear g =
     (if g_enemiesDestroyed g \<ge> ENEMIES_PER_LEVEL then g\<lparr>g_state := LEVEL_CLEAR\<rparr> else g)"

text \<open>One tick. \<open>None\<close> is the TypeError of \<open>enemyMove\<close>.\<close>

definition update :: "real \<Rightarrow> real stream \<Rightarrow> engine \<Rightarrow> (engine \<times> real stream) option" where
  "update now rs g =
     (if g_state g \<noteq> PLAYING then Some (g, rs)
      else let g1 = handlePlayerInput now g
           in case updateEnemyAI now rs g1 of
                None \<Rightarrow> None
              | Some (g2, rs2) \<Rightarrow>
                  let (g3, rs3) = spawnEnemies now rs2 g2;
                      g4 = updateBullets g3;
                      g5 = checkCollisions now g4;
                      g6 = cleanup g5;
                      g7 = updateExplosions g6;
                      g8 = checkLevelClear g7
                  in Some (g8, rs3))"

text \<open>
  The states the engine passes through: the initial state, every state that a command of
  the public interface or a write of the input flags produces, and every state that a
  phase of a tick produces.
\<close>

inductive reachable :: "engine \<Rightarrow> bool" where
  r_new: "reachable GameEngine_new"
| r_keys: "reachable g \<Longrightarrow> reachable (g\<lparr>g_keys := k\<rparr>)"
| r_start: "reachable g \<Longrightarrow> reachable (startGame t1 t2 rnd level g)"
| r_pause: "reachable g \<Longrightarrow> reachable (togglePause g)"
| r_input: "reachable g \<Longrightarrow> reachable (handlePlayerInput now g)"
| r_ai: "reachable g \<Longrightarrow> i < length (g_enemies g) \<Longrightarrow>
         enemyAI_step now i rs g = Some (g1, rs1) \<Longrightarrow> reachable g1"
| r_spawn: "reachable g \<Longrightarrow> reachable (fst (spawnEnemies now rs g))"
| r_bullets: "reachable g \<Longrightarrow> reachable (updateBullets g)"
| r_collide: "reachable g \<Longrightarrow> reachable (checkCollisions now g)"
| r_cleanup: "reachable g \<Longrightarrow> reachable (cleanup g)"
| r_explosions: "reachable g \<Longrightarrow> reachable (updateExplosions g)"
| r_clear: "reachable g \<Longrightarrow> reachable (checkLevelClear g)"

section \<open>Predicates of the specification\<close>

text \<open>
  The tentative box of \<open>move\<close>: the shrunk box at the tentative position, computed after
  the turn.
\<close>

definition tentativeBounds :: "tank \<Rightarrow> DIR \<Rightarrow> rect" where
  "tentativeBounds t dir = nextBounds (move_turn t dir) (move_target (move_turn t dir) dir)"

text \<open>The tentative box overlaps an alive wall or an alive tank other than the mover.\<close>

definition move_blocked :: "tank \<Rightarrow> DIR \<Rightarrow> wall list \<Rightarrow> tank list \<Rightarrow> bool" where
  "move_blocked t dir walls tanks \<longleftrightarrow>
     (\<exists>w\<in>set walls. w_alive w \<and> rectsOverlap (tentativeBounds t dir) (wall_getBounds w)) \<or>
     (\<exists>u\<in>set tanks. t_ref u \<noteq> t_ref t \<and> t_alive u \<and>
        rectsOverlap (tentativeBounds t dir) (getBounds u))"

text \<open>The three gates of \<open>_spawnEnemies\<close> pass.\<close>

definition spawnGates :: "real \<Rightarrow> engine \<Rightarrow> bool" where
  "spawnGates now g \<longleftrightarrow>
     g_totalEnemiesSpawned g < ENEMIES_PER_LEVEL \<and>
     length (g_enemies g) < MAX_ENEMIES \<and>
     \<not> now - g_lastEnemySpawnTime g < ENEMY_SPAWN_INTERVAL"

text \<open>Coordinates on the integer grid: what every tank and wall of the game has.\<close>

definition gridTank :: "tank \<Rightarrow> bool" where
  "gridTank t \<longleftrightarrow> t_x t \<in> \<int> \<and> t_y t \<in> \<int> \<and> t_size t = TANK_SIZE \<and> t_speed t \<in> \<int>"

definition gridWall :: "wall \<Rightarrow> bool" where
  "gridWall w \<longleftrightarrow> w_x w \<in> \<int> \<and> w_y w \<in> \<int> \<and> w_size w = WALL_SIZE"

definition gridEngine :: "engine \<Rightarrow> bool" where
  "gridEngine g \<longleftrightarrow> list_all gridTank (allTanks g) \<and> list_all gridWall (g_walls g)"

text \<open>
  Object references: the tanks of the engine are distinct objects, allocated below
  \<open>g_nextRef\<close>.
\<close>

definition refsEngine :: "engine \<Rightarrow> bool" where
  "refsEngine g \<longleftrightarrow>
     distinct (map t_ref (allTanks g)) \<and>
     (\<forall>r\<in>set (map t_ref (allTanks g)). r < g_nextRef g)"

text \<open>A phase that leaves the references of the tanks and the allocation counter alone.\<close>

definition sameRefs :: "engine \<Rightarrow> engine \<Rightarrow> bool" where
  "sameRefs g g1 \<longleftrightarrow>
     map t_ref (allTanks g1) = map t_ref (allTanks g) \<and> g_nextRef g1 = g_nextRef g"

section \<open>Polynomial bounds of the sine\<close>

text \<open>The Taylor polynomial of the sine of degree 17, in Horner form.\<close>

definition hstep :: "real \<Rightarrow> real \<Rightarrow> real \<Rightarrow> real" where
  "hstep c y h = 1 - y * h / c"

definition sinP :: "real \<Rightarrow> real" where
  "sinP x = x * hstep 6 (x * x) (hstep 20 (x * x) (hstep 42 (x * x) (hstep 72 (x * x)
              (hstep 110 (x * x) (hstep 156 (x * x) (hstep 210 (x * x) (hstep 272 (x * x) 1)))))))"

section \<open>Example states\<close>

text \<open>
  An engine in play where three enemies have been spawned, the last of them at time 9000,
  and one of them stands at \<open>(72, y)\<close>.
\<close>

definition crowdedEngine :: "real \<Rightarrow> engine" where
  "crowdedEngine y =
     GameEngine_new\<lparr> g_state := PLAYING,
                     g_player := Some (Tank_new 0 612 612 UP True 0),
                     g_enemies := [Tank_new 1 72 y DOWN False 0],
                     g_totalEnemiesSpawned := 3,
                     g_lastEnemySpawnTime := 9000,
                     g_nextRef := 4 \<rparr>"

text \<open>
  An engine in play whose player is invincible until 2000, with one enemy bullet inside the
  player's box and no walls.
\<close>

definition shieldedEngine :: engine where
  "shieldedEngine =
     GameEngine_new\<lparr> g_state := PLAYING,
                     g_player := Some ((Tank_new 0 612 612 UP True 0)
                                         \<lparr>t_invincibleUntil := 2000\<rparr>),
                     g_bullets := [Bullet_new 620 620 DOWN False COLOR_BULLET_ENEMY],
                     g_nextRef := 1 \<rparr>"

text \<open>The fresh player tank after a shot at time 1000.\<close>

definition firedTank :: tank where
  "firedTank = snd (fire (Tank_new 0 612 612 UP True 0) 1000)"


text \<open>
  A process that has just started, and the process after level 1 has been generated in
  it, the first wall of that map has been destroyed, and time and random numbers have
  passed.
\<close>

definition freshProcess :: process where
  "freshProcess = \<lparr>p_clock = 0, p_random = sconst 0, p_walls = (\<lambda>a. None), p_fresh = 0\<rparr>"

definition laterProcess :: process where
  "laterProcess =
     (destroyWall 0 (snd (generateMap_run 1 freshProcess)))
       \<lparr>p_clock := 5000, p_random := sconst (1 / 2)\<rparr>"
section \<open>Firing\<close>

text \<open>
  C10. A tank that is not alive never fires: \<open>fire\<close> returns no bullet and the tank,
  \<open>lastFireTime\<close> included, is exactly as before.
\<close>

theorem fire_dead_noop:
  "\<not> t_alive t \<Longrightarrow> fire t now = (None, t)"
  by (simp add: fire_def)

theorem fire_dead_noop_witness:
  "\<not> t_alive ((Tank_new 0 612 612 UP True 0)\<lparr>t_alive := False\<rparr>) \<and>
   fire ((Tank_new 0 612 612 UP True 0)\<lparr>t_alive := False\<rparr>) 5000
     = (None, (Tank_new 0 612 612 UP True 0)\<lparr>t_alive := False\<rparr>)"
  using fire_dead_noop [of "(Tank_new 0 612 612 UP True 0)\<lparr>t_alive := False\<rparr>" 5000]
  by simp


section \<open>Fire cooldown\<close>

lemma fire_ready:
  "t_alive t \<Longrightarrow> \<not> now - t_lastFireTime t < t_fireCooldown t \<Longrightarrow>
   fire t now =
     (Some (Bullet_new (fst (muzzle t)) (snd (muzzle t)) (t_direction t) (t_isPlayer t)
              (t_bulletColor t)),
      t\<lparr>t_lastFireTime := now\<rparr>)"
  by (simp add: fire_def muzzle_def Let_def split: DIR.splits)

lemma fire_cooling:
  "t_alive t \<Longrightarrow> now - t_lastFireTime t < t_fireCooldown t \<Longrightarrow> fire t now = (None, t)"
  by (simp add: fire_def)

lemma muzzle_outside_body:
  "\<not> rectsOverlap
       (bullet_getBounds (Bullet_new (fst (muzzle t)) (snd (muzzle t)) d p c)) (getBounds t)"
  by (cases "t_direction t")
     (simp_all add: rectsOverlap_def bullet_getBounds_def getBounds_def Bullet_new_def
        muzzle_def BULLET_SIZE_def)

text \<open>
  C7, as the code has it. For an alive tank, \<open>fire\<close> within the cooldown returns nothing
  and changes nothing; otherwise it stamps \<open>lastFireTime\<close> and returns an alive bullet with
  the tank's direction, owner flag and bullet colour, centred on the facing edge and
  touching it from outside. The cooldown runs from the last call that fired: after a call
  that returned a bullet, a second call less than the cooldown later returns none, and a
  second call at least the cooldown later returns a bullet.
\<close>

theorem fire_cooldown:
  "t_alive t \<longrightarrow>
   (now - t_lastFireTime t < t_fireCooldown t \<longrightarrow> fire t now = (None, t)) \<and>
   (\<not> now - t_lastFireTime t < t_fireCooldown t \<longrightarrow>
      (\<exists>b. fire t now = (Some b, t\<lparr>t_lastFireTime := now\<rparr>) \<and>
           b_isPlayerBullet b = t_isPlayer t \<and> b_color b = t_bulletColor t \<and>
           b_direction b = t_direction t \<and> b_alive b \<and> b_size b = BULLET_SIZE \<and>
           \<not> rectsOverlap (bullet_getBounds b) (getBounds t) \<and>
           (case t_direction t of
              UP \<Rightarrow> b_x b + b_size b / 2 = t_x t + t_size t / 2 \<and> b_y b + b_size b = t_y t
            | DOWN \<Rightarrow> b_x b + b_size b / 2 = t_x t + t_size t / 2 \<and> b_y b = t_y t + t_size t
            | LEFT \<Rightarrow> b_y b + b_size b / 2 = t_y t + t_size t / 2 \<and> b_x b + b_size b = t_x t
            | RIGHT \<Rightarrow> b_y b + b_size b / 2 = t_y t + t_size t / 2 \<and> b_x b = t_x t + t_size t))) \<and>
   (fst (fire t now) \<noteq> None \<longrightarrow>
      (now2 - now < t_fireCooldown t \<longrightarrow> fst (fire (snd (fire t now)) now2) = None) \<and>
      (\<not> now2 - now < t_fireCooldown t \<longrightarrow> fst (fire (snd (fire t now)) now2) \<noteq> None))"
proof (intro impI conjI)
  assume a: "t_alive t" and c: "now - t_lastFireTime t < t_fireCooldown t"
  show "fire t now = (None, t)" by (rule fire_cooling [OF a c])
next
  assume a: "t_alive t" and r: "\<not> now - t_lastFireTime t < t_fireCooldown t"
  let ?b = "Bullet_new (fst (muzzle t)) (snd (muzzle t)) (t_direction t) (t_isPlayer t)
              (t_bulletColor t)"
  have geo: "case t_direction t of
              UP \<Rightarrow> b_x ?b + b_size ?b / 2 = t_x t + t_size t / 2 \<and> b_y ?b + b_size ?b = t_y t
            | DOWN \<Rightarrow> b_x ?b + b_size ?b / 2 = t_x t + t_size t / 2 \<and> b_y ?b = t_y t + t_size t
            | LEFT \<Rightarrow> b_y ?b + b_size ?b / 2 = t_y t + t_size t / 2 \<and> b_x ?b + b_size ?b = t_x t
            | RIGHT \<Rightarrow> b_y ?b + b_size ?b / 2 = t_y t + t_size t / 2 \<and> b_x ?b = t_x t + t_size t"
    by (cases "t_direction t") (simp_all add: Bullet_new_def muzzle_def BULLET_SIZE_def)
  have "fire t now = (Some ?b, t\<lparr>t_lastFireTime := now\<rparr>)"
    by (rule fire_ready [OF a r])
  moreover have "b_isPlayerBullet ?b = t_isPlayer t" "b_color ?b = t_bulletColor t"
    "b_direction ?b = t_direction t" "b_alive ?b" "b_size ?b = BULLET_SIZE"
    by (simp_all add: Bullet_new_def)
  moreover have "\<not> rectsOverlap (bullet_getBounds ?b) (getBounds t)"
    by (rule muzzle_outside_body)
  ultimately show "\<exists>b. fire t now = (Some b, t\<lparr>t_lastFireTime := now\<rparr>) \<and>
           b_isPlayerBullet b = t_isPlayer t \<and> b_color b = t_bulletColor t \<and>
           b_direction b = t_direction t \<and> b_alive b \<and> b_size b = BULLET_SIZE \<and>
           \<not> rectsOverlap (bullet_getBounds b) (getBounds t) \<and>
           (case t_direction t of
              UP \<Rightarrow> b_x b + b_size b / 2 = t_x t + t_size t / 2 \<and> b_y b + b_size b = t_y t
            | DOWN \<Rightarrow> b_x b + b_size b / 2 = t_x t + t_size t / 2 \<and> b_y b = t_y t + t_size t
            | LEFT \<Rightarrow> b_y b + b_size b / 2 = t_y t + t_size t / 2 \<and> b_x b + b_size b = t_x t
            | RIGHT \<Rightarrow> b_y b + b_size b / 2 = t_y t + t_size t / 2 \<and> b_x b = t_x t + t_size t)"
    using geo by blast
next
  assume a: "t_alive t" and f: "fst (fire t now) \<noteq> None"
    and c: "now2 - now < t_fireCooldown t"
  from a f have s: "snd (fire t now) = t\<lparr>t_lastFireTime := now\<rparr>"
    by (auto simp: fire_def Let_def split: if_splits prod.splits)
  show "fst (fire (snd (fire t now)) now2) = None"
    using a c by (simp add: s fire_cooling)
next
  assume a: "t_alive t" and f: "fst (fire t now) \<noteq> None"
    and c: "\<not> now2 - now < t_fireCooldown t"
  from a f have s: "snd (fire t now) = t\<lparr>t_lastFireTime := now\<rparr>"
    by (auto simp: fire_def Let_def split: if_splits prod.splits)
  show "fst (fire (snd (fire t now)) now2) \<noteq> None"
    using a c by (simp add: s fire_ready)
qed

text \<open>
  The fresh player tank (\<open>lastFireTime = 0\<close>, cooldown 300) fires at 1000; a call at 1200
  returns nothing and a call at 1300 returns a bullet.
\<close>

theorem fire_cooldown_witness:
  "t_alive (Tank_new 0 612 612 UP True 0) \<and>
   fst (fire (Tank_new 0 612 612 UP True 0) 1000) \<noteq> None \<and>
   fst (fire (snd (fire (Tank_new 0 612 612 UP True 0) 1000)) 1200) = None \<and>
   fst (fire (snd (fire (Tank_new 0 612 612 UP True 0) 1000)) 1300) \<noteq> None"
proof -
  let ?t = "Tank_new 0 612 612 UP True 0"
  have a: "t_alive ?t" by (simp add: Tank_new_def)
  have f: "fst (fire ?t 1000) \<noteq> None"
    by (simp add: fire_def Tank_new_def TANK_FIRE_COOLDOWN_def Let_def split: prod.splits)
  have c: "t_fireCooldown ?t = 300" by (simp add: Tank_new_def TANK_FIRE_COOLDOWN_def)
  from fire_cooldown [of ?t 1000 1200] a f c
  have 1: "fst (fire (snd (fire ?t 1000)) 1200) = None" by simp
  from fire_cooldown [of ?t 1000 1300] a f c
  have 2: "fst (fire (snd (fire ?t 1000)) 1300) \<noteq> None" by simp
  from a f 1 2 show ?thesis by blast
qed

text \<open>
  The two-call sentence of C7 as it is written fails. The player tank has fired at 1000.
  Calls at 1100 and 1400 are a full cooldown apart, and the first returns no bullet; calls
  at 1290 and 1300 are less than the cooldown apart, and the second returns a bullet.
\<close>

theorem fire_two_calls_counterexample:
  "t_alive firedTank \<and> t_fireCooldown firedTank = 300 \<and>
   \<not> (1400 - 1100 < t_fireCooldown firedTank) \<and>
   fst (fire firedTank 1100) = None \<and>
   fst (fire (snd (fire firedTank 1100)) 1400) \<noteq> None \<and>
   1300 - 1290 < t_fireCooldown firedTank \<and>
   fst (fire firedTank 1290) = None \<and>
   fst (fire (snd (fire firedTank 1290)) 1300) \<noteq> None"
proof -
  have t: "firedTank = (Tank_new 0 612 612 UP True 0)\<lparr>t_lastFireTime := 1000\<rparr>"
    by (simp add: firedTank_def fire_def Tank_new_def TANK_FIRE_COOLDOWN_def Let_def
        split: prod.splits)
  show ?thesis
    unfolding t
    by (simp add: fire_def Tank_new_def TANK_FIRE_COOLDOWN_def Let_def split: prod.splits)
qed

section \<open>Bullet lifetime\<close>

lemma bullet_update_dead: "\<not> b_alive b \<Longrightarrow> bullet_update b = b"
  by (simp add: bullet_update_def)

lemma bullet_update_dead_iter: "\<not> b_alive b \<Longrightarrow> (bullet_update ^^ n) b = b"
  by (induction n) (simp_all add: bullet_update_dead)

lemma bullet_advance_alive: "b_alive (bullet_advance b) = b_alive b"
  by (cases "b_direction b") (simp_all add: bullet_advance_def)

lemma bullet_advance_size: "b_size (bullet_advance b) = b_size b"
  by (cases "b_direction b") (simp_all add: bullet_advance_def)

text \<open>
  C9. An alive bullet moves by its speed along its direction, and is alive after the update
  exactly when the new position is not outside the design resolution by more than the
  bullet's size. A bullet that is not alive is left as it is by any number of updates.
  The speed of every bullet that is constructed is the constant 6.
\<close>

theorem bullet_update_lifetime:
  "(b_alive b \<longrightarrow>
      b_x (bullet_update b) =
        b_x b + (case b_direction b of LEFT \<Rightarrow> - b_speed b | RIGHT \<Rightarrow> b_speed b | _ \<Rightarrow> 0) \<and>
      b_y (bullet_update b) =
        b_y b + (case b_direction b of UP \<Rightarrow> - b_speed b | DOWN \<Rightarrow> b_speed b | _ \<Rightarrow> 0) \<and>
      (b_alive (bullet_update b) \<longleftrightarrow>
         \<not> (b_x (bullet_update b) < - b_size b \<or>
            b_x (bullet_update b) > DESIGN_WIDTH + b_size b \<or>
            b_y (bullet_update b) < - b_size b \<or>
            b_y (bullet_update b) > DESIGN_HEIGHT + b_size b)) \<and>
      bullet_update b =
        (bullet_advance b)\<lparr>b_alive := \<not> bullet_outside (bullet_advance b)\<rparr>) \<and>
   (\<not> b_alive b \<longrightarrow> (bullet_update ^^ n) b = b) \<and>
   (\<not> b_alive (bullet_update b) \<longrightarrow>
      (bullet_update ^^ n) (bullet_update b) = bullet_update b) \<and>
   b_speed (Bullet_new x y d p c) = BULLET_SPEED \<and> BULLET_SPEED = 6"
proof (intro conjI impI)
  show "b_speed (Bullet_new x y d p c) = BULLET_SPEED" by (simp add: Bullet_new_def)
  show "BULLET_SPEED = 6" by (simp add: BULLET_SPEED_def)
next
  assume a: "b_alive b"
  show "b_x (bullet_update b) =
        b_x b + (case b_direction b of LEFT \<Rightarrow> - b_speed b | RIGHT \<Rightarrow> b_speed b | _ \<Rightarrow> 0)"
    using a by (cases "b_direction b") (simp_all add: bullet_update_def bullet_advance_def Let_def)
  show "b_y (bullet_update b) =
        b_y b + (case b_direction b of UP \<Rightarrow> - b_speed b | DOWN \<Rightarrow> b_speed b | _ \<Rightarrow> 0)"
    using a by (cases "b_direction b") (simp_all add: bullet_update_def bullet_advance_def Let_def)
  show "b_alive (bullet_update b) \<longleftrightarrow>
         \<not> (b_x (bullet_update b) < - b_size b \<or>
            b_x (bullet_update b) > DESIGN_WIDTH + b_size b \<or>
            b_y (bullet_update b) < - b_size b \<or>
            b_y (bullet_update b) > DESIGN_HEIGHT + b_size b)"
    using a
    by (simp add: bullet_update_def Let_def bullet_outside_def bullet_advance_alive
        bullet_advance_size)
  show "bullet_update b = (bullet_advance b)\<lparr>b_alive := \<not> bullet_outside (bullet_advance b)\<rparr>"
    using a bullet_advance_alive [of b] by (simp add: bullet_update_def Let_def)
next
  assume "\<not> b_alive b"
  then show "(bullet_update ^^ n) b = b" by (rule bullet_update_dead_iter)
next
  assume "\<not> b_alive (bullet_update b)"
  then show "(bullet_update ^^ n) (bullet_update b) = bullet_update b"
    by (rule bullet_update_dead_iter)
qed

text \<open>
  A bullet at \<open>x = 1283\<close> flying right is alive; one update takes it to 1289, beyond
  1280 + 6, and it is dead from then on.
\<close>

theorem bullet_update_lifetime_witness:
  "b_alive (Bullet_new 1283 100 RIGHT True COLOR_BULLET_PLAYER) \<and>
   b_x (bullet_update (Bullet_new 1283 100 RIGHT True COLOR_BULLET_PLAYER)) = 1289 \<and>
   \<not> b_alive (bullet_update (Bullet_new 1283 100 RIGHT True COLOR_BULLET_PLAYER)) \<and>
   (bullet_update ^^ 3) (bullet_update (Bullet_new 1283 100 RIGHT True COLOR_BULLET_PLAYER))
     = bullet_update (Bullet_new 1283 100 RIGHT True COLOR_BULLET_PLAYER)"
proof -
  let ?b = "Bullet_new 1283 100 RIGHT True COLOR_BULLET_PLAYER"
  have a: "b_alive ?b" by (simp add: Bullet_new_def)
  from bullet_update_lifetime [of ?b 3] a
  have x0: "b_x (bullet_update ?b) =
        b_x ?b + (case b_direction ?b of LEFT \<Rightarrow> - b_speed ?b | RIGHT \<Rightarrow> b_speed ?b | _ \<Rightarrow> 0)"
    and d: "b_alive (bullet_update ?b) \<longleftrightarrow>
         \<not> (b_x (bullet_update ?b) < - b_size ?b \<or>
            b_x (bullet_update ?b) > DESIGN_WIDTH + b_size ?b \<or>
            b_y (bullet_update ?b) < - b_size ?b \<or>
            b_y (bullet_update ?b) > DESIGN_HEIGHT + b_size ?b)"
    by blast+
  from x0 have x: "b_x (bullet_update ?b) = 1289"
    by (simp add: Bullet_new_def BULLET_SPEED_def)
  have "b_size ?b = 6" by (simp add: Bullet_new_def BULLET_SIZE_def)
  with d x have dead: "\<not> b_alive (bullet_update ?b)"
    by (simp add: DESIGN_WIDTH_def)
  from bullet_update_lifetime [of ?b 3] dead
  have "(bullet_update ^^ 3) (bullet_update ?b) = bullet_update ?b" by blast
  with a x dead show ?thesis by blast
qed


section \<open>Grid snap\<close>

lemma snapToGrid_multiple: "\<exists>k::int. snapToGrid v = of_int k * WALL_SIZE"
  by (auto simp: snapToGrid_def)

lemma snapToGrid_nearest: "\<bar>v - snapToGrid v\<bar> \<le> \<bar>v - of_int j * WALL_SIZE\<bar>"
proof -
  have "\<bar>v / 36 - of_int (round (v / 36))\<bar> \<le> \<bar>v / 36 - of_int j\<bar>"
    by (rule round_diff_minimal)
  then have "36 * \<bar>v / 36 - of_int (round (v / 36))\<bar> \<le> 36 * \<bar>v / 36 - of_int j\<bar>"
    by simp
  moreover have "36 * \<bar>v / 36 - of_int (round (v / 36))\<bar> = \<bar>v - of_int (round (v / 36)) * 36\<bar>"
    by (simp add: abs_if field_simps)
  moreover have "36 * \<bar>v / 36 - of_int j\<bar> = \<bar>v - of_int j * 36\<bar>"
    by (simp add: abs_if field_simps)
  ultimately show ?thesis by (simp add: snapToGrid_def WALL_SIZE_def)
qed

lemma move_turn_ref [simp]: "t_ref (move_turn t dir) = t_ref t"
  by (simp add: move_turn_def Let_def)

lemma move_turn_direction [simp]: "t_direction (move_turn t dir) = dir"
  by (simp add: move_turn_def Let_def)

lemma move_turn_size [simp]: "t_size (move_turn t dir) = t_size t"
  by (simp add: move_turn_def Let_def)

lemma move_turn_speed [simp]: "t_speed (move_turn t dir) = t_speed t"
  by (simp add: move_turn_def Let_def)

lemma move_turn_x:
  "t_x (move_turn t dir) =
     (if \<not> isVertical (t_direction t) \<and> isVertical dir then snapToGrid (t_x t) else t_x t)"
  by (simp add: move_turn_def Let_def)

lemma move_turn_y:
  "t_y (move_turn t dir) =
     (if isVertical (t_direction t) \<and> \<not> isVertical dir then snapToGrid (t_y t) else t_y t)"
  by (simp add: move_turn_def Let_def)

lemma move_target_vertical:
  "isVertical dir \<Longrightarrow> fst (move_target t dir) = max 0 (min (DESIGN_WIDTH - t_size t) (t_x t))"
  by (cases dir) (simp_all add: move_target_def isVertical_def Let_def)

lemma move_target_horizontal:
  "\<not> isVertical dir \<Longrightarrow> snd (move_target t dir) = max 0 (min (DESIGN_HEIGHT - t_size t) (t_y t))"
  by (cases dir) (simp_all add: move_target_def isVertical_def Let_def)

lemma move_cases:
  "t_alive t \<Longrightarrow>
   move t dir walls tanks = move_turn t dir \<or>
   move t dir walls tanks =
     (move_turn t dir)\<lparr>t_x := fst (move_target (move_turn t dir) dir),
                        t_y := snd (move_target (move_turn t dir) dir)\<rparr>"
  by (simp add: move_def Let_def)

lemma snapToGrid_100: "snapToGrid 100 = 108"
  by (simp add: snapToGrid_def WALL_SIZE_def round_def)

section \<open>Blocked and committed moves\<close>

lemma hitsWall_iff:
  "hitsWall nb ws \<longleftrightarrow> (\<exists>w\<in>set ws. w_alive w \<and> rectsOverlap nb (wall_getBounds w))"
  by (induction ws) auto

lemma hitsTank_iff:
  "hitsTank this nb ts \<longleftrightarrow>
     (\<exists>u\<in>set ts. t_ref u \<noteq> t_ref this \<and> t_alive u \<and> rectsOverlap nb (getBounds u))"
  by (induction ts) auto

lemma move_when_blocked:
  "t_alive t \<Longrightarrow> move_blocked t dir walls tanks \<Longrightarrow> move t dir walls tanks = move_turn t dir"
  by (auto simp: move_def Let_def move_blocked_def tentativeBounds_def hitsWall_iff hitsTank_iff)

lemma move_when_free:
  "t_alive t \<Longrightarrow> \<not> move_blocked t dir walls tanks \<Longrightarrow>
   move t dir walls tanks =
     (move_turn t dir)\<lparr>t_x := fst (move_target (move_turn t dir) dir),
                        t_y := snd (move_target (move_turn t dir) dir)\<rparr>"
  by (auto simp: move_def Let_def move_blocked_def tentativeBounds_def hitsWall_iff hitsTank_iff)

lemma move_turn_same_axis:
  "isVertical (t_direction t) = isVertical dir \<Longrightarrow> move_turn t dir = t\<lparr>t_direction := dir\<rparr>"
  by (simp add: move_turn_def Let_def)

text \<open>
  C2, as the code has it. The direction is stored, and the off-axis coordinate snapped,
  before the collision tests. When the tentative box overlaps an alive wall or another
  alive tank, only the advance is abandoned: the tank is left as the turn made it, facing
  \<open>dir\<close>, with its coordinate along the new axis unchanged and the other coordinate
  changed only by the snap of an axis change. When nothing overlaps, the tentative
  position and the direction are both committed.
\<close>

theorem move_frame:
  "t_alive t \<longrightarrow>
   (move_blocked t dir walls tanks \<longrightarrow>
      move t dir walls tanks = move_turn t dir \<and>
      t_direction (move t dir walls tanks) = dir \<and>
      (isVertical dir \<longrightarrow> t_y (move t dir walls tanks) = t_y t) \<and>
      (\<not> isVertical dir \<longrightarrow> t_x (move t dir walls tanks) = t_x t) \<and>
      (isVertical (t_direction t) = isVertical dir \<longrightarrow>
         move t dir walls tanks = t\<lparr>t_direction := dir\<rparr>)) \<and>
   (\<not> move_blocked t dir walls tanks \<longrightarrow>
      move t dir walls tanks =
        (move_turn t dir)\<lparr>t_x := fst (move_target (move_turn t dir) dir),
                           t_y := snd (move_target (move_turn t dir) dir)\<rparr> \<and>
      t_direction (move t dir walls tanks) = dir)"
proof (intro impI conjI)
  assume a: "t_alive t" and b: "move_blocked t dir walls tanks"
  show m: "move t dir walls tanks = move_turn t dir" by (rule move_when_blocked [OF a b])
  show "t_direction (move t dir walls tanks) = dir" by (simp add: m)
  show "t_y (move t dir walls tanks) = t_y t" if "isVertical dir"
    using that by (simp add: m move_turn_y)
  show "t_x (move t dir walls tanks) = t_x t" if "\<not> isVertical dir"
    using that by (simp add: m move_turn_x)
  show "move t dir walls tanks = t\<lparr>t_direction := dir\<rparr>"
    if "isVertical (t_direction t) = isVertical dir"
    using that by (simp add: m move_turn_same_axis)
next
  assume a: "t_alive t" and f: "\<not> move_blocked t dir walls tanks"
  show m: "move t dir walls tanks =
        (move_turn t dir)\<lparr>t_x := fst (move_target (move_turn t dir) dir),
                           t_y := snd (move_target (move_turn t dir) dir)\<rparr>"
    by (rule move_when_free [OF a f])
  show "t_direction (move t dir walls tanks) = dir" by (simp add: m)
qed

text \<open>
  A player tank at (100, 100) facing right is told to move up under a wall at (108, 72):
  the move is blocked, the tank faces up and stands at \<open>x = 108\<close>. With no wall it moves
  to (108, 98).
\<close>

theorem move_frame_witness:
  "t_alive (Tank_new 0 100 100 RIGHT True 0) \<and>
   move_blocked (Tank_new 0 100 100 RIGHT True 0) UP [Wall_new 108 72 BRICK] [] \<and>
   move (Tank_new 0 100 100 RIGHT True 0) UP [Wall_new 108 72 BRICK] []
     = move_turn (Tank_new 0 100 100 RIGHT True 0) UP \<and>
   t_y (move (Tank_new 0 100 100 RIGHT True 0) UP [Wall_new 108 72 BRICK] []) = 100 \<and>
   \<not> move_blocked (Tank_new 0 100 100 RIGHT True 0) UP [] [] \<and>
   t_x (move (Tank_new 0 100 100 RIGHT True 0) UP [] []) = 108 \<and>
   t_y (move (Tank_new 0 100 100 RIGHT True 0) UP [] []) = 98 \<and>
   t_direction (move (Tank_new 0 100 100 RIGHT True 0) UP [] []) = UP"
proof -
  let ?t = "Tank_new 0 100 100 RIGHT True 0"
  let ?w = "Wall_new 108 72 BRICK"
  have a: "t_alive ?t" and y: "t_y ?t = 100" by (simp_all add: Tank_new_def)
  have tx: "t_x (move_turn ?t UP) = 108" "t_y (move_turn ?t UP) = 100"
    by (simp_all add: move_turn_x move_turn_y isVertical_def Tank_new_def snapToGrid_100)
  have tg: "move_target (move_turn ?t UP) UP = (108, 98)"
    by (simp add: move_target_def Let_def tx DESIGN_WIDTH_def DESIGN_HEIGHT_def)
       (simp add: Tank_new_def TANK_SIZE_def TANK_SPEED_def)
  have b: "move_blocked ?t UP [?w] []"
    by (simp add: move_blocked_def tentativeBounds_def tg nextBounds_def rectsOverlap_def
        wall_getBounds_def Wall_new_def TOLERANCE_def WALL_SIZE_def)
       (simp add: Tank_new_def TANK_SIZE_def)
  have f: "\<not> move_blocked ?t UP [] []" by (simp add: move_blocked_def)
  from move_frame [of ?t UP "[?w]" "[]"] a b
  have 1: "move ?t UP [?w] [] = move_turn ?t UP"
    and "isVertical UP \<longrightarrow> t_y (move ?t UP [?w] []) = t_y ?t"
    by blast+
  with y have y1: "t_y (move ?t UP [?w] []) = 100" by (simp add: isVertical_def)
  from move_frame [of ?t UP "[]" "[]"] a f
  have "move ?t UP [] [] =
        (move_turn ?t UP)\<lparr>t_x := fst (move_target (move_turn ?t UP) UP),
                           t_y := snd (move_target (move_turn ?t UP) UP)\<rparr>"
    by blast
  then have 2: "move ?t UP [] [] = (move_turn ?t UP)\<lparr>t_x := 108, t_y := 98\<rparr>"
    by (simp add: tg)
  from a b f 1 y1 2 show ?thesis by simp
qed

text \<open>
  C2 as it is written fails: in the blocked move above the direction changes from
  \<open>RIGHT\<close> to \<open>UP\<close> and \<open>x\<close> from 100 to 108.
\<close>

theorem move_blocked_changes_counterexample:
  "t_alive (Tank_new 0 100 100 RIGHT True 0) \<and>
   move_blocked (Tank_new 0 100 100 RIGHT True 0) UP [Wall_new 108 72 BRICK] [] \<and>
   t_direction (Tank_new 0 100 100 RIGHT True 0) = RIGHT \<and>
   t_direction (move (Tank_new 0 100 100 RIGHT True 0) UP [Wall_new 108 72 BRICK] []) = UP \<and>
   t_x (Tank_new 0 100 100 RIGHT True 0) = 100 \<and>
   t_x (move (Tank_new 0 100 100 RIGHT True 0) UP [Wall_new 108 72 BRICK] []) = 108"
proof -
  let ?t = "Tank_new 0 100 100 RIGHT True 0"
  let ?w = "Wall_new 108 72 BRICK"
  have a: "t_alive ?t" "t_direction ?t = RIGHT" "t_x ?t = 100" by (simp_all add: Tank_new_def)
  have tx: "t_x (move_turn ?t UP) = 108" "t_y (move_turn ?t UP) = 100"
    by (simp_all add: move_turn_x move_turn_y isVertical_def Tank_new_def snapToGrid_100)
  have tg: "move_target (move_turn ?t UP) UP = (108, 98)"
    by (simp add: move_target_def Let_def tx DESIGN_WIDTH_def DESIGN_HEIGHT_def)
       (simp add: Tank_new_def TANK_SIZE_def TANK_SPEED_def)
  have b: "move_blocked ?t UP [?w] []"
    by (simp add: move_blocked_def tentativeBounds_def tg nextBounds_def rectsOverlap_def
        wall_getBounds_def Wall_new_def TOLERANCE_def WALL_SIZE_def)
       (simp add: Tank_new_def TANK_SIZE_def)
  have m: "move ?t UP [?w] [] = move_turn ?t UP"
    using a(1) b by (rule move_when_blocked)
  from a b m tx show ?thesis by simp
qed

section \<open>Grid snap on an axis switch\<close>

lemma move_dead: "\<not> t_alive t \<Longrightarrow> move t dir walls tanks = t"
  by (simp add: move_def)

lemma move_x_after_switch:
  assumes a: "t_alive t" and s: "\<not> isVertical (t_direction t)" "isVertical dir"
  shows "t_x (move t dir walls tanks) =
     (if move_blocked t dir walls tanks then snapToGrid (t_x t)
      else max 0 (min (DESIGN_WIDTH - t_size t) (snapToGrid (t_x t))))"
proof (cases "move_blocked t dir walls tanks")
  case True
  from move_when_blocked [OF a True] s True show ?thesis by (simp add: move_turn_x)
next
  case False
  from s have "fst (move_target (move_turn t dir) dir) =
      max 0 (min (DESIGN_WIDTH - t_size t) (snapToGrid (t_x t)))"
    by (simp add: move_target_vertical move_turn_x)
  with move_when_free [OF a False] False show ?thesis by simp
qed

lemma move_y_after_switch:
  assumes a: "t_alive t" and s: "isVertical (t_direction t)" "\<not> isVertical dir"
  shows "t_y (move t dir walls tanks) =
     (if move_blocked t dir walls tanks then snapToGrid (t_y t)
      else max 0 (min (DESIGN_HEIGHT - t_size t) (snapToGrid (t_y t))))"
proof (cases "move_blocked t dir walls tanks")
  case True
  from move_when_blocked [OF a True] s True show ?thesis by (simp add: move_turn_y)
next
  case False
  from s have "snd (move_target (move_turn t dir) dir) =
      max 0 (min (DESIGN_HEIGHT - t_size t) (snapToGrid (t_y t)))"
    by (simp add: move_target_horizontal move_turn_y)
  with move_when_free [OF a False] False show ?thesis by simp
qed

text \<open>
  Where the snapped coordinate stays inside the clamp range: everywhere in the world for
  \<open>y\<close>, and up to six units from the right edge for \<open>x\<close> (the last multiple of 36 below
  the width 1280 is 1260, beyond the largest position 1248 of a tank).
\<close>

lemma snapToGrid_bounds:
  assumes "0 \<le> v" "v < of_int n * 36 + 18"
  shows "0 \<le> snapToGrid v \<and> snapToGrid v \<le> of_int n * 36"
proof -
  from assms(1) have "round (0::real) \<le> round (v / 36)" by (intro round_mono) simp
  then have lo: "0 \<le> round (v / 36)" by simp
  from assms(2) have "v / 36 + 1 / 2 < of_int (n + 1)" by simp
  then have "\<lfloor>v / 36 + 1 / 2\<rfloor> < n + 1" by (simp only: floor_less_iff)
  then have hi: "round (v / 36) \<le> n" by (simp add: round_def)
  from lo have "0 \<le> real_of_int (round (v / 36)) * 36" by simp
  moreover from hi have "real_of_int (round (v / 36)) \<le> of_int n" by (simp only: of_int_le_iff)
  then have "real_of_int (round (v / 36)) * 36 \<le> of_int n * 36" by simp
  ultimately show ?thesis by (simp add: snapToGrid_def WALL_SIZE_def)
qed

lemma snapToGrid_in_width:
  "0 \<le> v \<Longrightarrow> v < 1242 \<Longrightarrow> 0 \<le> snapToGrid v \<and> snapToGrid v \<le> DESIGN_WIDTH - TANK_SIZE"
  using snapToGrid_bounds [of v 34] by (simp add: DESIGN_WIDTH_def TANK_SIZE_def)

lemma snapToGrid_in_height:
  "0 \<le> v \<Longrightarrow> v \<le> DESIGN_HEIGHT - TANK_SIZE \<Longrightarrow>
   0 \<le> snapToGrid v \<and> snapToGrid v \<le> DESIGN_HEIGHT - TANK_SIZE"
  using snapToGrid_bounds [of v 19] by (simp add: DESIGN_HEIGHT_def TANK_SIZE_def)

text \<open>
  C8, as the code has it. \<open>snapToGrid v\<close> is a multiple of the cell size 36 and no
  multiple of 36 is closer to \<open>v\<close>. The turn of an alive tank from a horizontal to a
  vertical direction sets \<open>x\<close> to \<open>snapToGrid x\<close>. When \<open>move\<close> returns, \<open>x\<close> is the
  snapped coordinate if the move was blocked, and the snapped coordinate clamped to
  \<open>[0, DESIGN_WIDTH - size]\<close> if it was committed: it is the nearest multiple of 36
  whenever that multiple lies in the clamp range, which is so for every tank of the
  standard size with \<open>0 \<le> x < 1242\<close>. Symmetrically for a turn from vertical to horizontal
  and \<open>y\<close>, where the range condition holds for every tank of the standard size inside
  the world. The \<open>move\<close> of a dead tank changes nothing.
\<close>

theorem snap_on_axis_switch:
  "(\<not> isVertical (t_direction t) \<and> isVertical dir \<longrightarrow>
      t_x (move_turn t dir) = snapToGrid (t_x t)) \<and>
   (isVertical (t_direction t) \<and> \<not> isVertical dir \<longrightarrow>
      t_y (move_turn t dir) = snapToGrid (t_y t)) \<and>
   WALL_SIZE = 36 \<and>
   (\<exists>k::int. snapToGrid v = of_int k * WALL_SIZE) \<and>
   (\<forall>j::int. \<bar>v - snapToGrid v\<bar> \<le> \<bar>v - of_int j * WALL_SIZE\<bar>) \<and>
   (t_alive t \<and> \<not> isVertical (t_direction t) \<and> isVertical dir \<longrightarrow>
      t_x (move t dir walls tanks) =
        (if move_blocked t dir walls tanks then snapToGrid (t_x t)
         else max 0 (min (DESIGN_WIDTH - t_size t) (snapToGrid (t_x t)))) \<and>
      (0 \<le> snapToGrid (t_x t) \<and> snapToGrid (t_x t) \<le> DESIGN_WIDTH - t_size t \<longrightarrow>
         t_x (move t dir walls tanks) = snapToGrid (t_x t)) \<and>
      (t_size t = TANK_SIZE \<and> 0 \<le> t_x t \<and> t_x t < 1242 \<longrightarrow>
         t_x (move t dir walls tanks) = snapToGrid (t_x t))) \<and>
   (t_alive t \<and> isVertical (t_direction t) \<and> \<not> isVertical dir \<longrightarrow>
      t_y (move t dir walls tanks) =
        (if move_blocked t dir walls tanks then snapToGrid (t_y t)
         else max 0 (min (DESIGN_HEIGHT - t_size t) (snapToGrid (t_y t)))) \<and>
      (0 \<le> snapToGrid (t_y t) \<and> snapToGrid (t_y t) \<le> DESIGN_HEIGHT - t_size t \<longrightarrow>
         t_y (move t dir walls tanks) = snapToGrid (t_y t)) \<and>
      (t_size t = TANK_SIZE \<and> 0 \<le> t_y t \<and> t_y t \<le> DESIGN_HEIGHT - TANK_SIZE \<longrightarrow>
         t_y (move t dir walls tanks) = snapToGrid (t_y t))) \<and>
   (\<not> t_alive t \<longrightarrow> move t dir walls tanks = t)"
proof (intro conjI impI allI)
  show "WALL_SIZE = 36" by (simp add: WALL_SIZE_def)
  show "\<exists>k::int. snapToGrid v = of_int k * WALL_SIZE" by (rule snapToGrid_multiple)
  show "\<bar>v - snapToGrid v\<bar> \<le> \<bar>v - of_int j * WALL_SIZE\<bar>" for j :: int
    by (rule snapToGrid_nearest)
  show "move t dir walls tanks = t" if "\<not> t_alive t" using that by (rule move_dead)
next
  assume "\<not> isVertical (t_direction t) \<and> isVertical dir"
  then show "t_x (move_turn t dir) = snapToGrid (t_x t)" by (simp add: move_turn_x)
next
  assume "isVertical (t_direction t) \<and> \<not> isVertical dir"
  then show "t_y (move_turn t dir) = snapToGrid (t_y t)" by (simp add: move_turn_y)
next
  assume h: "t_alive t \<and> \<not> isVertical (t_direction t) \<and> isVertical dir"
  then show x: "t_x (move t dir walls tanks) =
        (if move_blocked t dir walls tanks then snapToGrid (t_x t)
         else max 0 (min (DESIGN_WIDTH - t_size t) (snapToGrid (t_x t))))"
    by (simp add: move_x_after_switch)
  show "t_x (move t dir walls tanks) = snapToGrid (t_x t)"
    if "0 \<le> snapToGrid (t_x t) \<and> snapToGrid (t_x t) \<le> DESIGN_WIDTH - t_size t"
    using that by (simp add: x)
  show "t_x (move t dir walls tanks) = snapToGrid (t_x t)"
    if r: "t_size t = TANK_SIZE \<and> 0 \<le> t_x t \<and> t_x t < 1242"
  proof -
    from r have "0 \<le> snapToGrid (t_x t) \<and> snapToGrid (t_x t) \<le> DESIGN_WIDTH - t_size t"
      by (simp add: snapToGrid_in_width)
    then show ?thesis by (simp add: x)
  qed
next
  assume h: "t_alive t \<and> isVertical (t_direction t) \<and> \<not> isVertical dir"
  then show y: "t_y (move t dir walls tanks) =
        (if move_blocked t dir walls tanks then snapToGrid (t_y t)
         else max 0 (min (DESIGN_HEIGHT - t_size t) (snapToGrid (t_y t))))"
    by (simp add: move_y_after_switch)
  show "t_y (move t dir walls tanks) = snapToGrid (t_y t)"
    if "0 \<le> snapToGrid (t_y t) \<and> snapToGrid (t_y t) \<le> DESIGN_HEIGHT - t_size t"
    using that by (simp add: y)
  show "t_y (move t dir walls tanks) = snapToGrid (t_y t)"
    if r: "t_size t = TANK_SIZE \<and> 0 \<le> t_y t \<and> t_y t \<le> DESIGN_HEIGHT - TANK_SIZE"
  proof -
    from r have "0 \<le> snapToGrid (t_y t) \<and> snapToGrid (t_y t) \<le> DESIGN_HEIGHT - t_size t"
      by (simp add: snapToGrid_in_height)
    then show ?thesis by (simp add: y)
  qed
qed

lemma snapToGrid_1245: "snapToGrid 1245 = 1260"
  by (simp add: snapToGrid_def WALL_SIZE_def round_def)

text \<open>
  A player tank at (100, 100) facing right moves up with nothing in the way: \<open>x\<close> becomes
  108 = 3 * 36, at distance 8 from 100, while 72 is at distance 28. Under a wall at
  (108, 72) the move is blocked and \<open>x\<close> is 108 all the same. A tank at (100, 650) facing
  up moves right: \<open>y\<close> becomes 648 = 18 * 36.
\<close>

theorem snap_on_axis_switch_witness:
  "t_alive (Tank_new 0 100 100 RIGHT True 0) \<and>
   \<not> isVertical (t_direction (Tank_new 0 100 100 RIGHT True 0)) \<and> isVertical UP \<and>
   t_x (move_turn (Tank_new 0 100 100 RIGHT True 0) UP) = 108 \<and>
   t_x (move (Tank_new 0 100 100 RIGHT True 0) UP [] []) = 108 \<and>
   move_blocked (Tank_new 0 100 100 RIGHT True 0) UP [Wall_new 108 72 BRICK] [] \<and>
   t_x (move (Tank_new 0 100 100 RIGHT True 0) UP [Wall_new 108 72 BRICK] []) = 108 \<and>
   \<bar>100 - snapToGrid 100\<bar> \<le> \<bar>100 - of_int 2 * WALL_SIZE\<bar> \<and>
   isVertical (t_direction (Tank_new 0 100 650 UP True 0)) \<and> \<not> isVertical RIGHT \<and>
   t_y (move (Tank_new 0 100 650 UP True 0) RIGHT [] []) = 648 \<and>
   \<not> t_alive ((Tank_new 0 100 100 RIGHT True 0)\<lparr>t_alive := False\<rparr>) \<and>
   move ((Tank_new 0 100 100 RIGHT True 0)\<lparr>t_alive := False\<rparr>) UP [] [] =
     (Tank_new 0 100 100 RIGHT True 0)\<lparr>t_alive := False\<rparr>"
proof -
  let ?t = "Tank_new 0 100 100 RIGHT True 0"
  let ?u = "Tank_new 0 100 650 UP True 0"
  let ?d = "(Tank_new 0 100 100 RIGHT True 0)\<lparr>t_alive := False\<rparr>"
  let ?w = "Wall_new 108 72 BRICK"
  have h: "t_alive ?t" "\<not> isVertical (t_direction ?t)" "isVertical UP"
    "t_size ?t = TANK_SIZE \<and> 0 \<le> t_x ?t \<and> t_x ?t < 1242" "t_x ?t = 100"
    by (simp_all add: Tank_new_def isVertical_def)
  have k: "t_alive ?u" "isVertical (t_direction ?u)" "\<not> isVertical RIGHT"
    "t_size ?u = TANK_SIZE \<and> 0 \<le> t_y ?u \<and> t_y ?u \<le> DESIGN_HEIGHT - TANK_SIZE" "t_y ?u = 650"
    by (simp_all add: Tank_new_def isVertical_def DESIGN_HEIGHT_def TANK_SIZE_def)
  have d: "\<not> t_alive ?d" by simp
  have tx: "t_x (move_turn ?t UP) = 108" "t_y (move_turn ?t UP) = 100"
    by (simp_all add: move_turn_x move_turn_y isVertical_def Tank_new_def snapToGrid_100)
  have tg: "move_target (move_turn ?t UP) UP = (108, 98)"
    by (simp add: move_target_def Let_def tx DESIGN_WIDTH_def DESIGN_HEIGHT_def)
       (simp add: Tank_new_def TANK_SIZE_def TANK_SPEED_def)
  have b: "move_blocked ?t UP [?w] []"
    by (simp add: move_blocked_def tentativeBounds_def tg nextBounds_def rectsOverlap_def
        wall_getBounds_def Wall_new_def TOLERANCE_def WALL_SIZE_def)
       (simp add: Tank_new_def TANK_SIZE_def)
  have y650: "snapToGrid 650 = 648"
    by (simp add: snapToGrid_def WALL_SIZE_def round_def)
  note S = snap_on_axis_switch [of ?t UP 100 "[]" "[]"]
  note B = snap_on_axis_switch [of ?t UP 100 "[?w]" "[]"]
  note U = snap_on_axis_switch [of ?u RIGHT 100 "[]" "[]"]
  note D = snap_on_axis_switch [of ?d UP 100 "[]" "[]"]
  from S h have 1: "t_x (move_turn ?t UP) = snapToGrid (t_x ?t)" by blast
  from S h have 2: "t_x (move ?t UP [] []) = snapToGrid (t_x ?t)" by blast
  from B h have "t_x (move ?t UP [?w] []) =
        (if move_blocked ?t UP [?w] [] then snapToGrid (t_x ?t)
         else max 0 (min (DESIGN_WIDTH - t_size ?t) (snapToGrid (t_x ?t))))" by blast
  with b have 3: "t_x (move ?t UP [?w] []) = snapToGrid (t_x ?t)" by simp
  from S have 4: "\<bar>100 - snapToGrid 100\<bar> \<le> \<bar>100 - of_int 2 * WALL_SIZE\<bar>" by blast
  from U k have 5: "t_y (move ?u RIGHT [] []) = snapToGrid (t_y ?u)" by blast
  from D d have 6: "move ?d UP [] [] = ?d" by blast
  from 1 2 3 have n: "t_x (move_turn ?t UP) = 108" "t_x (move ?t UP [] []) = 108"
    "t_x (move ?t UP [?w] []) = 108"
    by (simp_all add: h(5) snapToGrid_100)
  from 5 have m: "t_y (move ?u RIGHT [] []) = 648" by (simp add: k(5) y650)
  from h(1-3) k(2,3) d n b 4 m 6 show ?thesis by blast
qed

text \<open>
  C8 as it is written fails for a tank close to the right edge and for a dead tank. An
  alive tank at \<open>x = 1245\<close> facing right moves up with nothing in the way: the nearest
  multiple of 36 is 1260, and the committed move clamps \<open>x\<close> to 1248, which is no
  multiple of 36. A dead tank at \<open>x = 100\<close> keeps \<open>x = 100\<close>, while the nearest multiple
  is 108.
\<close>

theorem snap_clamped_counterexample:
  "t_alive (Tank_new 0 1245 100 RIGHT True 0) \<and>
   \<not> isVertical (t_direction (Tank_new 0 1245 100 RIGHT True 0)) \<and> isVertical UP \<and>
   snapToGrid 1245 = 1260 \<and>
   t_x (move (Tank_new 0 1245 100 RIGHT True 0) UP [] []) = 1248 \<and>
   t_x (move (Tank_new 0 1245 100 RIGHT True 0) UP [] []) \<noteq> snapToGrid 1245 \<and>
   \<not> isVertical (t_direction ((Tank_new 0 100 100 RIGHT True 0)\<lparr>t_alive := False\<rparr>)) \<and>
   snapToGrid 100 = 108 \<and>
   t_x (move ((Tank_new 0 100 100 RIGHT True 0)\<lparr>t_alive := False\<rparr>) UP [] []) = 100"
proof -
  let ?t = "Tank_new 0 1245 100 RIGHT True 0"
  let ?d = "(Tank_new 0 100 100 RIGHT True 0)\<lparr>t_alive := False\<rparr>"
  have a: "t_alive ?t" "\<not> isVertical (t_direction ?t)" "isVertical UP"
    "\<not> isVertical (t_direction ?d)"
    by (simp_all add: Tank_new_def isVertical_def)
  have tx: "t_x (move_turn ?t UP) = 1260" "t_y (move_turn ?t UP) = 100"
    by (simp_all add: move_turn_x move_turn_y isVertical_def Tank_new_def snapToGrid_1245)
  have tg: "move_target (move_turn ?t UP) UP = (1248, 98)"
    by (simp add: move_target_def Let_def tx DESIGN_WIDTH_def DESIGN_HEIGHT_def)
       (simp add: Tank_new_def TANK_SIZE_def TANK_SPEED_def)
  have f: "\<not> move_blocked ?t UP [] []" by (simp add: move_blocked_def)
  from move_when_free [OF a(1) f] have x: "t_x (move ?t UP [] []) = 1248" by (simp add: tg)
  have dx: "t_x (move ?d UP [] []) = 100" by (simp add: move_def Tank_new_def)
  from a x dx show ?thesis by (simp add: snapToGrid_1245 snapToGrid_100)
qed

section \<open>Spawning at an occupied spawn point\<close>

lemma spawnPoint_lastEnemySpawnTime [simp]:
  "spawnPoint (g\<lparr>g_lastEnemySpawnTime := t\<rparr>) = spawnPoint g"
  by (simp add: spawnPoint_def)

lemma spawnBlocked_lastEnemySpawnTime [simp]:
  "spawnBlocked (g\<lparr>g_lastEnemySpawnTime := t\<rparr>) = spawnBlocked g"
  by (simp add: spawnBlocked_def)

lemma spawnEnemies_blocked:
  "spawnGates now g \<Longrightarrow> spawnBlocked g \<Longrightarrow>
   spawnEnemies now rs g = (g\<lparr>g_lastEnemySpawnTime := now\<rparr>, rs)"
  by (simp add: spawnEnemies_def spawnGates_def Let_def)

lemma spawnEnemies_free:
  "spawnGates now g \<Longrightarrow> \<not> spawnBlocked g \<Longrightarrow>
   spawnEnemies now rs g =
     (g\<lparr> g_lastEnemySpawnTime := now,
          g_enemies := g_enemies g @
            [(Tank_new (g_nextRef g) (fst (spawnPoint g)) (snd (spawnPoint g)) DOWN False (shd rs))
               \<lparr>t_aiDirectionTimer := now\<rparr>],
          g_totalEnemiesSpawned := g_totalEnemiesSpawned g + 1,
          g_nextRef := g_nextRef g + 1 \<rparr>, stl rs)"
  by (simp add: spawnEnemies_def spawnGates_def Let_def)

lemma spawnEnemies_blocked_frame:
  "spawnBlocked g \<Longrightarrow>
   g_enemies (fst (spawnEnemies now rs g)) = g_enemies g \<and>
   g_totalEnemiesSpawned (fst (spawnEnemies now rs g)) = g_totalEnemiesSpawned g"
  by (simp add: spawnEnemies_def Let_def)

lemma spawnEnemies_cooling:
  "now - g_lastEnemySpawnTime g < ENEMY_SPAWN_INTERVAL \<Longrightarrow> spawnEnemies now rs g = (g, rs)"
  by (simp add: spawnEnemies_def)

text \<open>
  C4, as the code has it. When the three gates pass and the targeted spawn point overlaps
  an alive tank, \<open>_spawnEnemies\<close> only stamps \<open>lastEnemySpawnTime\<close>: no enemy is added, no
  random number is drawn, \<open>totalEnemiesSpawned\<close> and with it the targeted spawn point are
  unchanged. The stamp is written before the occupancy test, so the skipped attempt starts
  the spawn interval anew: as long as less than \<open>ENEMY_SPAWN_INTERVAL\<close> has elapsed since
  the stamp, \<open>_spawnEnemies\<close> does nothing, whether the spawn point is free or not. No
  other state is kept: the gates of the state the skip leaves pass again exactly when the
  fixed interval has elapsed, and a call whose gates pass at a free spawn point adds the
  enemy there. Whatever the gates say, no call adds an enemy at an occupied spawn point.
\<close>

theorem spawn_skipped_when_blocked:
  "(spawnGates now g \<and> spawnBlocked g \<longrightarrow>
      spawnEnemies now rs g = (g\<lparr>g_lastEnemySpawnTime := now\<rparr>, rs) \<and>
      g_enemies (fst (spawnEnemies now rs g)) = g_enemies g \<and>
      g_totalEnemiesSpawned (fst (spawnEnemies now rs g)) = g_totalEnemiesSpawned g \<and>
      spawnPoint (fst (spawnEnemies now rs g)) = spawnPoint g \<and>
      g_lastEnemySpawnTime (fst (spawnEnemies now rs g)) = now \<and>
      (spawnGates now2 (fst (spawnEnemies now rs g)) \<longleftrightarrow>
         \<not> now2 - now < ENEMY_SPAWN_INTERVAL)) \<and>
   (spawnBlocked g \<longrightarrow>
      g_enemies (fst (spawnEnemies now rs g)) = g_enemies g \<and>
      g_totalEnemiesSpawned (fst (spawnEnemies now rs g)) = g_totalEnemiesSpawned g) \<and>
   (now3 - g_lastEnemySpawnTime g3 < ENEMY_SPAWN_INTERVAL \<longrightarrow>
      spawnEnemies now3 rs3 g3 = (g3, rs3)) \<and>
   (spawnGates now2 g2 \<and> \<not> spawnBlocked g2 \<longrightarrow>
      g_enemies (fst (spawnEnemies now2 rs2 g2)) =
        g_enemies g2 @
          [(Tank_new (g_nextRef g2) (fst (spawnPoint g2)) (snd (spawnPoint g2)) DOWN False
              (shd rs2))\<lparr>t_aiDirectionTimer := now2\<rparr>] \<and>
      g_totalEnemiesSpawned (fst (spawnEnemies now2 rs2 g2)) = g_totalEnemiesSpawned g2 + 1)"
proof (intro conjI impI)
  assume h: "spawnGates now g \<and> spawnBlocked g"
  then show e: "spawnEnemies now rs g = (g\<lparr>g_lastEnemySpawnTime := now\<rparr>, rs)"
    by (simp add: spawnEnemies_blocked)
  show "g_enemies (fst (spawnEnemies now rs g)) = g_enemies g" by (simp add: e)
  show "g_totalEnemiesSpawned (fst (spawnEnemies now rs g)) = g_totalEnemiesSpawned g"
    by (simp add: e)
  show "spawnPoint (fst (spawnEnemies now rs g)) = spawnPoint g" by (simp add: e)
  show "g_lastEnemySpawnTime (fst (spawnEnemies now rs g)) = now" by (simp add: e)
  show "spawnGates now2 (fst (spawnEnemies now rs g)) \<longleftrightarrow> \<not> now2 - now < ENEMY_SPAWN_INTERVAL"
    using h by (simp add: e spawnGates_def)
next
  assume b: "spawnBlocked g"
  from spawnEnemies_blocked_frame [OF b, of now rs]
  show "g_enemies (fst (spawnEnemies now rs g)) = g_enemies g"
    and "g_totalEnemiesSpawned (fst (spawnEnemies now rs g)) = g_totalEnemiesSpawned g"
    by simp_all
next
  assume "now3 - g_lastEnemySpawnTime g3 < ENEMY_SPAWN_INTERVAL"
  then show "spawnEnemies now3 rs3 g3 = (g3, rs3)" by (rule spawnEnemies_cooling)
next
  assume h: "spawnGates now2 g2 \<and> \<not> spawnBlocked g2"
  then have e: "spawnEnemies now2 rs2 g2 =
     (g2\<lparr> g_lastEnemySpawnTime := now2,
          g_enemies := g_enemies g2 @
            [(Tank_new (g_nextRef g2) (fst (spawnPoint g2)) (snd (spawnPoint g2)) DOWN False
                (shd rs2))\<lparr>t_aiDirectionTimer := now2\<rparr>],
          g_totalEnemiesSpawned := g_totalEnemiesSpawned g2 + 1,
          g_nextRef := g_nextRef g2 + 1 \<rparr>, stl rs2)"
    by (simp add: spawnEnemies_free)
  show "g_enemies (fst (spawnEnemies now2 rs2 g2)) =
        g_enemies g2 @
          [(Tank_new (g_nextRef g2) (fst (spawnPoint g2)) (snd (spawnPoint g2)) DOWN False
              (shd rs2))\<lparr>t_aiDirectionTimer := now2\<rparr>]"
    by (simp add: e)
  show "g_totalEnemiesSpawned (fst (spawnEnemies now2 rs2 g2)) = g_totalEnemiesSpawned g2 + 1"
    by (simp add: e)
qed

text \<open>
  Three enemies have been spawned, the last at time 9000, and one of them stands at
  (72, 106), on the first spawn point, which is the next one in round-robin order. At time
  12000 the gates pass and the spawn is skipped. One tick later, at 12016, the enemy has
  moved down to (72, 108) and the spawn point is free, but nothing is spawned; nor at
  14999. At 15000 the gates pass again and the fourth enemy appears.
\<close>

lemma crowdedEngine_spawnPoint: "spawnPoint (crowdedEngine y) = (72, 72)"
  by (simp add: spawnPoint_def crowdedEngine_def getEnemySpawnPoints_def WALL_SIZE_def)

lemma crowdedEngine_gates: "spawnGates 12000 (crowdedEngine y)"
  by (simp add: spawnGates_def crowdedEngine_def GameEngine_new_def ENEMIES_PER_LEVEL_def
      MAX_ENEMIES_def ENEMY_SPAWN_INTERVAL_def)

lemma crowdedEngine_blocked: "spawnBlocked (crowdedEngine 106)"
  by (simp add: spawnBlocked_def crowdedEngine_spawnPoint)
     (simp add: crowdedEngine_def rectsOverlap_def getBounds_def Tank_new_def TANK_SIZE_def)

lemma crowdedEngine_free: "\<not> spawnBlocked ((crowdedEngine 108)\<lparr>g_lastEnemySpawnTime := 12000\<rparr>)"
  by (simp add: spawnBlocked_def crowdedEngine_spawnPoint)
     (simp add: crowdedEngine_def rectsOverlap_def getBounds_def Tank_new_def TANK_SIZE_def)

lemma crowdedEngine_later_gates:
  "spawnGates 15000 ((crowdedEngine 108)\<lparr>g_lastEnemySpawnTime := 12000\<rparr>)"
  by (simp add: spawnGates_def crowdedEngine_def GameEngine_new_def ENEMIES_PER_LEVEL_def
      MAX_ENEMIES_def ENEMY_SPAWN_INTERVAL_def)

lemma crowdedEngine_enemy_moves:
  "move (Tank_new 1 72 106 DOWN False 0) DOWN [] [] = Tank_new 1 72 108 DOWN False 0"
  by (simp add: move_def move_turn_def move_target_def nextBounds_def Let_def isVertical_def
      Tank_new_def ENEMY_SPEED_def TANK_SIZE_def DESIGN_WIDTH_def DESIGN_HEIGHT_def)

theorem spawn_skipped_when_blocked_witness:
  "spawnGates 12000 (crowdedEngine 106) \<and> spawnBlocked (crowdedEngine 106) \<and>
   spawnEnemies 12000 (sconst 0) (crowdedEngine 106)
     = ((crowdedEngine 106)\<lparr>g_lastEnemySpawnTime := 12000\<rparr>, sconst 0) \<and>
   \<not> spawnBlocked ((crowdedEngine 108)\<lparr>g_lastEnemySpawnTime := 12000\<rparr>) \<and>
   spawnEnemies 12016 (sconst 0) ((crowdedEngine 108)\<lparr>g_lastEnemySpawnTime := 12000\<rparr>)
     = ((crowdedEngine 108)\<lparr>g_lastEnemySpawnTime := 12000\<rparr>, sconst 0) \<and>
   \<not> spawnGates 14999 (fst (spawnEnemies 12000 (sconst 0) (crowdedEngine 106))) \<and>
   spawnGates 15000 (fst (spawnEnemies 12000 (sconst 0) (crowdedEngine 106))) \<and>
   spawnGates 15000 ((crowdedEngine 108)\<lparr>g_lastEnemySpawnTime := 12000\<rparr>) \<and>
   length (g_enemies (fst (spawnEnemies 15000 (sconst 0)
             ((crowdedEngine 108)\<lparr>g_lastEnemySpawnTime := 12000\<rparr>)))) = 2 \<and>
   g_totalEnemiesSpawned (fst (spawnEnemies 15000 (sconst 0)
             ((crowdedEngine 108)\<lparr>g_lastEnemySpawnTime := 12000\<rparr>))) = 4"
proof -
  let ?g = "crowdedEngine 106"
  let ?g2 = "(crowdedEngine 108)\<lparr>g_lastEnemySpawnTime := 12000\<rparr>"
  let ?rs = "sconst 0 :: real stream"
  have c: "12016 - g_lastEnemySpawnTime ?g2 < ENEMY_SPAWN_INTERVAL"
    by (simp add: ENEMY_SPAWN_INTERVAL_def)
  note T = spawn_skipped_when_blocked
    [where now = 12000 and g = ?g and rs = ?rs and ?now2.0 = 14999 and ?g2.0 = ?g2
       and ?rs2.0 = ?rs and ?now3.0 = 12016 and ?g3.0 = ?g2 and ?rs3.0 = ?rs]
  note T2 = spawn_skipped_when_blocked
    [where now = 12000 and g = ?g and rs = ?rs and ?now2.0 = 15000 and ?g2.0 = ?g2
       and ?rs2.0 = ?rs and ?now3.0 = 12016 and ?g3.0 = ?g2 and ?rs3.0 = ?rs]
  from T crowdedEngine_gates crowdedEngine_blocked
  have 1: "spawnEnemies 12000 ?rs ?g = (?g\<lparr>g_lastEnemySpawnTime := 12000\<rparr>, ?rs)"
    and 2: "spawnGates 14999 (fst (spawnEnemies 12000 ?rs ?g)) \<longleftrightarrow>
              \<not> 14999 - 12000 < ENEMY_SPAWN_INTERVAL"
    by blast+
  from T2 crowdedEngine_gates crowdedEngine_blocked
  have 3: "spawnGates 15000 (fst (spawnEnemies 12000 ?rs ?g)) \<longleftrightarrow>
              \<not> 15000 - 12000 < ENEMY_SPAWN_INTERVAL"
    by blast
  from T c have w: "spawnEnemies 12016 ?rs ?g2 = (?g2, ?rs)" by blast
  from T2 crowdedEngine_later_gates crowdedEngine_free
  have 4: "g_enemies (fst (spawnEnemies 15000 ?rs ?g2)) =
        g_enemies ?g2 @
          [(Tank_new (g_nextRef ?g2) (fst (spawnPoint ?g2)) (snd (spawnPoint ?g2)) DOWN False
              (shd ?rs))\<lparr>t_aiDirectionTimer := 15000\<rparr>]"
    and 5: "g_totalEnemiesSpawned (fst (spawnEnemies 15000 ?rs ?g2)) = g_totalEnemiesSpawned ?g2 + 1"
    by blast+
  from 2 have n2: "\<not> spawnGates 14999 (fst (spawnEnemies 12000 ?rs ?g))"
    by (simp add: ENEMY_SPAWN_INTERVAL_def)
  from 3 have n3: "spawnGates 15000 (fst (spawnEnemies 12000 ?rs ?g))"
    by (simp add: ENEMY_SPAWN_INTERVAL_def)
  from 4 have n4: "length (g_enemies (fst (spawnEnemies 15000 ?rs ?g2))) = 2"
    by (simp add: crowdedEngine_def)
  from 5 have n5: "g_totalEnemiesSpawned (fst (spawnEnemies 15000 ?rs ?g2)) = 4"
    by (simp add: crowdedEngine_def)
  from crowdedEngine_gates crowdedEngine_blocked 1 crowdedEngine_free w n2 n3
    crowdedEngine_later_gates n4 n5
  show ?thesis by blast
qed

text \<open>
  C4 as it is written fails in its last part. The last spawn was at time 9000. At 12000
  the quota, the cap and the interval since the last spawn all pass, the spawn point is
  occupied by the enemy at (72, 106), and the spawn is skipped. At the next tick, 12016,
  that enemy has moved one step down and the spawn point is free; the quota and the cap
  pass and 3016 ms have elapsed since the last spawn, yet \<open>_spawnEnemies\<close> does not try
  again: it returns at the interval test, because the skipped attempt has set
  \<open>lastEnemySpawnTime\<close> to 12000.
\<close>

theorem spawn_retry_waits_counterexample:
  "g_lastEnemySpawnTime (crowdedEngine 106) = 9000 \<and>
   spawnGates 12000 (crowdedEngine 106) \<and> spawnBlocked (crowdedEngine 106) \<and>
   fst (spawnEnemies 12000 (sconst 0) (crowdedEngine 106)) =
     (crowdedEngine 106)\<lparr>g_lastEnemySpawnTime := 12000\<rparr> \<and>
   (crowdedEngine 106)\<lparr>g_lastEnemySpawnTime := 12000,
       g_enemies := [move (Tank_new 1 72 106 DOWN False 0) DOWN [] []]\<rparr> =
     (crowdedEngine 108)\<lparr>g_lastEnemySpawnTime := 12000\<rparr> \<and>
   g_totalEnemiesSpawned ((crowdedEngine 108)\<lparr>g_lastEnemySpawnTime := 12000\<rparr>)
     < ENEMIES_PER_LEVEL \<and>
   length (g_enemies ((crowdedEngine 108)\<lparr>g_lastEnemySpawnTime := 12000\<rparr>)) < MAX_ENEMIES \<and>
   length (filter t_alive (g_enemies ((crowdedEngine 108)\<lparr>g_lastEnemySpawnTime := 12000\<rparr>)))
     < MAX_ENEMIES \<and>
   \<not> 12016 - 9000 < ENEMY_SPAWN_INTERVAL \<and>
   \<not> spawnBlocked ((crowdedEngine 108)\<lparr>g_lastEnemySpawnTime := 12000\<rparr>) \<and>
   spawnEnemies 12016 (sconst 0) ((crowdedEngine 108)\<lparr>g_lastEnemySpawnTime := 12000\<rparr>) =
     ((crowdedEngine 108)\<lparr>g_lastEnemySpawnTime := 12000\<rparr>, sconst 0) \<and>
   g_enemies (fst (spawnEnemies 12016 (sconst 0)
       ((crowdedEngine 108)\<lparr>g_lastEnemySpawnTime := 12000\<rparr>))) =
     [Tank_new 1 72 108 DOWN False 0]"
proof -
  let ?g = "crowdedEngine 106"
  let ?g2 = "(crowdedEngine 108)\<lparr>g_lastEnemySpawnTime := 12000\<rparr>"
  let ?rs = "sconst 0 :: real stream"
  have 1: "g_lastEnemySpawnTime ?g = 9000" by (simp add: crowdedEngine_def)
  have 2: "fst (spawnEnemies 12000 ?rs ?g) = ?g\<lparr>g_lastEnemySpawnTime := 12000\<rparr>"
    using crowdedEngine_gates crowdedEngine_blocked by (simp add: spawnEnemies_blocked)
  have 3: "?g\<lparr>g_lastEnemySpawnTime := 12000,
       g_enemies := [move (Tank_new 1 72 106 DOWN False 0) DOWN [] []]\<rparr> = ?g2"
    unfolding crowdedEngine_enemy_moves by (simp add: crowdedEngine_def)
  have 4: "g_totalEnemiesSpawned ?g2 < ENEMIES_PER_LEVEL" "length (g_enemies ?g2) < MAX_ENEMIES"
    "length (filter t_alive (g_enemies ?g2)) < MAX_ENEMIES"
    "\<not> 12016 - 9000 < ENEMY_SPAWN_INTERVAL"
    by (simp_all add: crowdedEngine_def ENEMIES_PER_LEVEL_def MAX_ENEMIES_def
        ENEMY_SPAWN_INTERVAL_def)
  have "12016 - g_lastEnemySpawnTime ?g2 < ENEMY_SPAWN_INTERVAL"
    by (simp add: ENEMY_SPAWN_INTERVAL_def)
  then have 5: "spawnEnemies 12016 ?rs ?g2 = (?g2, ?rs)" by (rule spawnEnemies_cooling)
  have 6: "g_enemies (fst (spawnEnemies 12016 ?rs ?g2)) = [Tank_new 1 72 108 DOWN False 0]"
    unfolding 5 by (simp add: crowdedEngine_def)
  from 1 crowdedEngine_gates crowdedEngine_blocked 2 3 4 crowdedEngine_free 5 6
  show ?thesis by blast
qed

section \<open>Enemy bullets and the invincible player\<close>

lemma firstIndex_None_iff: "firstIndex P xs = None \<longleftrightarrow> \<not> list_ex P xs"
  by (induction xs) auto

lemma bulletVsWalls_frame:
  "g_player (snd (bulletVsWalls b g)) = g_player g \<and>
   g_lives (snd (bulletVsWalls b g)) = g_lives g \<and>
   g_state (snd (bulletVsWalls b g)) = g_state g"
  by (simp add: bulletVsWalls_def addExplosion_def Let_def split: option.splits)

lemma bulletVsEnemies_frame:
  "g_player (snd (bulletVsEnemies b g)) = g_player g \<and>
   g_lives (snd (bulletVsEnemies b g)) = g_lives g \<and>
   g_state (snd (bulletVsEnemies b g)) = g_state g"
  by (simp add: bulletVsEnemies_def addExplosion_def Let_def split: option.splits)

lemma bulletVsPlayer_invincible:
  "g_player g = Some p \<Longrightarrow> isInvincible p now \<Longrightarrow> bulletVsPlayer now b g = (b, g)"
  by (simp add: bulletVsPlayer_def Let_def)

lemma checkBullet_invincible_frame:
  assumes "g_player g = Some p" "isInvincible p now"
  shows "g_player (snd (checkBullet now b g)) = Some p \<and>
         g_lives (snd (checkBullet now b g)) = g_lives g \<and>
         g_state (snd (checkBullet now b g)) = g_state g"
proof -
  obtain b1 g1 where w: "bulletVsWalls b g = (b1, g1)" by (cases "bulletVsWalls b g")
  obtain b2 g2 where e: "bulletVsEnemies b1 g1 = (b2, g2)" by (cases "bulletVsEnemies b1 g1")
  from bulletVsWalls_frame [of b g] w assms(1)
  have f1: "g_player g1 = Some p" "g_lives g1 = g_lives g" "g_state g1 = g_state g" by simp_all
  from bulletVsEnemies_frame [of b1 g1] e f1
  have f2: "g_player g2 = Some p" "g_lives g2 = g_lives g" "g_state g2 = g_state g" by simp_all
  show ?thesis
    using f1 f2 assms(1)
    by (simp add: checkBullet_def w e bulletVsPlayer_invincible [OF _ assms(2)])
qed

lemma checkBullets_invincible_frame:
  "g_player g = Some p \<Longrightarrow> isInvincible p now \<Longrightarrow>
   g_player (snd (checkBullets now bs g)) = Some p \<and>
   g_lives (snd (checkBullets now bs g)) = g_lives g \<and>
   g_state (snd (checkBullets now bs g)) = g_state g"
proof (induction bs arbitrary: g)
  case Nil
  then show ?case by simp
next
  case (Cons b bs)
  obtain b1 g1 where c: "checkBullet now b g = (b1, g1)" by (cases "checkBullet now b g")
  from checkBullet_invincible_frame [OF Cons.prems, of b] c
  have f: "g_player g1 = Some p" "g_lives g1 = g_lives g" "g_state g1 = g_state g" by simp_all
  obtain bs1 g2 where r: "checkBullets now bs g1 = (bs1, g2)"
    by (cases "checkBullets now bs g1")
  from Cons.IH [OF f(1) Cons.prems(2)] f r show ?case
    by (simp add: c)
qed

lemma checkBullet_passes_through:
  assumes "g_player g = Some p" "isInvincible p now" "b_alive b" "\<not> b_isPlayerBullet b"
    and "\<not> list_ex (\<lambda>w. w_alive w \<and> rectsOverlap (bullet_getBounds b) (wall_getBounds w))
            (g_walls g)"
  shows "checkBullet now b g = (b, g)"
proof -
  from assms(5) have "bulletVsWalls b g = (b, g)"
    by (simp add: bulletVsWalls_def Let_def firstIndex_None_iff [symmetric])
  with assms(1-4) show ?thesis
    by (simp add: checkBullet_def bulletVsPlayer_invincible)
qed

text \<open>
  C3, as the code has it. While the alive player is invincible, the test of an enemy
  bullet against the player is skipped as a whole. An alive enemy bullet that meets no
  alive wall is left alive and unchanged, and the engine with it: no life is lost, the
  player is not touched and no explosion is added. Over the whole collision pass the
  player, the lives and the game state are unchanged.
\<close>

theorem invincible_player_ignores_bullet:
  "g_player g = Some p \<and> t_alive p \<and> isInvincible p now \<longrightarrow>
   (b_alive b \<and> \<not> b_isPlayerBullet b \<and>
    \<not> list_ex (\<lambda>w. w_alive w \<and> rectsOverlap (bullet_getBounds b) (wall_getBounds w))
        (g_walls g) \<longrightarrow>
      checkBullet now b g = (b, g)) \<and>
   g_player (checkCollisions now g) = Some p \<and>
   g_lives (checkCollisions now g) = g_lives g \<and>
   g_state (checkCollisions now g) = g_state g"
proof (intro impI conjI)
  assume h: "g_player g = Some p \<and> t_alive p \<and> isInvincible p now"
  assume k: "b_alive b \<and> \<not> b_isPlayerBullet b \<and>
    \<not> list_ex (\<lambda>w. w_alive w \<and> rectsOverlap (bullet_getBounds b) (wall_getBounds w)) (g_walls g)"
  from h have h1: "g_player g = Some p" and h2: "isInvincible p now" by simp_all
  from k have k1: "b_alive b" and k2: "\<not> b_isPlayerBullet b"
    and k3: "\<not> list_ex (\<lambda>w. w_alive w \<and> rectsOverlap (bullet_getBounds b) (wall_getBounds w))
               (g_walls g)"
    by simp_all
  show "checkBullet now b g = (b, g)"
    by (rule checkBullet_passes_through [OF h1 h2 k1 k2 k3])
next
  assume h: "g_player g = Some p \<and> t_alive p \<and> isInvincible p now"
  then have h1: "g_player g = Some p" and h2: "isInvincible p now" by simp_all
  have f: "g_player (snd (checkBullets now (g_bullets g) g)) = Some p \<and>
         g_lives (snd (checkBullets now (g_bullets g) g)) = g_lives g \<and>
         g_state (snd (checkBullets now (g_bullets g) g)) = g_state g"
    by (rule checkBullets_invincible_frame [OF h1 h2])
  from f show "g_player (checkCollisions now g) = Some p"
    by (simp add: checkCollisions_def split_beta)
  from f show "g_lives (checkCollisions now g) = g_lives g"
    by (simp add: checkCollisions_def split_beta)
  from f show "g_state (checkCollisions now g) = g_state g"
    by (simp add: checkCollisions_def split_beta)
qed

text \<open>
  The player at its spawn point is invincible until 2000; at 1000 an enemy bullet lies
  inside its box and there are no walls.
\<close>

lemma shielded_overlap:
  "rectsOverlap (bullet_getBounds (Bullet_new 620 620 DOWN False COLOR_BULLET_ENEMY))
     (getBounds ((Tank_new 0 612 612 UP True 0)\<lparr>t_invincibleUntil := 2000\<rparr>))"
  by (simp add: rectsOverlap_def bullet_getBounds_def getBounds_def Bullet_new_def Tank_new_def
      BULLET_SIZE_def TANK_SIZE_def)

theorem invincible_player_ignores_bullet_witness:
  "g_player shieldedEngine = Some ((Tank_new 0 612 612 UP True 0)\<lparr>t_invincibleUntil := 2000\<rparr>) \<and>
   isInvincible ((Tank_new 0 612 612 UP True 0)\<lparr>t_invincibleUntil := 2000\<rparr>) 1000 \<and>
   rectsOverlap (bullet_getBounds (Bullet_new 620 620 DOWN False COLOR_BULLET_ENEMY))
     (getBounds ((Tank_new 0 612 612 UP True 0)\<lparr>t_invincibleUntil := 2000\<rparr>)) \<and>
   checkBullet 1000 (Bullet_new 620 620 DOWN False COLOR_BULLET_ENEMY) shieldedEngine
     = (Bullet_new 620 620 DOWN False COLOR_BULLET_ENEMY, shieldedEngine) \<and>
   g_lives (checkCollisions 1000 shieldedEngine) = 3"
proof -
  let ?p = "(Tank_new 0 612 612 UP True 0)\<lparr>t_invincibleUntil := 2000\<rparr>"
  let ?b = "Bullet_new 620 620 DOWN False COLOR_BULLET_ENEMY"
  have h: "g_player shieldedEngine = Some ?p" "t_alive ?p" "isInvincible ?p 1000"
    by (simp_all add: shieldedEngine_def isInvincible_def Tank_new_def)
  have b: "b_alive ?b" "\<not> b_isPlayerBullet ?b"
    "\<not> list_ex (\<lambda>w. w_alive w \<and> rectsOverlap (bullet_getBounds ?b) (wall_getBounds w))
        (g_walls shieldedEngine)"
    by (simp_all add: Bullet_new_def shieldedEngine_def GameEngine_new_def)
  note T = invincible_player_ignores_bullet [of shieldedEngine ?p 1000 ?b]
  from T h b have 1: "checkBullet 1000 ?b shieldedEngine = (?b, shieldedEngine)" by blast
  from T h have "g_lives (checkCollisions 1000 shieldedEngine) = g_lives shieldedEngine" by blast
  then have 2: "g_lives (checkCollisions 1000 shieldedEngine) = 3"
    by (simp add: shieldedEngine_def GameEngine_new_def PLAYER_MAX_LIVES_def)
  from h shielded_overlap 1 2 show ?thesis by blast
qed

text \<open>
  C3 as it is written fails: in the situation above the bullet is still in the list and
  still alive after the collision pass.
\<close>

theorem invincible_bullet_survives_counterexample:
  "isInvincible ((Tank_new 0 612 612 UP True 0)\<lparr>t_invincibleUntil := 2000\<rparr>) 1000 \<and>
   rectsOverlap (bullet_getBounds (Bullet_new 620 620 DOWN False COLOR_BULLET_ENEMY))
     (getBounds ((Tank_new 0 612 612 UP True 0)\<lparr>t_invincibleUntil := 2000\<rparr>)) \<and>
   g_bullets shieldedEngine = [Bullet_new 620 620 DOWN False COLOR_BULLET_ENEMY] \<and>
   g_bullets (checkCollisions 1000 shieldedEngine)
     = [Bullet_new 620 620 DOWN False COLOR_BULLET_ENEMY] \<and>
   b_alive (Bullet_new 620 620 DOWN False COLOR_BULLET_ENEMY)"
proof -
  let ?p = "(Tank_new 0 612 612 UP True 0)\<lparr>t_invincibleUntil := 2000\<rparr>"
  let ?b = "Bullet_new 620 620 DOWN False COLOR_BULLET_ENEMY"
  have i: "isInvincible ?p 1000" by (simp add: isInvincible_def)
  have p: "g_player shieldedEngine = Some ?p" by (simp add: shieldedEngine_def)
  have a: "b_alive ?b" "\<not> b_isPlayerBullet ?b" by (simp_all add: Bullet_new_def)
  have w: "\<not> list_ex (\<lambda>w. w_alive w \<and> rectsOverlap (bullet_getBounds ?b) (wall_getBounds w))
        (g_walls shieldedEngine)"
    by (simp add: shieldedEngine_def GameEngine_new_def)
  have c: "checkBullet 1000 ?b shieldedEngine = (?b, shieldedEngine)"
    by (rule checkBullet_passes_through [OF p i a w])
  have bs: "g_bullets shieldedEngine = [?b]" by (simp add: shieldedEngine_def)
  have "g_bullets (checkCollisions 1000 shieldedEngine) = [?b]"
    by (simp add: checkCollisions_def bs c)
  with i shielded_overlap bs a show ?thesis by blast
qed

section \<open>Explosions fade in double arithmetic\<close>

lemma binade_unfold:
  "0 < n \<Longrightarrow> binade n y =
     (if 2 \<le> y then binade (n - 1) (y / 2) + 1
      else if y < 1 then binade (n - 1) (y * 2) - 1
      else 0)"
  by (cases n) simp_all

lemma roundToDouble_003: "roundToDouble 0.03 = 1080863910568919 / 36028797018963968"
  by (simp add: roundToDouble_def binade_unfold pow2_def roundEven_def Let_def)

lemma alpha_tick1:
  "roundToDouble (1 - roundToDouble 0.03) = 4368491638549381 / 4503599627370496"
  unfolding roundToDouble_003
  by (simp add: roundToDouble_def binade_unfold pow2_def roundEven_def Let_def)

lemma alpha_tick2:
  "roundToDouble (4368491638549381 / 4503599627370496 - roundToDouble 0.03) =
     2116691824864133 / 2251799813685248"
  unfolding roundToDouble_003
  by (simp add: roundToDouble_def binade_unfold pow2_def roundEven_def Let_def)

lemma alpha_tick3:
  "roundToDouble (2116691824864133 / 2251799813685248 - roundToDouble 0.03) =
     4098275660907151 / 4503599627370496"
  unfolding roundToDouble_003
  by (simp add: roundToDouble_def binade_unfold pow2_def roundEven_def Let_def)

lemma radius_ticks:
  "roundToDouble (2 + 1.5) = 7 / 2" "roundToDouble (7 / 2 + 1.5) = 5"
  "roundToDouble (5 + 1.5) = 13 / 2"
  by (simp_all add: roundToDouble_def binade_unfold pow2_def roundEven_def Let_def)

text \<open>
  After three ticks the radius of an explosion is 6.5 and its alpha is the double that
  prints as \<open>0.9099999999999999\<close>, just below 91/100.
\<close>

lemma explosion_three_ticks:
  "map (\<lambda>e. (e_radius e, e_alpha e))
     (g_explosions (updateExplosions (updateExplosions (updateExplosions
        (addExplosion x y r c GameEngine_new))))) =
     [(13 / 2, 4098275660907151 / 4503599627370496)] \<and>
   (4098275660907151 / 4503599627370496 :: real) < 91 / 100 \<and>
   (91 / 100 - 4098275660907151 / 4503599627370496 :: real) < 1 / 10 ^ 15"
proof -
  have "map (\<lambda>e. (e_radius e, e_alpha e))
     (g_explosions (updateExplosions (updateExplosions (updateExplosions
        (addExplosion x y r c GameEngine_new))))) =
      [(roundToDouble (roundToDouble (roundToDouble (2 + 1.5) + 1.5) + 1.5),
        roundToDouble (roundToDouble (roundToDouble (1 - roundToDouble 0.03)
         - roundToDouble 0.03) - roundToDouble 0.03))]"
    by (simp add: updateExplosions_def addExplosion_def GameEngine_new_def)
  also have "\<dots> = [(13 / 2, 4098275660907151 / 4503599627370496)]"
    by (simp only: alpha_tick1 alpha_tick2 alpha_tick3 radius_ticks)
  finally show ?thesis by simp
qed

section \<open>Values of the sine\<close>

text \<open>
  The sine is enclosed by its Taylor polynomial of degree 17 and the Lagrange remainder.
  The polynomial is evaluated in Horner form with the intermediate results rounded
  outwards. This gives \<open>pi\<close> to 13 decimals and, after reduction by a multiple of
  \<open>2 * pi\<close>, the two values of \<open>pseudoRandom\<close> that place the first extra wall of level 5.
\<close>

lemma sum_upto_18:
  "(\<Sum>m<18. f m) = f 0 + f 1 + f 2 + f 3 + f 4 + f 5 + f 6 + f 7 + f 8 + f 9 + f 10 + f 11
     + f 12 + f 13 + f 14 + f 15 + f 16 + (f 17 :: real)" for f :: "nat \<Rightarrow> real"
  by (simp add: eval_nat_numeral)

lemma sin_coeff_values:
  "sin_coeff (Suc 0) = 1" "sin_coeff 3 = - 1 / 6" "sin_coeff 5 = 1 / 120" "sin_coeff 7 = - 1 / 5040"
  "sin_coeff 9 = 1 / 362880" "sin_coeff 11 = - 1 / 39916800" "sin_coeff 13 = 1 / 6227020800"
  "sin_coeff 15 = - 1 / 1307674368000" "sin_coeff 17 = 1 / 355687428096000"
  "sin_coeff 2 = 0" "sin_coeff 4 = 0" "sin_coeff 6 = 0" "sin_coeff 8 = 0" "sin_coeff 10 = 0"
  "sin_coeff 12 = 0" "sin_coeff 14 = 0" "sin_coeff 16 = 0"
  by (simp_all add: sin_coeff_def fact_numeral)

lemma sin_poly_18: "(\<Sum>m<18. sin_coeff m * x ^ m) = sinP x"
  unfolding sum_upto_18 sinP_def hstep_def
  by (simp add: sin_coeff_values power_numeral_reduce field_simps)

lemma sin_near_sinP: "\<bar>sin x - sinP x\<bar> \<le> \<bar>x\<bar> ^ 18 / 6402373705728000"
  using Maclaurin_sin_bound [of x 18] unfolding sin_poly_18
  by (simp add: fact_numeral inverse_eq_divide)

lemma hstep_lower:
  assumes "yl \<le> y" "y \<le> yu" "l \<le> h" "h \<le> u" "0 \<le> yl" "0 \<le> l" "0 < c"
    and "l' \<le> 1 - yu * u / c"
  shows "l' \<le> hstep c y h"
proof -
  have "y * h \<le> yu * u" using assms by (intro mult_mono) simp_all
  then have "y * h / c \<le> yu * u / c" using assms(7) by (simp add: divide_right_mono)
  with assms(8) show ?thesis by (simp add: hstep_def)
qed

lemma hstep_upper:
  assumes "yl \<le> y" "y \<le> yu" "l \<le> h" "h \<le> u" "0 \<le> yl" "0 \<le> l" "0 < c"
    and "1 - yl * l / c \<le> u'"
  shows "hstep c y h \<le> u'"
proof -
  have "yl * l \<le> y * h" using assms by (intro mult_mono) simp_all
  then have "yl * l / c \<le> y * h / c" using assms(7) by (simp add: divide_right_mono)
  with assms(8) show ?thesis by (simp add: hstep_def)
qed

lemma sin_pi6_lo:
  "6249999999999831777 / 12500000000000000000 \<le> sin (31415926535897 / 60000000000000 :: real) \<and> sin (31415926535897 / 60000000000000 :: real) \<le> 49999999999998654221 / 100000000000000000000"
proof -
  define x :: real where "x = 31415926535897 / 60000000000000"
  define y where "y = x * x"
  have y: "27415567780802146623 / 100000000000000000000 \<le> y" "y \<le> 428368246575033541 / 1562500000000000000" by (simp_all add: y_def x_def)
  have h9: "1 \<le> (1::real)" "(1::real) \<le> 1" by simp_all
  define h8 where "h8 = hstep 272 y 1"
  have h8: "19979841494278821951 / 20000000000000000000 \<le> h8" "h8 \<le> 24974801867848527439 / 25000000000000000000"
  proof -
    show "19979841494278821951 / 20000000000000000000 \<le> h8" unfolding h8_def by (rule hstep_lower [OF y h9]) simp_all
    show "h8 \<le> 24974801867848527439 / 25000000000000000000" unfolding h8_def by (rule hstep_upper [OF y h9]) simp_all
  qed
  define h7 where "h7 = hstep 210 y h8"
  have h7: "99869581262205694217 / 100000000000000000000 \<le> h7" "h7 \<le> 49934790631102847109 / 50000000000000000000"
  proof -
    show "99869581262205694217 / 100000000000000000000 \<le> h7" unfolding h7_def by (rule hstep_lower [OF y h8]) simp_all
    show "h7 \<le> 49934790631102847109 / 50000000000000000000" unfolding h7_def by (rule hstep_upper [OF y h8]) simp_all
  qed
  define h6 where "h6 = hstep 156 y h7"
  have h6: "12478061047481295447 / 12500000000000000000 \<le> h6" "h6 \<le> 99824488379850363577 / 100000000000000000000"
  proof -
    show "12478061047481295447 / 12500000000000000000 \<le> h6" unfolding h6_def by (rule hstep_lower [OF y h7]) simp_all
    show "h6 \<le> 99824488379850363577 / 100000000000000000000" unfolding h6_def by (rule hstep_upper [OF y h7]) simp_all
  qed
  define h5 where "h5 = hstep 110 y h6"
  have h5: "9975120499751257419 / 10000000000000000000 \<le> h5" "h5 \<le> 99751204997512574191 / 100000000000000000000"
  proof -
    show "9975120499751257419 / 10000000000000000000 \<le> h5" unfolding h5_def by (rule hstep_lower [OF y h6]) simp_all
    show "h5 \<le> 99751204997512574191 / 100000000000000000000" unfolding h5_def by (rule hstep_upper [OF y h6]) simp_all
  qed
  define h4 where "h4 = hstep 72 y h5"
  have h4: "49810087783206528069 / 50000000000000000000 \<le> h4" "h4 \<le> 99620175566413056139 / 100000000000000000000"
  proof -
    show "49810087783206528069 / 50000000000000000000 \<le> h4" unfolding h4_def by (rule hstep_lower [OF y h5]) simp_all
    show "h4 \<le> 99620175566413056139 / 100000000000000000000" unfolding h4_def by (rule hstep_upper [OF y h5]) simp_all
  qed
  define h3 where "h3 = hstep 42 y h4"
  have h3: "49674863848145665831 / 50000000000000000000 \<le> h3" "h3 \<le> 99349727696291331663 / 100000000000000000000"
  proof -
    show "49674863848145665831 / 50000000000000000000 \<le> h3" unfolding h3_def by (rule hstep_lower [OF y h4]) simp_all
    show "h3 \<le> 99349727696291331663 / 100000000000000000000" unfolding h3_def by (rule hstep_upper [OF y h4]) simp_all
  qed
  define h2 where "h2 = hstep 20 y h3"
  have h2: "49319067701584522173 / 50000000000000000000 \<le> h2" "h2 \<le> 98638135403169044347 / 100000000000000000000"
  proof -
    show "49319067701584522173 / 50000000000000000000 \<le> h2" unfolding h2_def by (rule hstep_lower [OF y h3]) simp_all
    show "h2 \<le> 98638135403169044347 / 100000000000000000000" unfolding h2_def by (rule hstep_upper [OF y h3]) simp_all
  qed
  define h1 where "h1 = hstep 6 y h2"
  have h1: "95492965855137465317 / 100000000000000000000 \<le> h1" "h1 \<le> 47746482927568732659 / 50000000000000000000"
  proof -
    show "95492965855137465317 / 100000000000000000000 \<le> h1" unfolding h1_def by (rule hstep_lower [OF y h2]) simp_all
    show "h1 \<le> 47746482927568732659 / 50000000000000000000" unfolding h1_def by (rule hstep_upper [OF y h2]) simp_all
  qed
  have p: "sinP x = x * h1"
    by (simp add: sinP_def h1_def h2_def h3_def h4_def h5_def h6_def h7_def h8_def y_def)
  have x0: "0 \<le> x" "\<bar>x\<bar> \<le> 3 / 5" by (simp_all add: x_def)
  have "\<bar>x\<bar> ^ 18 \<le> (3 / 5) ^ 18" by (rule power_mono [OF x0(2)]) simp
  then have r: "\<bar>x\<bar> ^ 18 / 6402373705728000 \<le> 1586285983 / 100000000000000000000000000000" by (simp add: power_divide)
  have "x * (95492965855137465317 / 100000000000000000000) \<le> x * h1" by (rule mult_left_mono [OF h1(1) x0(1)])
  moreover have "x * h1 \<le> x * (47746482927568732659 / 50000000000000000000)" by (rule mult_left_mono [OF h1(2) x0(1)])
  ultimately have "6249999999999831777 / 12500000000000000000 \<le> sinP x - 1586285983 / 100000000000000000000000000000" "sinP x + 1586285983 / 100000000000000000000000000000 \<le> 49999999999998654221 / 100000000000000000000"
    unfolding p by (simp_all add: x_def)
  with r sin_near_sinP [of x] show ?thesis unfolding x_def [symmetric] by linarith
qed

lemma sin_pi6_hi:
  "6250000000000012199 / 12500000000000000000 \<le> sin (5235987755983 / 10000000000000 :: real) \<and> sin (5235987755983 / 10000000000000 :: real) \<le> 50000000000000097597 / 100000000000000000000"
proof -
  define x :: real where "x = 5235987755983 / 10000000000000"
  define y where "y = x * x"
  have y: "1713472986300243247 / 6250000000000000000 \<le> y" "y \<le> 27415567780803891953 / 100000000000000000000" by (simp_all add: y_def x_def)
  have h9: "1 \<le> (1::real)" "(1::real) \<le> 1" by simp_all
  define h8 where "h8 = hstep 272 y 1"
  have h8: "49949603735697051669 / 50000000000000000000 \<le> h8" "h8 \<le> 99899207471394103339 / 100000000000000000000"
  proof -
    show "49949603735697051669 / 50000000000000000000 \<le> h8" unfolding h8_def by (rule hstep_lower [OF y h9]) simp_all
    show "h8 \<le> 99899207471394103339 / 100000000000000000000" unfolding h8_def by (rule hstep_upper [OF y h9]) simp_all
  qed
  define h7 where "h7 = hstep 210 y h8"
  have h7: "49934790631102842961 / 50000000000000000000 \<le> h7" "h7 \<le> 99869581262205685923 / 100000000000000000000"
  proof -
    show "49934790631102842961 / 50000000000000000000 \<le> h7" unfolding h7_def by (rule hstep_lower [OF y h8]) simp_all
    show "h7 \<le> 99869581262205685923 / 100000000000000000000" unfolding h7_def by (rule hstep_upper [OF y h8]) simp_all
  qed
  define h6 where "h6 = hstep 156 y h7"
  have h6: "99824488379850352417 / 100000000000000000000 \<le> h6" "h6 \<le> 49912244189925176209 / 50000000000000000000"
  proof -
    show "99824488379850352417 / 100000000000000000000 \<le> h6" unfolding h6_def by (rule hstep_lower [OF y h7]) simp_all
    show "h6 \<le> 49912244189925176209 / 50000000000000000000" unfolding h6_def by (rule hstep_upper [OF y h7]) simp_all
  qed
  define h5 where "h5 = hstep 110 y h6"
  have h5: "99751204997512558379 / 100000000000000000000 \<le> h5" "h5 \<le> 4987560249875627919 / 5000000000000000000"
  proof -
    show "99751204997512558379 / 100000000000000000000 \<le> h5" unfolding h5_def by (rule hstep_lower [OF y h6]) simp_all
    show "h5 \<le> 4987560249875627919 / 5000000000000000000" unfolding h5_def by (rule hstep_upper [OF y h6]) simp_all
  qed
  define h4 where "h4 = hstep 72 y h5"
  have h4: "49810087783206516009 / 50000000000000000000 \<le> h4" "h4 \<le> 99620175566413032019 / 100000000000000000000"
  proof -
    show "49810087783206516009 / 50000000000000000000 \<le> h4" unfolding h4_def by (rule hstep_lower [OF y h5]) simp_all
    show "h4 \<le> 99620175566413032019 / 100000000000000000000" unfolding h4_def by (rule hstep_upper [OF y h5]) simp_all
  qed
  define h3 where "h3 = hstep 42 y h4"
  have h3: "99349727696291290421 / 100000000000000000000 \<le> h3" "h3 \<le> 49674863848145645211 / 50000000000000000000"
  proof -
    show "99349727696291290421 / 100000000000000000000 \<le> h3" unfolding h3_def by (rule hstep_lower [OF y h4]) simp_all
    show "h3 \<le> 49674863848145645211 / 50000000000000000000" unfolding h3_def by (rule hstep_upper [OF y h4]) simp_all
  qed
  define h2 where "h2 = hstep 20 y h3"
  have h2: "98638135403168958213 / 100000000000000000000 \<le> h2" "h2 \<le> 49319067701584479107 / 50000000000000000000"
  proof -
    show "98638135403168958213 / 100000000000000000000 \<le> h2" unfolding h2_def by (rule hstep_lower [OF y h3]) simp_all
    show "h2 \<le> 49319067701584479107 / 50000000000000000000" unfolding h2_def by (rule hstep_upper [OF y h3]) simp_all
  qed
  define h1 where "h1 = hstep 6 y h2"
  have h1: "47746482927568591163 / 50000000000000000000 \<le> h1" "h1 \<le> 95492965855137182327 / 100000000000000000000"
  proof -
    show "47746482927568591163 / 50000000000000000000 \<le> h1" unfolding h1_def by (rule hstep_lower [OF y h2]) simp_all
    show "h1 \<le> 95492965855137182327 / 100000000000000000000" unfolding h1_def by (rule hstep_upper [OF y h2]) simp_all
  qed
  have p: "sinP x = x * h1"
    by (simp add: sinP_def h1_def h2_def h3_def h4_def h5_def h6_def h7_def h8_def y_def)
  have x0: "0 \<le> x" "\<bar>x\<bar> \<le> 3 / 5" by (simp_all add: x_def)
  have "\<bar>x\<bar> ^ 18 \<le> (3 / 5) ^ 18" by (rule power_mono [OF x0(2)]) simp
  then have r: "\<bar>x\<bar> ^ 18 / 6402373705728000 \<le> 1586285983 / 100000000000000000000000000000" by (simp add: power_divide)
  have "x * (47746482927568591163 / 50000000000000000000) \<le> x * h1" by (rule mult_left_mono [OF h1(1) x0(1)])
  moreover have "x * h1 \<le> x * (95492965855137182327 / 100000000000000000000)" by (rule mult_left_mono [OF h1(2) x0(1)])
  ultimately have "6250000000000012199 / 12500000000000000000 \<le> sinP x - 1586285983 / 100000000000000000000000000000" "sinP x + 1586285983 / 100000000000000000000000000000 \<le> 50000000000000097597 / 100000000000000000000"
    unfolding p by (simp_all add: x_def)
  with r sin_near_sinP [of x] show ?thesis unfolding x_def [symmetric] by linarith
qed

lemma sin_r1:
  "747491538561 / 1000000000000 \<le> sin (22973149 / 10000000 :: real) \<and> sin (22973149 / 10000000 :: real) \<le> 373745770373 / 500000000000"
proof -
  define x :: real where "x = 22973149 / 10000000"
  define y where "y = x * x"
  have y: "2638827874881 / 500000000000 \<le> y" "y \<le> 5277655749763 / 1000000000000" by (simp_all add: y_def x_def)
  have h9: "1 \<le> (1::real)" "(1::real) \<le> 1" by simp_all
  define h8 where "h8 = hstep 272 y 1"
  have h8: "980596853861 / 1000000000000 \<le> h8" "h8 \<le> 490298426931 / 500000000000"
  proof -
    show "980596853861 / 1000000000000 \<le> h8" unfolding h8_def by (rule hstep_lower [OF y h9]) simp_all
    show "h8 \<le> 490298426931 / 500000000000" unfolding h8_def by (rule hstep_upper [OF y h9]) simp_all
  qed
  define h7 where "h7 = hstep 210 y h8"
  have h7: "195071187977 / 200000000000 \<le> h7" "h7 \<le> 487677969943 / 500000000000"
  proof -
    show "195071187977 / 200000000000 \<le> h7" unfolding h7_def by (rule hstep_lower [OF y h8]) simp_all
    show "h7 \<le> 487677969943 / 500000000000" unfolding h7_def by (rule hstep_upper [OF y h8]) simp_all
  qed
  define h6 where "h6 = hstep 156 y h7"
  have h6: "241750652429 / 250000000000 \<le> h6" "h6 \<le> 967002609717 / 1000000000000"
  proof -
    show "241750652429 / 250000000000 \<le> h6" unfolding h6_def by (rule hstep_lower [OF y h7]) simp_all
    show "h6 \<le> 967002609717 / 1000000000000" unfolding h6_def by (rule hstep_upper [OF y h7]) simp_all
  qed
  define h5 where "h5 = hstep 110 y h6"
  have h5: "953604482879 / 1000000000000 \<le> h5" "h5 \<le> 2980014009 / 3125000000"
  proof -
    show "953604482879 / 1000000000000 \<le> h5" unfolding h5_def by (rule hstep_lower [OF y h6]) simp_all
    show "h5 \<le> 2980014009 / 3125000000" unfolding h5_def by (rule hstep_upper [OF y h6]) simp_all
  qed
  define h4 where "h4 = hstep 72 y h5"
  have h4: "465050026513 / 500000000000 \<le> h4" "h4 \<le> 930100053027 / 1000000000000"
  proof -
    show "465050026513 / 500000000000 \<le> h4" unfolding h4_def by (rule hstep_lower [OF y h5]) simp_all
    show "h4 \<le> 930100053027 / 1000000000000" unfolding h4_def by (rule hstep_upper [OF y h5]) simp_all
  qed
  define h3 where "h3 = hstep 42 y h4"
  have h3: "883125050173 / 1000000000000 \<le> h3" "h3 \<le> 441562525087 / 500000000000"
  proof -
    show "883125050173 / 1000000000000 \<le> h3" unfolding h3_def by (rule hstep_lower [OF y h4]) simp_all
    show "h3 \<le> 441562525087 / 500000000000" unfolding h3_def by (rule hstep_upper [OF y h4]) simp_all
  qed
  define h2 where "h2 = hstep 20 y h3"
  have h2: "766958500059 / 1000000000000 \<le> h2" "h2 \<le> 38347925003 / 50000000000"
  proof -
    show "766958500059 / 1000000000000 \<le> h2" unfolding h2_def by (rule hstep_lower [OF y h3]) simp_all
    show "h2 \<le> 38347925003 / 50000000000" unfolding h2_def by (rule hstep_upper [OF y h3]) simp_all
  qed
  define h1 where "h1 = hstep 6 y h2"
  have h1: "162688088527 / 500000000000 \<le> h1" "h1 \<le> 10168005533 / 31250000000"
  proof -
    show "162688088527 / 500000000000 \<le> h1" unfolding h1_def by (rule hstep_lower [OF y h2]) simp_all
    show "h1 \<le> 10168005533 / 31250000000" unfolding h1_def by (rule hstep_upper [OF y h2]) simp_all
  qed
  have p: "sinP x = x * h1"
    by (simp add: sinP_def h1_def h2_def h3_def h4_def h5_def h6_def h7_def h8_def y_def)
  have x0: "0 \<le> x" "\<bar>x\<bar> \<le> 12 / 5" by (simp_all add: x_def)
  have "\<bar>x\<bar> ^ 18 \<le> (12 / 5) ^ 18" by (rule power_mono [OF x0(2)]) simp
  then have r: "\<bar>x\<bar> ^ 18 / 6402373705728000 \<le> 545043713501162904323 / 500000000000000000000000000000" by (simp add: power_divide)
  have "x * (162688088527 / 500000000000) \<le> x * h1" by (rule mult_left_mono [OF h1(1) x0(1)])
  moreover have "x * h1 \<le> x * (10168005533 / 31250000000)" by (rule mult_left_mono [OF h1(2) x0(1)])
  ultimately have "747491538561 / 1000000000000 \<le> sinP x - 545043713501162904323 / 500000000000000000000000000000" "sinP x + 545043713501162904323 / 500000000000000000000000000000 \<le> 373745770373 / 500000000000"
    unfolding p by (simp_all add: x_def)
  with r sin_near_sinP [of x] show ?thesis unfolding x_def [symmetric] by linarith
qed

lemma sin_r2:
  "184226533911 / 250000000000 \<le> sin (115655527 / 50000000 :: real) \<and> sin (115655527 / 50000000 :: real) \<le> 736906137829 / 1000000000000"
proof -
  define x :: real where "x = 115655527 / 50000000"
  define y where "y = x * x"
  have y: "5350480370259 / 1000000000000 \<le> y" "y \<le> 267524018513 / 50000000000" by (simp_all add: y_def x_def)
  have h9: "1 \<le> (1::real)" "(1::real) \<le> 1" by simp_all
  define h8 where "h8 = hstep 272 y 1"
  have h8: "196065823257 / 200000000000 \<le> h8" "h8 \<le> 490164558143 / 500000000000"
  proof -
    show "196065823257 / 200000000000 \<le> h8" unfolding h8_def by (rule hstep_lower [OF y h9]) simp_all
    show "h8 \<le> 490164558143 / 500000000000" unfolding h8_def by (rule hstep_upper [OF y h9]) simp_all
  qed
  define h7 where "h7 = hstep 210 y h8"
  have h7: "975022706223 / 1000000000000 \<le> h7" "h7 \<le> 60938919139 / 62500000000"
  proof -
    show "975022706223 / 1000000000000 \<le> h7" unfolding h7_def by (rule hstep_lower [OF y h8]) simp_all
    show "h7 \<le> 60938919139 / 62500000000" unfolding h7_def by (rule hstep_upper [OF y h8]) simp_all
  qed
  define h6 where "h6 = hstep 156 y h7"
  have h6: "241639679727 / 250000000000 \<le> h6" "h6 \<le> 966558718909 / 1000000000000"
  proof -
    show "241639679727 / 250000000000 \<le> h6" unfolding h6_def by (rule hstep_lower [OF y h7]) simp_all
    show "h6 \<le> 966558718909 / 1000000000000" unfolding h6_def by (rule hstep_upper [OF y h7]) simp_all
  qed
  define h5 where "h5 = hstep 110 y h6"
  have h5: "952985877707 / 1000000000000 \<le> h5" "h5 \<le> 238246469427 / 250000000000"
  proof -
    show "952985877707 / 1000000000000 \<le> h5" unfolding h5_def by (rule hstep_lower [OF y h6]) simp_all
    show "h5 \<le> 238246469427 / 250000000000" unfolding h5_def by (rule hstep_upper [OF y h6]) simp_all
  qed
  define h4 where "h4 = hstep 72 y h5"
  have h4: "46459074839 / 50000000000 \<le> h4" "h4 \<le> 929181496781 / 1000000000000"
  proof -
    show "46459074839 / 50000000000 \<le> h4" unfolding h4_def by (rule hstep_lower [OF y h5]) simp_all
    show "h4 \<le> 929181496781 / 1000000000000" unfolding h4_def by (rule hstep_upper [OF y h5]) simp_all
  qed
  define h3 where "h3 = hstep 42 y h4"
  have h3: "220407337149 / 250000000000 \<le> h3" "h3 \<le> 881629348597 / 1000000000000"
  proof -
    show "220407337149 / 250000000000 \<le> h3" unfolding h3_def by (rule hstep_lower [OF y h4]) simp_all
    show "h3 \<le> 881629348597 / 1000000000000" unfolding h3_def by (rule hstep_upper [OF y h4]) simp_all
  qed
  define h2 where "h2 = hstep 20 y h3"
  have h2: "5969866983 / 7812500000 \<le> h2" "h2 \<le> 30565718953 / 40000000000"
  proof -
    show "5969866983 / 7812500000 \<le> h2" unfolding h2_def by (rule hstep_lower [OF y h3]) simp_all
    show "h2 \<le> 30565718953 / 40000000000" unfolding h2_def by (rule hstep_upper [OF y h3]) simp_all
  qed
  define h1 where "h1 = hstep 6 y h2"
  have h1: "318578003079 / 1000000000000 \<le> h1" "h1 \<le> 318578003081 / 1000000000000"
  proof -
    show "318578003079 / 1000000000000 \<le> h1" unfolding h1_def by (rule hstep_lower [OF y h2]) simp_all
    show "h1 \<le> 318578003081 / 1000000000000" unfolding h1_def by (rule hstep_upper [OF y h2]) simp_all
  qed
  have p: "sinP x = x * h1"
    by (simp add: sinP_def h1_def h2_def h3_def h4_def h5_def h6_def h7_def h8_def y_def)
  have x0: "0 \<le> x" "\<bar>x\<bar> \<le> 12 / 5" by (simp_all add: x_def)
  have "\<bar>x\<bar> ^ 18 \<le> (12 / 5) ^ 18" by (rule power_mono [OF x0(2)]) simp
  then have r: "\<bar>x\<bar> ^ 18 / 6402373705728000 \<le> 545043713501162904323 / 500000000000000000000000000000" by (simp add: power_divide)
  have "x * (318578003079 / 1000000000000) \<le> x * h1" by (rule mult_left_mono [OF h1(1) x0(1)])
  moreover have "x * h1 \<le> x * (318578003081 / 1000000000000)" by (rule mult_left_mono [OF h1(2) x0(1)])
  ultimately have "184226533911 / 250000000000 \<le> sinP x - 545043713501162904323 / 500000000000000000000000000000" "sinP x + 545043713501162904323 / 500000000000000000000000000000 \<le> 736906137829 / 1000000000000"
    unfolding p by (simp_all add: x_def)
  with r sin_near_sinP [of x] show ?thesis unfolding x_def [symmetric] by linarith
qed



lemma pi_lower: "31415926535897 / 10000000000000 < pi"
proof (rule ccontr)
  let ?a = "31415926535897 / 60000000000000 :: real"
  assume "\<not> 31415926535897 / 10000000000000 < pi"
  then have le: "pi / 6 \<le> ?a" by simp
  have "?a \<le> pi / 2" using pi_ge_two by simp
  with le have "sin (pi / 6) \<le> sin ?a"
    by (intro sin_monotone_2pi_le) simp_all
  with sin_pi6_lo show False by (simp add: sin_30)
qed

lemma pi_upper: "pi < 31415926535898 / 10000000000000"
proof (rule ccontr)
  let ?b = "5235987755983 / 10000000000000 :: real"
  assume "\<not> pi < 31415926535898 / 10000000000000"
  then have le: "?b \<le> pi / 6" by simp
  have "- (pi / 2) \<le> ?b" using pi_ge_zero by (simp add: order_trans [of _ 0])
  with le have "sin ?b \<le> sin (pi / 6)"
    by (intro sin_monotone_2pi_le) simp_all
  with sin_pi6_hi show False by (simp add: sin_30)
qed

lemma sin_lipschitz: "\<bar>sin x - sin y\<bar> \<le> \<bar>x - y\<bar>" for x y :: real
proof -
  have "\<bar>sin x - sin y\<bar> = 2 * \<bar>sin ((x - y) / 2)\<bar> * \<bar>cos ((x + y) / 2)\<bar>"
    by (simp add: sin_diff_sin abs_mult)
  also have "\<dots> \<le> 2 * \<bar>(x - y) / 2\<bar> * 1"
    by (intro mult_mono abs_sin_x_le_abs_x) simp_all
  finally show ?thesis by simp
qed

lemma sin_shift: "sin (x - 2 * pi * of_int k) = sin x" for x :: real
proof -
  have "sin (2 * pi * of_int k) = 0" "cos (2 * pi * of_int k) = 1"
    by (simp_all only: sin_int_2pin cos_int_2pin)
  then show ?thesis by (simp only: sin_diff mult_1_right mult_zero_right diff_zero)
qed

lemma sin_374832:
  "174374 \<le> sin (374832 :: real) * 233280 \<and> sin (374832 :: real) * 233280 < 174375"
proof -
  let ?r = "374832 - 2 * pi * of_int 59656 :: real"
  let ?c = "22973149 / 10000000 :: real"
  have "\<bar>?r - ?c\<bar> \<le> 1 / 100000000" using pi_lower pi_upper by linarith
  with sin_lipschitz [of ?r ?c] have "\<bar>sin ?r - sin ?c\<bar> \<le> 1 / 100000000" by linarith
  then have "\<bar>sin 374832 - sin ?c\<bar> \<le> 1 / 100000000" by (simp only: sin_shift)
  with sin_r1 show ?thesis by linarith
qed

lemma sin_560852:
  "171905 \<le> sin (560852 :: real) * 233280 \<and> sin (560852 :: real) * 233280 < 171906"
proof -
  let ?r = "560852 - 2 * pi * of_int 89262 :: real"
  let ?c = "115655527 / 50000000 :: real"
  have "\<bar>?r - ?c\<bar> \<le> 2 / 100000000" using pi_lower pi_upper by linarith
  with sin_lipschitz [of ?r ?c] have "\<bar>sin ?r - sin ?c\<bar> \<le> 2 / 100000000" by linarith
  then have "\<bar>sin 560852 - sin ?c\<bar> \<le> 2 / 100000000" by (simp only: sin_shift)
  with sin_r2 show ?thesis by linarith
qed

lemma pseudoRandom_35: "pseudoRandom 35 = 174374"
proof -
  have "\<lfloor>sin (374832 :: real) * 233280\<rfloor> = 174374"
    using sin_374832 by (intro floor_unique) simp_all
  then show ?thesis by (simp add: pseudoRandom_def)
qed

lemma pseudoRandom_55: "pseudoRandom 55 = 171905"
proof -
  have "\<lfloor>sin (560852 :: real) * 233280\<rfloor> = 171905"
    using sin_560852 by (intro floor_unique) simp_all
  then show ?thesis by (simp add: pseudoRandom_def)
qed


section \<open>The map generator\<close>

lemma COLS_35: "COLS = 35"
  by (simp add: COLS_def DESIGN_WIDTH_def WALL_SIZE_def)

lemma ROWS_20: "ROWS = 20"
  by (simp add: ROWS_def DESIGN_HEIGHT_def WALL_SIZE_def)

lemma length_extraWalls:
  "length (concat (map (extraWall level) xs)) =
   length (filter (\<lambda>i. \<not> isReserved (fst (extraCell level i)) (snd (extraCell level i))) xs)"
  by (induction xs) (simp_all add: extraWall_def Let_def)

lemma extraWalls_steel:
  "list_all (\<lambda>w. w_type w = STEEL) (concat (map (extraWall level) xs))"
  by (induction xs) (simp_all add: extraWall_def Let_def wallAt_def Wall_new_def)

lemma extraCell_5_0: "extraCell 5 0 = (32, 3)"
  by (simp add: extraCell_def pseudoRandom_35 pseudoRandom_55 innerStartC_def innerEndC_def
      innerStartR_def innerEndR_def COLS_35 ROWS_20)

lemma isReserved_32_3: "isReserved 32 3"
  by (simp add: isReserved_def enemySpawnPositions_def COLS_35)

lemma extraWall_5_0: "extraWall 5 0 = []"
  by (simp add: extraWall_def extraCell_5_0 isReserved_32_3)

lemma extraSteelWalls_5: "length (extraSteelWalls 5) \<le> 4"
proof -
  have "[0..<5] = 0 # [1..<5]" by (simp add: upt_conv_Cons)
  then have "extraSteelWalls 5 = concat (map (extraWall 5) [1..<5])"
    by (simp add: extraSteelWalls_def extraWall_5_0)
  then have "length (extraSteelWalls 5) =
      length (filter (\<lambda>i. \<not> isReserved (fst (extraCell 5 i)) (snd (extraCell 5 i))) [1..<5])"
    by (simp add: length_extraWalls)
  also have "\<dots> \<le> length [1..<5::nat]" by (rule length_filter_le)
  finally show ?thesis by simp
qed

text \<open>
  C5, as the code has it. The third step of \<open>generateMap\<close> makes \<open>min level 5\<close> attempts
  and adds one steel wall for every attempt whose cell is not reserved. The number of extra
  steel walls is the number of those attempts, at most \<open>min level 5\<close>; they are the walls
  of the map after the border and the structural grid.
\<close>

theorem extra_steel_count:
  "generateMap level = borderWalls @ structuralWalls level @ extraSteelWalls level \<and>
   length (extraSteelWalls level) =
     length (filter (\<lambda>i. \<not> isReserved (fst (extraCell level i)) (snd (extraCell level i)))
               [0..<min level 5]) \<and>
   length (extraSteelWalls level) \<le> min level 5 \<and>
   list_all (\<lambda>w. w_type w = STEEL) (extraSteelWalls level)"
proof (intro conjI)
  show "generateMap level = borderWalls @ structuralWalls level @ extraSteelWalls level"
    by (simp add: generateMap_def)
  show l: "length (extraSteelWalls level) =
     length (filter (\<lambda>i. \<not> isReserved (fst (extraCell level i)) (snd (extraCell level i)))
               [0..<min level 5])"
    by (simp add: extraSteelWalls_def length_extraWalls)
  have "length (filter (\<lambda>i. \<not> isReserved (fst (extraCell level i)) (snd (extraCell level i)))
               [0..<min level 5]) \<le> length [0..<min level 5]"
    by (rule length_filter_le)
  with l show "length (extraSteelWalls level) \<le> min level 5" by simp
  show "list_all (\<lambda>w. w_type w = STEEL) (extraSteelWalls level)"
    by (simp add: extraSteelWalls_def extraWalls_steel)
qed

text \<open>
  On level 5 the first attempt falls on cell (32, 3), inside the zone reserved around the
  enemy spawn cell (32, 2): at most four of the five attempts add a wall.
\<close>

theorem extra_steel_count_witness:
  "isReserved (fst (extraCell 5 0)) (snd (extraCell 5 0)) \<and>
   length (extraSteelWalls 5) \<le> 4 \<and>
   list_all (\<lambda>w. w_type w = STEEL) (extraSteelWalls 5)"
proof -
  have r: "isReserved (fst (extraCell 5 0)) (snd (extraCell 5 0))"
    by (simp add: extraCell_5_0 isReserved_32_3)
  have "[0..<min 5 5] = 0 # [1..<5::nat]" by (simp add: upt_conv_Cons)
  with extra_steel_count [of 5] r
  have "length (extraSteelWalls 5) =
     length (filter (\<lambda>i. \<not> isReserved (fst (extraCell 5 i)) (snd (extraCell 5 i))) [1..<5])"
    by simp
  also have "\<dots> \<le> length [1..<5::nat]" by (rule length_filter_le)
  finally have "length (extraSteelWalls 5) \<le> 4" by simp
  with extra_steel_count [of 5] r show ?thesis by blast
qed

text \<open>
  C5 as it is written fails on level 5: there are fewer than \<open>min 5 5 = 5\<close> extra steel
  walls.
\<close>

theorem extra_steel_level5_counterexample:
  "length (extraSteelWalls 5) \<noteq> min 5 5"
  using extraSteelWalls_5 by simp

section \<open>Determinism of the map generator\<close>

lemma push_Wall_simps [simp]:
  "fst (push_Wall w s) = fst s @ [p_fresh (snd s)]"
  "p_fresh (snd (push_Wall w s)) = p_fresh (snd s) + 1"
  "p_clock (snd (push_Wall w s)) = p_clock (snd s)"
  "p_random (snd (push_Wall w s)) = p_random (snd s)"
  "p_walls (snd (push_Wall w s)) = (p_walls (snd s))(p_fresh (snd s) \<mapsto> w)"
  by (simp_all add: push_Wall_def Let_def)

lemma fold_push_concat_at:
  "fold (\<lambda>x. fold push_Wall (f x)) xs s = fold push_Wall (concat (map f xs)) s"
  by (induction xs arbitrary: s) simp_all

lemma fold_push_concat:
  "fold (\<lambda>x. fold push_Wall (f x)) xs = fold push_Wall (concat (map f xs))"
  by (rule ext) (rule fold_push_concat_at)

lemma border_run_pushes: "border_run = fold push_Wall borderWalls"
proof -
  have a: "(\<lambda>c s. push_Wall (wallAt c (ROWS - 1) STEEL) (push_Wall (wallAt c 0 STEEL) s)) =
      (\<lambda>c. fold push_Wall [wallAt c 0 STEEL, wallAt c (ROWS - 1) STEEL])"
    by (simp add: fun_eq_iff)
  have b: "(\<lambda>r s. push_Wall (wallAt (COLS - 1) r STEEL) (push_Wall (wallAt 0 r STEEL) s)) =
      (\<lambda>r. fold push_Wall [wallAt 0 r STEEL, wallAt (COLS - 1) r STEEL])"
    by (simp add: fun_eq_iff)
  show ?thesis
    unfolding border_run_def Let_def a b fold_push_concat borderWalls_def
    by (simp add: fun_eq_iff)
qed

lemma cell_run_pushes: "cell_run level c r = fold push_Wall (cellWalls level c r)"
  by (simp add: fun_eq_iff cell_run_def cellWalls_def Let_def)

lemma structural_run_pushes: "structural_run level = fold push_Wall (structuralWalls level)"
  unfolding structural_run_def cell_run_pushes fold_push_concat structuralWalls_def
  by (simp add: fun_eq_iff)

lemma extra_run_pushes: "extra_run level = fold push_Wall (extraSteelWalls level)"
proof -
  have a: "(\<lambda>i s.
       if \<not> isReserved
             (innerStartC + pseudoRandom (i * 31 + level * 7) mod (innerEndC - innerStartC))
             (innerStartR + pseudoRandom (i * 37 + level * 11) mod (innerEndR - innerStartR))
       then push_Wall
              (wallAt
                 (innerStartC + pseudoRandom (i * 31 + level * 7) mod (innerEndC - innerStartC))
                 (innerStartR + pseudoRandom (i * 37 + level * 11) mod (innerEndR - innerStartR))
                 STEEL) s
       else s) =
      (\<lambda>i. fold push_Wall (extraWall level i))"
    by (simp add: fun_eq_iff extraWall_def extraCell_def Let_def)
  have "extra_run level s = fold push_Wall (extraSteelWalls level) s" for s
    by (simp only: extra_run_def Let_def a fold_push_concat extraSteelWalls_def)
  then show ?thesis by (rule ext)
qed

text \<open>The program pushes the walls of \<open>generateMap level\<close>, one fresh object each.\<close>

lemma generateMap_run_pushes:
  "generateMap_run level p = fold push_Wall (generateMap level) ([], p)"
  by (simp add: generateMap_run_def border_run_pushes structural_run_pushes extra_run_pushes
      generateMap_def)

lemma fold_push_fresh:
  "p_fresh (snd (fold push_Wall ws s)) = p_fresh (snd s) + length ws"
  by (induction ws arbitrary: s) simp_all

lemma fold_push_clock: "p_clock (snd (fold push_Wall ws s)) = p_clock (snd s)"
  by (induction ws arbitrary: s) simp_all

lemma fold_push_random: "p_random (snd (fold push_Wall ws s)) = p_random (snd s)"
  by (induction ws arbitrary: s) simp_all

lemma upt_push: "[n] @ [Suc n..<Suc n + k] = [n..<n + Suc k]"
  by (simp add: upt_conv_Cons del: upt_Suc)

lemma fold_push_refs:
  "fst (fold push_Wall ws s) = fst s @ [p_fresh (snd s)..<p_fresh (snd s) + length ws]"
proof (induction ws arbitrary: s)
  case Nil
  show ?case by simp
next
  case (Cons w ws)
  have "fst (fold push_Wall (w # ws) s) = fst (fold push_Wall ws (push_Wall w s))" by simp
  also have "\<dots> = (fst s @ [p_fresh (snd s)]) @
      [Suc (p_fresh (snd s))..<Suc (p_fresh (snd s)) + length ws]"
    unfolding Cons.IH by simp
  also have "\<dots> = fst s @ ([p_fresh (snd s)] @
      [Suc (p_fresh (snd s))..<Suc (p_fresh (snd s)) + length ws])"
    by simp
  also have "\<dots> = fst s @ [p_fresh (snd s)..<p_fresh (snd s) + Suc (length ws)]"
    by (simp only: upt_push)
  finally show ?case by simp
qed

lemma fold_push_walls:
  "p_walls (snd (fold push_Wall ws s)) a =
     (if p_fresh (snd s) \<le> a \<and> a < p_fresh (snd s) + length ws
      then Some (ws ! (a - p_fresh (snd s))) else p_walls (snd s) a)"
proof (induction ws arbitrary: s)
  case Nil
  show ?case by auto
next
  case (Cons w ws)
  show ?case by (auto simp: Cons.IH nth_Cons')
qed

lemma readWalls_fold_push: "readWalls (fold push_Wall ws ([], p)) = map Some ws"
proof (rule nth_equalityI)
  show "length (readWalls (fold push_Wall ws ([], p))) = length (map Some ws)"
    by (simp add: readWalls_def fold_push_refs)
next
  fix i
  assume "i < length (readWalls (fold push_Wall ws ([], p)))"
  then have i: "i < length ws" by (simp add: readWalls_def fold_push_refs)
  then show "readWalls (fold push_Wall ws ([], p)) ! i = map Some ws ! i"
    by (simp add: readWalls_def fold_push_refs fold_push_walls)
qed

text \<open>
  C6. \<open>generateMap\<close> reads neither the clock nor \<open>Math.random\<close> nor any object that exists
  before the call, and it writes only the objects it allocates. Run in any state \<open>p\<close> of
  the process, the references it returns lead to the walls of \<open>generateMap level\<close>, one
  fresh object for each, and the clock and the random numbers to come are as before. So
  two calls with the same level yield the same number of walls, with the same coordinates
  and types in the same order and all other fields equal too, whatever the two states
  \<open>p\<close> and \<open>q\<close> of the process are; in particular when the second call runs in the state
  that the first one left and that the game has changed since by \<open>change\<close>, for instance
  by destroying walls of the first list. The list that \<open>startGame\<close> installs is that list,
  whatever the engine state, the clock values and the random number are.
\<close>

theorem generateMap_deterministic:
  "readWalls (generateMap_run level p) = map Some (generateMap level) \<and>
   readWalls (generateMap_run level q) = readWalls (generateMap_run level p) \<and>
   readWalls (generateMap_run level (change (snd (generateMap_run level p)))) =
     readWalls (generateMap_run level p) \<and>
   length (fst (generateMap_run level q)) = length (fst (generateMap_run level p)) \<and>
   map (map_option (\<lambda>w. (w_x w, w_y w, w_type w))) (readWalls (generateMap_run level q)) =
     map (map_option (\<lambda>w. (w_x w, w_y w, w_type w))) (readWalls (generateMap_run level p)) \<and>
   fst (generateMap_run level p) = [p_fresh p..<p_fresh p + length (generateMap level)] \<and>
   p_clock (snd (generateMap_run level p)) = p_clock p \<and>
   p_random (snd (generateMap_run level p)) = p_random p \<and>
   g_walls (startGame t1 t2 rnd level g) = generateMap level \<and>
   g_walls (startGame t3 t4 rnd2 level g2) = g_walls (startGame t1 t2 rnd level g)"
proof -
  have r: "readWalls (generateMap_run level s) = map Some (generateMap level)" for s
    by (simp add: generateMap_run_pushes readWalls_fold_push)
  have l: "fst (generateMap_run level s) = [p_fresh s..<p_fresh s + length (generateMap level)]"
    for s
    by (simp add: generateMap_run_pushes fold_push_refs)
  have c: "p_clock (snd (generateMap_run level p)) = p_clock p"
    by (simp add: generateMap_run_pushes fold_push_clock)
  have d: "p_random (snd (generateMap_run level p)) = p_random p"
    by (simp add: generateMap_run_pushes fold_push_random)
  have e: "g_walls (startGame t t' x level h) = generateMap level" for t t' x h
    by (simp add: startGame_def Let_def)
  show ?thesis by (simp add: r l c d e)
qed

text \<open>
  Level 1 generated in a fresh process and generated again after the first wall of the
  first map has been destroyed, at a later time and further on in the random numbers: the
  second list is the first one as it was returned, and its first wall is a new object,
  alive, at the place of the destroyed one.
\<close>

theorem generateMap_deterministic_witness:
  "readWalls (generateMap_run 1 laterProcess) = readWalls (generateMap_run 1 freshProcess) \<and>
   hd (readWalls (generateMap_run 1 freshProcess)) = Some (Wall_new 0 0 STEEL) \<and>
   p_walls laterProcess 0 = Some ((Wall_new 0 0 STEEL)\<lparr>w_alive := False\<rparr>) \<and>
   hd (fst (generateMap_run 1 laterProcess)) \<noteq> 0"
proof -
  note T = generateMap_deterministic [of 1 freshProcess laterProcess]
  from T have 1: "readWalls (generateMap_run 1 laterProcess) =
      readWalls (generateMap_run 1 freshProcess)"
    by blast
  from T have 2: "readWalls (generateMap_run 1 freshProcess) = map Some (generateMap 1)"
    by blast
  from T have 5: "fst (generateMap_run 1 freshProcess) =
      [p_fresh freshProcess..<p_fresh freshProcess + length (generateMap 1)]"
    by blast
  have c: "[0..<COLS] = 0 # [1..<COLS]" by (simp add: COLS_35 upt_conv_Cons)
  then have g: "generateMap 1 = Wall_new 0 0 STEEL # tl (generateMap 1)"
    by (simp add: generateMap_def borderWalls_def wallAt_def)
  then have 3: "hd (readWalls (generateMap_run 1 freshProcess)) = Some (Wall_new 0 0 STEEL)"
    unfolding 2 by (metis list.sel(1) list.simps(9))
  from g have n: "0 < length (generateMap 1)" by (metis length_greater_0_conv list.discI)
  have pf: "p_fresh freshProcess = 0" by (simp add: freshProcess_def)
  have "p_walls (snd (generateMap_run 1 freshProcess)) 0 = Some (generateMap 1 ! 0)"
    using n by (simp add: generateMap_run_pushes fold_push_walls pf)
  also have "generateMap 1 ! 0 = Wall_new 0 0 STEEL" by (metis g nth_Cons_0)
  finally have w0: "p_walls (snd (generateMap_run 1 freshProcess)) 0 = Some (Wall_new 0 0 STEEL)" .
  have f: "p_fresh (snd (generateMap_run 1 freshProcess)) = length (generateMap 1)"
    by (simp add: generateMap_run_pushes fold_push_fresh freshProcess_def)
  have 4: "p_walls laterProcess 0 = Some ((Wall_new 0 0 STEEL)\<lparr>w_alive := False\<rparr>)"
    using w0 by (simp add: laterProcess_def destroyWall_def)
  from T have "fst (generateMap_run 1 laterProcess) =
      [p_fresh laterProcess..<p_fresh laterProcess + length (generateMap 1)]"
    by (simp add: generateMap_run_pushes fold_push_refs)
  moreover have "p_fresh laterProcess = length (generateMap 1)"
    using f by (simp add: laterProcess_def destroyWall_def)
  ultimately have 6: "hd (fst (generateMap_run 1 laterProcess)) \<noteq> 0"
    using n by (simp add: upt_conv_Cons)
  from 1 3 4 6 show ?thesis by blast
qed

section \<open>Committed moves do not overlap\<close>

text \<open>
  The tentative box of \<open>move\<close> is the tank's box shrunk by half a unit on every side.
  Every coordinate and size of the game is an integer, and for integer boxes the shrunk
  box overlaps whatever the full box overlaps.
\<close>

lemma Ints_less_add1: "x \<in> \<int> \<Longrightarrow> y \<in> \<int> \<Longrightarrow> x < y \<Longrightarrow> x + 1 \<le> (y::real)"
proof -
  assume "x \<in> \<int>" "y \<in> \<int>" "x < y"
  then obtain a b :: int where ab: "x = of_int a" "y = of_int b" by (auto elim!: Ints_cases)
  with \<open>x < y\<close> have "a + 1 \<le> b" by simp
  then have "real_of_int (a + 1) \<le> real_of_int b" by (simp only: of_int_le_iff)
  with ab show ?thesis by simp
qed

lemma Ints_max: "x \<in> \<int> \<Longrightarrow> y \<in> \<int> \<Longrightarrow> max x y \<in> (\<int> :: real set)"
  by (simp add: max_def)

lemma Ints_min: "x \<in> \<int> \<Longrightarrow> y \<in> \<int> \<Longrightarrow> min x y \<in> (\<int> :: real set)"
  by (simp add: min_def)

lemma snapToGrid_Ints: "snapToGrid v \<in> \<int>"
  by (simp add: snapToGrid_def WALL_SIZE_def)

lemma overlap_shrunk:
  assumes "nx \<in> \<int>" "ny \<in> \<int>" "s \<in> \<int>"
    and "r_x b \<in> \<int>" "r_y b \<in> \<int>" "r_w b \<in> \<int>" "r_h b \<in> \<int>"
    and "rectsOverlap \<lparr> r_x = nx, r_y = ny, r_w = s, r_h = s \<rparr> b"
  shows "rectsOverlap \<lparr> r_x = nx + 1 / 2, r_y = ny + 1 / 2, r_w = s - 1, r_h = s - 1 \<rparr> b"
proof -
  from assms(8) have o: "nx < r_x b + r_w b" "r_x b < nx + s" "ny < r_y b + r_h b" "r_y b < ny + s"
    by (simp_all add: rectsOverlap_def)
  have "nx + 1 \<le> r_x b + r_w b" using assms o(1) by (intro Ints_less_add1) simp_all
  moreover have "r_x b + 1 \<le> nx + s" using assms o(2) by (intro Ints_less_add1) simp_all
  moreover have "ny + 1 \<le> r_y b + r_h b" using assms o(3) by (intro Ints_less_add1) simp_all
  moreover have "r_y b + 1 \<le> ny + s" using assms o(4) by (intro Ints_less_add1) simp_all
  ultimately show ?thesis by (simp add: rectsOverlap_def)
qed

lemma gridTank_move_turn: "gridTank t \<Longrightarrow> gridTank (move_turn t dir)"
  by (simp add: gridTank_def move_turn_x move_turn_y snapToGrid_Ints)

lemma move_target_Ints:
  "gridTank t \<Longrightarrow> fst (move_target t dir) \<in> \<int> \<and> snd (move_target t dir) \<in> \<int>"
  by (cases dir)
     (simp_all add: gridTank_def move_target_def Let_def Ints_max Ints_min DESIGN_WIDTH_def
        DESIGN_HEIGHT_def TANK_SIZE_def)

lemma gridTank_move: "gridTank t \<Longrightarrow> gridTank (move t dir walls tanks)"
proof -
  assume g: "gridTank t"
  then have g1: "gridTank (move_turn t dir)" by (rule gridTank_move_turn)
  from move_target_Ints [OF g1, of dir] g1
  have "gridTank ((move_turn t dir)\<lparr>t_x := fst (move_target (move_turn t dir) dir),
                        t_y := snd (move_target (move_turn t dir) dir)\<rparr>)"
    by (simp add: gridTank_def)
  with g g1 show ?thesis by (simp add: move_def Let_def)
qed

lemma nextBounds_shrunk:
  "nextBounds t p = \<lparr> r_x = fst p + 1 / 2, r_y = snd p + 1 / 2, r_w = t_size t - 1,
                      r_h = t_size t - 1 \<rparr>"
  by (simp add: nextBounds_def TOLERANCE_def)

lemma committed_bounds:
  assumes "t_alive t" "\<not> move_blocked t dir walls tanks"
  shows "getBounds (move t dir walls tanks) =
     \<lparr> r_x = fst (move_target (move_turn t dir) dir), r_y = snd (move_target (move_turn t dir) dir),
       r_w = t_size t, r_h = t_size t \<rparr>"
  by (simp add: move_when_free [OF assms] getBounds_def)

lemma committed_clear:
  assumes g: "gridTank t" and a: "t_alive t" and f: "\<not> move_blocked t dir walls tanks"
    and b: "r_x b \<in> \<int>" "r_y b \<in> \<int>" "r_w b \<in> \<int>" "r_h b \<in> \<int>"
    and n: "\<not> rectsOverlap (tentativeBounds t dir) b"
  shows "\<not> rectsOverlap (getBounds (move t dir walls tanks)) b"
proof
  assume o: "rectsOverlap (getBounds (move t dir walls tanks)) b"
  let ?p = "move_target (move_turn t dir) dir"
  from g have g1: "gridTank (move_turn t dir)" by (rule gridTank_move_turn)
  from move_target_Ints [OF g1, of dir] have i: "fst ?p \<in> \<int>" "snd ?p \<in> \<int>" by simp_all
  from g have s: "t_size t \<in> \<int>" by (simp add: gridTank_def TANK_SIZE_def)
  from o have "rectsOverlap \<lparr> r_x = fst ?p, r_y = snd ?p, r_w = t_size t, r_h = t_size t \<rparr> b"
    by (simp add: committed_bounds [OF a f])
  from overlap_shrunk [OF i s b this]
  have "rectsOverlap (tentativeBounds t dir) b"
    by (simp add: tentativeBounds_def nextBounds_shrunk)
  with n show False by simp
qed

lemma move_sound:
  assumes g: "gridTank t" and a: "t_alive t" and f: "\<not> move_blocked t dir walls tanks"
  shows "w \<in> set walls \<Longrightarrow> gridWall w \<Longrightarrow> w_alive w \<Longrightarrow>
           \<not> rectsOverlap (getBounds (move t dir walls tanks)) (wall_getBounds w)"
    and "u \<in> set tanks \<Longrightarrow> gridTank u \<Longrightarrow> t_ref u \<noteq> t_ref t \<Longrightarrow> t_alive u \<Longrightarrow>
           \<not> rectsOverlap (getBounds (move t dir walls tanks)) (getBounds u)"
proof -
  assume w: "w \<in> set walls" "gridWall w" "w_alive w"
  from f w have "\<not> rectsOverlap (tentativeBounds t dir) (wall_getBounds w)"
    by (auto simp: move_blocked_def)
  moreover from w(2) have "r_x (wall_getBounds w) \<in> \<int>" "r_y (wall_getBounds w) \<in> \<int>"
    "r_w (wall_getBounds w) \<in> \<int>" "r_h (wall_getBounds w) \<in> \<int>"
    by (simp_all add: gridWall_def wall_getBounds_def WALL_SIZE_def)
  ultimately show "\<not> rectsOverlap (getBounds (move t dir walls tanks)) (wall_getBounds w)"
    by (intro committed_clear [OF g a f])
next
  assume u: "u \<in> set tanks" "gridTank u" "t_ref u \<noteq> t_ref t" "t_alive u"
  from f u have "\<not> rectsOverlap (tentativeBounds t dir) (getBounds u)"
    by (auto simp: move_blocked_def)
  moreover from u(2) have "r_x (getBounds u) \<in> \<int>" "r_y (getBounds u) \<in> \<int>"
    "r_w (getBounds u) \<in> \<int>" "r_h (getBounds u) \<in> \<int>"
    by (simp_all add: gridTank_def getBounds_def TANK_SIZE_def)
  ultimately show "\<not> rectsOverlap (getBounds (move t dir walls tanks)) (getBounds u)"
    by (intro committed_clear [OF g a f])
qed


lemma gridTank_fire: "gridTank t \<Longrightarrow> gridTank (snd (fire t now))"
  by (simp add: fire_def gridTank_def Let_def split: prod.splits)

lemma gridTank_Tank_new:
  "x \<in> \<int> \<Longrightarrow> y \<in> \<int> \<Longrightarrow> gridTank (Tank_new ref x y d p rnd)"
  by (simp add: gridTank_def Tank_new_def TANK_SPEED_def ENEMY_SPEED_def)

lemma gridWall_wallAt: "gridWall (wallAt c r ty)"
  by (simp add: gridWall_def wallAt_def Wall_new_def WALL_SIZE_def)

lemma gridWall_borderWalls: "list_all gridWall borderWalls"
  by (auto simp: borderWalls_def list_all_iff gridWall_wallAt)

lemma gridWall_cellWalls: "list_all gridWall (cellWalls level c r)"
  by (simp add: cellWalls_def Let_def gridWall_wallAt)

lemma gridWall_structuralWalls: "list_all gridWall (structuralWalls level)"
  using gridWall_cellWalls by (auto simp: structuralWalls_def list_all_iff)

lemma gridWall_extraSteelWalls: "list_all gridWall (extraSteelWalls level)"
  by (auto simp: extraSteelWalls_def extraWall_def Let_def list_all_iff gridWall_wallAt
      split: if_splits)

lemma gridWall_generateMap: "list_all gridWall (generateMap level)"
  by (simp add: generateMap_def gridWall_borderWalls gridWall_structuralWalls
      gridWall_extraSteelWalls)

lemma getPlayerSpawn_Ints: "fst getPlayerSpawn \<in> \<int> \<and> snd getPlayerSpawn \<in> \<int>"
  by (simp add: getPlayerSpawn_def WALL_SIZE_def)

lemma spawnPoint_Ints: "fst (spawnPoint g) \<in> \<int> \<and> snd (spawnPoint g) \<in> \<int>"
proof -
  have "\<forall>p\<in>set getEnemySpawnPoints. fst p \<in> \<int> \<and> snd p \<in> \<int>"
    by (simp add: getEnemySpawnPoints_def WALL_SIZE_def)
  moreover have "spawnPoint g \<in> set getEnemySpawnPoints"
    unfolding spawnPoint_def Let_def by (rule nth_mem) (simp add: getEnemySpawnPoints_def)
  ultimately show ?thesis by blast
qed

lemma gridEngine_iff:
  "gridEngine g \<longleftrightarrow>
     (\<forall>p. g_player g = Some p \<longrightarrow> gridTank p) \<and> list_all gridTank (g_enemies g) \<and>
     list_all gridWall (g_walls g)"
  by (auto simp: gridEngine_def allTanks_def split: option.splits)

lemma list_all_update: "list_all P xs \<Longrightarrow> P v \<Longrightarrow> list_all P (xs[i := v])"
  by (auto simp: list_all_iff dest: set_update_subset_insert [THEN subsetD])

lemma gridTank_updates [simp]:
  "gridTank (t\<lparr>t_invincibleUntil := a\<rparr>) = gridTank t"
  "gridTank (t\<lparr>t_aiDirectionTimer := a\<rparr>) = gridTank t"
  "gridTank (t\<lparr>t_aiDirectionInterval := a\<rparr>) = gridTank t"
  "gridTank (t\<lparr>t_direction := d\<rparr>) = gridTank t"
  "gridTank (t\<lparr>t_alive := c\<rparr>) = gridTank t"
  "gridTank (t\<lparr>t_lastFireTime := a\<rparr>) = gridTank t"
  by (simp_all add: gridTank_def)

lemma gridWall_updates [simp]: "gridWall (w\<lparr>w_alive := c\<rparr>) = gridWall w"
  by (simp add: gridWall_def)

lemma grid_startGame: "gridEngine (startGame t1 t2 rnd level g)"
  using getPlayerSpawn_Ints
  by (simp add: gridEngine_iff startGame_def Let_def gridWall_generateMap gridTank_Tank_new)

lemma grid_togglePause: "gridEngine g \<Longrightarrow> gridEngine (togglePause g)"
  by (simp add: gridEngine_iff togglePause_def)

lemma handlePlayerInput_frame:
  "g_enemies (handlePlayerInput now g) = g_enemies g \<and>
   g_walls (handlePlayerInput now g) = g_walls g"
  by (simp add: handlePlayerInput_def Let_def split: option.splits prod.splits)

lemma handlePlayerInput_player:
  assumes "g_player g = Some p" "gridTank p"
  shows "\<exists>q. g_player (handlePlayerInput now g) = Some q \<and> gridTank q"
proof -
  define p1 where "p1 =
     (if k_up (g_keys g) then move p UP (g_walls g) (p # g_enemies g)
      else if k_down (g_keys g) then move p DOWN (g_walls g) (p # g_enemies g)
      else if k_left (g_keys g) then move p LEFT (g_walls g) (p # g_enemies g)
      else if k_right (g_keys g) then move p RIGHT (g_walls g) (p # g_enemies g)
      else p)"
  have g1: "gridTank p1" using assms(2) by (simp add: p1_def gridTank_move)
  have g2: "gridTank (snd (fire p1 now))" using g1 by (rule gridTank_fire)
  have "g_player (handlePlayerInput now g) = Some p \<or>
        g_player (handlePlayerInput now g) = Some p1 \<or>
        g_player (handlePlayerInput now g) = Some (snd (fire p1 now))"
    using assms(1)
    by (simp add: handlePlayerInput_def Let_def p1_def [symmetric] split: option.splits prod.splits)
  with assms(2) g1 g2 show ?thesis by blast
qed

lemma grid_handlePlayerInput:
  assumes "gridEngine g"
  shows "gridEngine (handlePlayerInput now g)"
proof (cases "g_player g")
  case None
  with assms show ?thesis by (simp add: handlePlayerInput_def)
next
  case (Some p)
  with assms have "gridTank p" by (simp add: gridEngine_iff)
  from handlePlayerInput_player [OF Some this, of now] assms handlePlayerInput_frame [of now g]
  show ?thesis by (auto simp: gridEngine_iff)
qed


lemma enemyMove_grid:
  "gridTank e \<Longrightarrow> enemyMove e g = Some e2 \<Longrightarrow> gridTank e2"
  by (auto simp: enemyMove_def gridTank_move split: option.splits if_splits)

lemma move_ref [simp]: "t_ref (move t dir walls tanks) = t_ref t"
  by (simp add: move_def Let_def)

lemma fire_ref [simp]: "t_ref (snd (fire t now)) = t_ref t"
  by (simp add: fire_def Let_def split_beta)

lemma enemyMove_ref: "enemyMove e g = Some e2 \<Longrightarrow> t_ref e2 = t_ref e"
  by (auto simp: enemyMove_def split: option.splits if_splits)

lemma enemyAI_step_shape:
  assumes "enemyAI_step now i rs g = Some (g1, rs1)"
  shows "\<exists>e. (gridTank (g_enemies g ! i) \<longrightarrow> gridTank e) \<and> t_ref e = t_ref (g_enemies g ! i) \<and>
             g_enemies g1 = (g_enemies g)[i := e] \<and> g_player g1 = g_player g \<and>
             g_walls g1 = g_walls g \<and> g_nextRef g1 = g_nextRef g"
proof (cases "t_alive (g_enemies g ! i)")
  case False
  with assms have "g1 = g" by (simp add: enemyAI_step_def Let_def)
  then have "g_enemies g1 = (g_enemies g)[i := g_enemies g ! i] \<and>
             g_player g1 = g_player g \<and> g_walls g1 = g_walls g \<and> g_nextRef g1 = g_nextRef g"
    by simp
  then show ?thesis by blast
next
  case True
  define turn where "turn \<longleftrightarrow>
    now - t_aiDirectionTimer (g_enemies g ! i) > t_aiDirectionInterval (g_enemies g ! i)"
  define e1 where "e1 =
    (if turn then (g_enemies g ! i)\<lparr> t_aiDirectionTimer := now,
                                     t_direction := pickDirection (shd rs),
                                     t_aiDirectionInterval := 1500 + shd (stl rs) * 1500 \<rparr>
     else g_enemies g ! i)"
  define rsa where "rsa = (if turn then stl (stl rs) else rs)"
  define ga where "ga = g\<lparr>g_enemies := (g_enemies g)[i := e1]\<rparr>"
  have s: "enemyAI_step now i rs g =
     (case enemyMove e1 ga of
        None \<Rightarrow> None
      | Some enemy2 \<Rightarrow>
          let g2 = ga\<lparr>g_enemies := (g_enemies ga)[i := enemy2]\<rparr>
          in if shd rsa < 0.02
             then (case fire enemy2 now of
                     (Some bullet, enemy3) \<Rightarrow>
                       Some (g2\<lparr> g_enemies := (g_enemies g2)[i := enemy3],
                                  g_bullets := g_bullets g2 @ [bullet] \<rparr>, stl rsa)
                   | (None, enemy3) \<Rightarrow>
                       Some (g2\<lparr>g_enemies := (g_enemies g2)[i := enemy3]\<rparr>, stl rsa))
             else Some (g2, stl rsa))"
    using True
    by (simp add: enemyAI_step_def Let_def turn_def e1_def rsa_def ga_def
        cong: option.case_cong prod.case_cong if_cong)
  have p1: "gridTank (g_enemies g ! i) \<longrightarrow> gridTank e1" "t_ref e1 = t_ref (g_enemies g ! i)"
    by (simp_all add: e1_def)
  from assms s obtain e2 where m: "enemyMove e1 ga = Some e2"
    by (cases "enemyMove e1 ga") simp_all
  from p1 enemyMove_grid [OF _ m] enemyMove_ref [OF m]
  have p2: "gridTank (g_enemies g ! i) \<longrightarrow> gridTank e2" "t_ref e2 = t_ref (g_enemies g ! i)"
    by auto
  obtain ob e3 where f: "fire e2 now = (ob, e3)" by (cases "fire e2 now")
  from p2 gridTank_fire [of e2 now] fire_ref [of e2 now] f
  have p3: "gridTank (g_enemies g ! i) \<longrightarrow> gridTank e3" "t_ref e3 = t_ref (g_enemies g ! i)"
    by auto
  show ?thesis
  proof (cases "shd rsa < 0.02")
    case False
    with assms s m have "g_enemies g1 = (g_enemies g)[i := e2] \<and> g_player g1 = g_player g \<and>
             g_walls g1 = g_walls g \<and> g_nextRef g1 = g_nextRef g"
      by (auto simp: Let_def ga_def)
    with p2 show ?thesis by blast
  next
    case True
    with assms s m f have "g_enemies g1 = (g_enemies g)[i := e3] \<and> g_player g1 = g_player g \<and>
             g_walls g1 = g_walls g \<and> g_nextRef g1 = g_nextRef g"
      by (cases ob) (auto simp: Let_def ga_def)
    with p3 show ?thesis by blast
  qed
qed

lemma grid_enemyAI_step:
  assumes "gridEngine g" "i < length (g_enemies g)" "enemyAI_step now i rs g = Some (g1, rs1)"
  shows "gridEngine g1"
proof -
  from assms(1) have ge: "list_all gridTank (g_enemies g)" by (simp add: gridEngine_iff)
  with assms(2) have gi: "gridTank (g_enemies g ! i)" by (simp add: list_all_length)
  from enemyAI_step_shape [OF assms(3)] gi obtain e
    where e: "gridTank e" and g1: "g_enemies g1 = (g_enemies g)[i := e]"
      "g_player g1 = g_player g" "g_walls g1 = g_walls g"
    by blast
  from ge e have "list_all gridTank ((g_enemies g)[i := e])" by (rule list_all_update)
  with assms(1) show ?thesis by (simp add: g1 gridEngine_iff)
qed

lemma firstIndex_Some: "firstIndex P xs = Some i \<Longrightarrow> i < length xs \<and> P (xs ! i)"
  by (induction xs arbitrary: i) (auto split: if_splits)

lemma list_all_update_nth:
  "list_all P xs \<Longrightarrow> i < length xs \<Longrightarrow> (P (xs ! i) \<Longrightarrow> P v) \<Longrightarrow> list_all P (xs[i := v])"
  by (rule list_all_update) (simp_all add: list_all_length)

lemma grid_spawnEnemies: "gridEngine g \<Longrightarrow> gridEngine (fst (spawnEnemies now rs g))"
  using spawnPoint_Ints [of "g\<lparr>g_lastEnemySpawnTime := now\<rparr>"]
  by (simp add: gridEngine_iff spawnEnemies_def Let_def gridTank_Tank_new)

lemma grid_updateBullets: "gridEngine g \<Longrightarrow> gridEngine (updateBullets g)"
  by (simp add: gridEngine_iff updateBullets_def)

lemma grid_bulletVsWalls: "gridEngine g \<Longrightarrow> gridEngine (snd (bulletVsWalls b g))"
  by (auto simp: gridEngine_iff bulletVsWalls_def addExplosion_def Let_def
      split: option.splits dest!: firstIndex_Some intro!: list_all_update_nth)

lemma grid_bulletVsEnemies: "gridEngine g \<Longrightarrow> gridEngine (snd (bulletVsEnemies b g))"
  by (auto simp: gridEngine_iff bulletVsEnemies_def addExplosion_def Let_def
      split: option.splits dest!: firstIndex_Some intro!: list_all_update_nth)

lemma grid_bulletVsPlayer: "gridEngine g \<Longrightarrow> gridEngine (snd (bulletVsPlayer now b g))"
  using getPlayerSpawn_Ints
  by (auto simp: gridEngine_iff bulletVsPlayer_def addExplosion_def Let_def gridTank_def
      split: option.splits)

lemma grid_checkBullet: "gridEngine g \<Longrightarrow> gridEngine (snd (checkBullet now b g))"
  by (auto simp: checkBullet_def Let_def split_beta
      intro: grid_bulletVsWalls grid_bulletVsEnemies grid_bulletVsPlayer)

lemma grid_checkBullets: "gridEngine g \<Longrightarrow> gridEngine (snd (checkBullets now bs g))"
proof (induction bs arbitrary: g)
  case Nil
  then show ?case by simp
next
  case (Cons b bs)
  from Cons.IH [OF grid_checkBullet [OF Cons.prems, of now b]]
  show ?case by (simp add: split_beta Let_def)
qed

lemma grid_checkCollisions: "gridEngine g \<Longrightarrow> gridEngine (checkCollisions now g)"
  using grid_checkBullets [of g now "g_bullets g"]
  by (simp add: checkCollisions_def split_beta gridEngine_iff)

lemma grid_cleanup: "gridEngine g \<Longrightarrow> gridEngine (cleanup g)"
  by (simp add: gridEngine_iff cleanup_def list_all_iff)

lemma grid_updateExplosions: "gridEngine g \<Longrightarrow> gridEngine (updateExplosions g)"
  by (simp add: gridEngine_iff updateExplosions_def)

lemma grid_checkLevelClear: "gridEngine g \<Longrightarrow> gridEngine (checkLevelClear g)"
  by (simp add: gridEngine_iff checkLevelClear_def)

lemma reachable_grid: "reachable g \<Longrightarrow> gridEngine g"
proof (induction rule: reachable.induct)
  case r_new
  show ?case by (simp add: gridEngine_iff GameEngine_new_def)
next
  case (r_keys g k)
  then show ?case by (simp add: gridEngine_iff)
next
  case (r_start g t1 t2 rnd level)
  show ?case by (rule grid_startGame)
next
  case (r_pause g)
  then show ?case by (simp add: grid_togglePause)
next
  case (r_input g now)
  then show ?case by (simp add: grid_handlePlayerInput)
next
  case (r_ai g i now rs g1 rs1)
  then show ?case by (auto intro: grid_enemyAI_step)
next
  case (r_spawn g now rs)
  then show ?case by (simp add: grid_spawnEnemies)
next
  case (r_bullets g)
  then show ?case by (simp add: grid_updateBullets)
next
  case (r_collide g now)
  then show ?case by (simp add: grid_checkCollisions)
next
  case (r_cleanup g)
  then show ?case by (simp add: grid_cleanup)
next
  case (r_explosions g)
  then show ?case by (simp add: grid_updateExplosions)
next
  case (r_clear g)
  then show ?case by (simp add: grid_checkLevelClear)
qed


text \<open>
  The tanks of the engine keep their references, and a new tank takes a fresh one: the
  tanks in the list \<open>allTanks\<close> are pairwise distinct objects.
\<close>

lemma map_ref_update:
  "t_ref e = t_ref (xs ! i) \<Longrightarrow> map t_ref (xs[i := e]) = map t_ref xs"
  by (cases "i < length xs") (simp_all add: map_update list_update_same_conv list_update_beyond)

lemma sameRefs_refl [simp]: "sameRefs g g"
  by (simp add: sameRefs_def)

lemma sameRefs_trans: "sameRefs g g1 \<Longrightarrow> sameRefs g1 g2 \<Longrightarrow> sameRefs g g2"
  by (simp add: sameRefs_def)

lemma sameRefs_refsEngine: "sameRefs g g1 \<Longrightarrow> refsEngine g \<Longrightarrow> refsEngine g1"
  by (simp add: sameRefs_def refsEngine_def)

lemma sameRefsI:
  "map_option t_ref (g_player g1) = map_option t_ref (g_player g) \<Longrightarrow>
   map t_ref (g_enemies g1) = map t_ref (g_enemies g) \<Longrightarrow> g_nextRef g1 = g_nextRef g \<Longrightarrow>
   sameRefs g g1"
  by (cases "g_player g"; cases "g_player g1") (simp_all add: sameRefs_def allTanks_def)

lemma sameRefs_handlePlayerInput: "sameRefs g (handlePlayerInput now g)"
proof (cases "g_player g")
  case None
  then show ?thesis by (simp add: handlePlayerInput_def)
next
  case (Some p)
  define p1 where "p1 =
     (if k_up (g_keys g) then move p UP (g_walls g) (p # g_enemies g)
      else if k_down (g_keys g) then move p DOWN (g_walls g) (p # g_enemies g)
      else if k_left (g_keys g) then move p LEFT (g_walls g) (p # g_enemies g)
      else if k_right (g_keys g) then move p RIGHT (g_walls g) (p # g_enemies g)
      else p)"
  have r1: "t_ref p1 = t_ref p" by (simp add: p1_def)
  have r2: "t_ref (snd (fire p1 now)) = t_ref p" by (simp add: r1)
  have "g_player (handlePlayerInput now g) = Some p \<or>
        g_player (handlePlayerInput now g) = Some p1 \<or>
        g_player (handlePlayerInput now g) = Some (snd (fire p1 now))"
    using Some
    by (simp add: handlePlayerInput_def Let_def p1_def [symmetric] split: option.splits prod.splits)
  moreover have "g_enemies (handlePlayerInput now g) = g_enemies g"
    "g_nextRef (handlePlayerInput now g) = g_nextRef g"
    by (simp_all add: handlePlayerInput_def Let_def split: option.splits prod.splits)
  ultimately show ?thesis using Some r1 r2 by (auto intro!: sameRefsI)
qed


lemma enemyAI_step_refs:
  assumes "enemyAI_step now i rs g = Some (g1, rs1)"
  shows "sameRefs g g1"
proof -
  from enemyAI_step_shape [OF assms] obtain e
    where "t_ref e = t_ref (g_enemies g ! i)" "g_enemies g1 = (g_enemies g)[i := e]"
      "g_player g1 = g_player g" "g_nextRef g1 = g_nextRef g"
    by blast
  then show ?thesis by (auto intro!: sameRefsI simp: map_ref_update)
qed

lemma sameRefs_bulletVsWalls: "sameRefs g (snd (bulletVsWalls b g))"
  by (auto simp: bulletVsWalls_def addExplosion_def Let_def split: option.splits
      intro!: sameRefsI)

lemma sameRefs_bulletVsEnemies: "sameRefs g (snd (bulletVsEnemies b g))"
  by (auto simp: bulletVsEnemies_def addExplosion_def Let_def map_ref_update
      split: option.splits intro!: sameRefsI)

lemma sameRefs_bulletVsPlayer: "sameRefs g (snd (bulletVsPlayer now b g))"
  by (auto simp: bulletVsPlayer_def addExplosion_def Let_def split: option.splits
      intro!: sameRefsI)

lemma sameRefs_checkBullet: "sameRefs g (snd (checkBullet now b g))"
proof -
  have 1: "sameRefs g (snd (bulletVsWalls b g))" by (rule sameRefs_bulletVsWalls)
  have 2: "sameRefs (snd (bulletVsWalls b g))
             (snd (bulletVsEnemies (fst (bulletVsWalls b g)) (snd (bulletVsWalls b g))))"
    by (rule sameRefs_bulletVsEnemies)
  show ?thesis
    by (auto simp: checkBullet_def Let_def split_beta
        intro: 1 sameRefs_trans [OF 1 2] sameRefs_trans [OF 1 sameRefs_bulletVsPlayer]
          sameRefs_trans [OF sameRefs_trans [OF 1 2] sameRefs_bulletVsPlayer])
qed

lemma sameRefs_checkBullets: "sameRefs g (snd (checkBullets now bs g))"
proof (induction bs arbitrary: g)
  case Nil
  show ?case by simp
next
  case (Cons b bs)
  from sameRefs_trans [OF sameRefs_checkBullet [of g now b] Cons.IH]
  show ?case by (simp add: split_beta Let_def)
qed

lemma sameRefs_checkCollisions: "sameRefs g (checkCollisions now g)"
  using sameRefs_checkBullets [of g now "g_bullets g"]
  by (simp add: checkCollisions_def split_beta sameRefs_def allTanks_def)

lemma refs_startGame: "refsEngine (startGame t1 t2 rnd level g)"
  by (simp add: refsEngine_def startGame_def Let_def allTanks_def Tank_new_def)

lemma refs_spawnEnemies: "refsEngine g \<Longrightarrow> refsEngine (fst (spawnEnemies now rs g))"
  by (auto simp: refsEngine_def spawnEnemies_def Let_def allTanks_def Tank_new_def
      split: option.splits)

lemma refs_cleanup: "refsEngine g \<Longrightarrow> refsEngine (cleanup g)"
  by (auto simp: refsEngine_def cleanup_def allTanks_def distinct_map_filter
      split: option.splits)

lemma reachable_refs: "reachable g \<Longrightarrow> refsEngine g"
proof (induction rule: reachable.induct)
  case r_new
  show ?case by (simp add: refsEngine_def allTanks_def GameEngine_new_def)
next
  case (r_keys g k)
  then show ?case by (simp add: refsEngine_def allTanks_def)
next
  case (r_start g t1 t2 rnd level)
  show ?case by (rule refs_startGame)
next
  case (r_pause g)
  then show ?case by (simp add: refsEngine_def allTanks_def togglePause_def)
next
  case (r_input g now)
  from r_input.IH show ?case by (rule sameRefs_refsEngine [OF sameRefs_handlePlayerInput])
next
  case (r_ai g i now rs g1 rs1)
  then show ?case by (auto intro: sameRefs_refsEngine [OF enemyAI_step_refs])
next
  case (r_spawn g now rs)
  from r_spawn.IH show ?case by (rule refs_spawnEnemies)
next
  case (r_bullets g)
  then show ?case by (simp add: refsEngine_def allTanks_def updateBullets_def)
next
  case (r_collide g now)
  from r_collide.IH show ?case by (rule sameRefs_refsEngine [OF sameRefs_checkCollisions])
next
  case (r_cleanup g)
  from r_cleanup.IH show ?case by (rule refs_cleanup)
next
  case (r_explosions g)
  then show ?case by (simp add: refsEngine_def allTanks_def updateExplosions_def)
next
  case (r_clear g)
  then show ?case by (simp add: refsEngine_def allTanks_def checkLevelClear_def)
qed

lemma enemyAI_loop_reachable:
  "reachable g \<Longrightarrow> i + n \<le> length (g_enemies g) \<Longrightarrow>
   enemyAI_loop now n i rs g = Some (g1, rs1) \<Longrightarrow> reachable g1"
proof (induction n arbitrary: i rs g)
  case 0
  then show ?case by simp
next
  case (Suc n)
  from Suc.prems(3) obtain ga rsa where s: "enemyAI_step now i rs g = Some (ga, rsa)"
    and l: "enemyAI_loop now n (Suc i) rsa ga = Some (g1, rs1)"
    by (auto split: option.splits)
  from Suc.prems(2) have i: "i < length (g_enemies g)" by simp
  from Suc.prems(1) i s have r: "reachable ga" by (rule r_ai)
  from enemyAI_step_shape [OF s] have "length (g_enemies ga) = length (g_enemies g)"
    by auto
  with Suc.prems(2) have "Suc i + n \<le> length (g_enemies ga)" by simp
  from Suc.IH [OF r this l] show ?case .
qed

lemma reachable_update:
  assumes "reachable g" "update now rs g = Some (g1, rs1)"
  shows "reachable g1"
proof (cases "g_state g = PLAYING")
  case False
  with assms show ?thesis by (simp add: update_def)
next
  case True
  have r1: "reachable (handlePlayerInput now g)" using assms(1) by (rule r_input)
  from assms(2) True obtain g2 rs2
    where a: "updateEnemyAI now rs (handlePlayerInput now g) = Some (g2, rs2)"
    by (auto simp: update_def Let_def split: option.splits)
  from enemyAI_loop_reachable [OF r1 _ a [unfolded updateEnemyAI_def]]
  have r2: "reachable g2" by simp
  from assms(2) True a
  have e: "g1 = checkLevelClear (updateExplosions (cleanup (checkCollisions now
              (updateBullets (fst (spawnEnemies now rs2 g2))))))"
    by (simp add: update_def Let_def split_beta)
  show ?thesis unfolding e
    by (intro r_clear r_explosions r_cleanup r_collide r_bullets r_spawn r2)
qed

lemma reachable_nextLevel: "reachable g \<Longrightarrow> reachable (nextLevel t1 t2 rnd g)"
  unfolding nextLevel_def by (rule r_start)

text \<open>
  C1. In every state the engine passes through, every committed move, that is a call of
  \<open>move\<close> on an alive tank of the engine with the engine's walls and tanks whose tentative
  box passed all collision tests, leaves the tank's bounding box disjoint from the box of
  every alive wall and of every other alive tank of the engine.
\<close>

theorem committed_move_no_overlap:
  assumes "reachable g" "i < length (allTanks g)" "t_alive (allTanks g ! i)"
    and "\<not> move_blocked (allTanks g ! i) dir (g_walls g) (allTanks g)"
  shows "(\<forall>w\<in>set (g_walls g). w_alive w \<longrightarrow>
            \<not> rectsOverlap (getBounds (move (allTanks g ! i) dir (g_walls g) (allTanks g)))
                (wall_getBounds w)) \<and>
         (\<forall>j<length (allTanks g). j \<noteq> i \<and> t_alive (allTanks g ! j) \<longrightarrow>
            \<not> rectsOverlap (getBounds (move (allTanks g ! i) dir (g_walls g) (allTanks g)))
                (getBounds (allTanks g ! j)))"
proof -
  let ?t = "allTanks g ! i"
  from reachable_grid [OF assms(1)]
  have gt: "list_all gridTank (allTanks g)" and gw: "list_all gridWall (g_walls g)"
    by (simp_all add: gridEngine_def)
  from reachable_refs [OF assms(1)] have d: "distinct (map t_ref (allTanks g))"
    by (simp add: refsEngine_def)
  from gt assms(2) have g: "gridTank ?t" by (simp add: list_all_length)
  show ?thesis
  proof (intro conjI ballI allI impI)
    fix w assume "w \<in> set (g_walls g)" "w_alive w"
    moreover from this gw have "gridWall w" by (simp add: list_all_iff)
    ultimately show "\<not> rectsOverlap (getBounds (move ?t dir (g_walls g) (allTanks g)))
                        (wall_getBounds w)"
      by (intro move_sound(1) [OF g assms(3) assms(4)])
  next
    fix j assume j: "j < length (allTanks g)" and o: "j \<noteq> i \<and> t_alive (allTanks g ! j)"
    from o have "j \<noteq> i" by simp
    with nth_eq_iff_index_eq [OF d, of j i] j assms(2)
    have r: "t_ref (allTanks g ! j) \<noteq> t_ref ?t" by simp
    from j have m: "allTanks g ! j \<in> set (allTanks g)" by simp
    from gt j have gj: "gridTank (allTanks g ! j)" by (simp add: list_all_length)
    from o have a: "t_alive (allTanks g ! j)" by simp
    show "\<not> rectsOverlap (getBounds (move ?t dir (g_walls g) (allTanks g)))
                        (getBounds (allTanks g ! j))"
      by (rule move_sound(2) [OF g assms(3) assms(4) m gj r a])
  qed
qed

lemma cellWalls_cells:
  "w \<in> set (cellWalls level c r) \<Longrightarrow> (\<exists>ty. w = wallAt c r ty) \<and> \<not> isReserved c r"
  by (auto simp: cellWalls_def Let_def split: if_splits)

lemma generateMap_cells:
  assumes "w \<in> set (generateMap level)"
  shows "\<exists>c r ty. w = wallAt c r ty \<and>
           (c = 0 \<or> c = COLS - 1 \<or> r = 0 \<or> r = ROWS - 1 \<or> \<not> isReserved c r)"
proof -
  from assms consider "w \<in> set borderWalls" | "w \<in> set (structuralWalls level)"
    | "w \<in> set (extraSteelWalls level)"
    by (auto simp: generateMap_def)
  then show ?thesis
  proof cases
    case 1
    then show ?thesis by (auto simp: borderWalls_def)
  next
    case 2
    then obtain c r where "w \<in> set (cellWalls level c r)"
      by (auto simp: structuralWalls_def)
    from cellWalls_cells [OF this] show ?thesis by blast
  next
    case 3
    then show ?thesis
      by (auto simp: extraSteelWalls_def extraWall_def Let_def split: if_splits)
  qed
qed

text \<open>The tentative box of the player that moves up from its spawn point.\<close>

lemma spawn_box_cells:
  assumes "rectsOverlap \<lparr> r_x = 1225 / 2, r_y = 1221 / 2, r_w = 31, r_h = 31 \<rparr>
             (wall_getBounds (wallAt c r ty))"
  shows "c = 17 \<and> (r = 16 \<or> r = 17)"
proof -
  from assms have b: "1225 / 2 < real c * 36 + 36" "real c * 36 < 1225 / 2 + 31"
    "1221 / 2 < real r * 36 + 36" "real r * 36 < 1221 / 2 + 31"
    by (simp_all add: rectsOverlap_def wall_getBounds_def wallAt_def Wall_new_def WALL_SIZE_def)
  from b(1) have "real 16 < real c" by simp
  then have c1: "16 < c" by (simp only: of_nat_less_iff)
  from b(2) have "real c < real 18" by simp
  then have c2: "c < 18" by (simp only: of_nat_less_iff)
  from b(3) have "real 15 < real r" by simp
  then have r1: "15 < r" by (simp only: of_nat_less_iff)
  from b(4) have "real r < real 18" by simp
  then have r2: "r < 18" by (simp only: of_nat_less_iff)
  from c1 c2 r1 r2 show ?thesis by auto
qed

lemma player_spawn_free:
  "\<not> move_blocked ((Tank_new 0 612 612 UP True 0)\<lparr>t_invincibleUntil := 2000\<rparr>) UP
       (generateMap level) [(Tank_new 0 612 612 UP True 0)\<lparr>t_invincibleUntil := 2000\<rparr>]"
proof -
  let ?p = "(Tank_new 0 612 612 UP True 0)\<lparr>t_invincibleUntil := 2000\<rparr>"
  have tb: "tentativeBounds ?p UP = \<lparr> r_x = 1225 / 2, r_y = 1221 / 2, r_w = 31, r_h = 31 \<rparr>"
    by (simp add: tentativeBounds_def nextBounds_def move_target_def Let_def move_turn_x
        move_turn_y isVertical_def TOLERANCE_def DESIGN_WIDTH_def DESIGN_HEIGHT_def)
       (simp add: Tank_new_def TANK_SIZE_def TANK_SPEED_def)
  have "\<not> rectsOverlap (tentativeBounds ?p UP) (wall_getBounds w)"
    if w: "w \<in> set (generateMap level)" for w
  proof
    assume o: "rectsOverlap (tentativeBounds ?p UP) (wall_getBounds w)"
    from generateMap_cells [OF w] obtain c r ty where
      e: "w = wallAt c r ty" and
      k: "c = 0 \<or> c = COLS - 1 \<or> r = 0 \<or> r = ROWS - 1 \<or> \<not> isReserved c r"
      by blast
    from o have "c = 17 \<and> (r = 16 \<or> r = 17)"
      unfolding tb e by (rule spawn_box_cells)
    moreover have "isReserved 17 16" "isReserved 17 17"
      by (simp_all add: isReserved_def playerSpawnCol_def playerSpawnRow_def COLS_35 ROWS_20)
    ultimately show False using k by (auto simp: COLS_35 ROWS_20)
  qed
  then show ?thesis by (auto simp: move_blocked_def)
qed

text \<open>
  Level 1 has just been started: the player stands on its spawn point (612, 612), the walls
  are those of \<open>generateMap 1\<close>. Moving up is committed, to (612, 610), and the player's box
  overlaps no alive wall.
\<close>

theorem committed_move_no_overlap_witness:
  "reachable (startGame 0 0 0 1 GameEngine_new) \<and>
   0 < length (allTanks (startGame 0 0 0 1 GameEngine_new)) \<and>
   allTanks (startGame 0 0 0 1 GameEngine_new) ! 0
     = (Tank_new 0 612 612 UP True 0)\<lparr>t_invincibleUntil := 2000\<rparr> \<and>
   t_alive (allTanks (startGame 0 0 0 1 GameEngine_new) ! 0) \<and>
   \<not> move_blocked (allTanks (startGame 0 0 0 1 GameEngine_new) ! 0) UP
       (g_walls (startGame 0 0 0 1 GameEngine_new)) (allTanks (startGame 0 0 0 1 GameEngine_new)) \<and>
   t_y (move (allTanks (startGame 0 0 0 1 GameEngine_new) ! 0) UP
          (g_walls (startGame 0 0 0 1 GameEngine_new))
          (allTanks (startGame 0 0 0 1 GameEngine_new))) = 610 \<and>
   wallAt 17 16 BRICK \<notin> set (g_walls (startGame 0 0 0 1 GameEngine_new)) \<and>
   wallAt 17 19 STEEL \<in> set (g_walls (startGame 0 0 0 1 GameEngine_new)) \<and>
   w_alive (wallAt 17 19 STEEL) \<and>
   \<not> rectsOverlap
       (getBounds (move (allTanks (startGame 0 0 0 1 GameEngine_new) ! 0) UP
          (g_walls (startGame 0 0 0 1 GameEngine_new))
          (allTanks (startGame 0 0 0 1 GameEngine_new))))
       (wall_getBounds (wallAt 17 19 STEEL))"
proof -
  let ?g = "startGame 0 0 0 1 GameEngine_new"
  let ?p = "(Tank_new 0 612 612 UP True 0)\<lparr>t_invincibleUntil := 2000\<rparr>"
  have r: "reachable ?g" by (intro r_start r_new)
  have sp: "getPlayerSpawn = (612, 612)"
    by (simp add: getPlayerSpawn_def COLS_35 ROWS_20 WALL_SIZE_def)
  have pl: "g_player ?g = Some ?p"
    by (simp add: startGame_def Let_def sp GameEngine_new_def)
  have w: "g_walls ?g = generateMap 1" by (simp add: startGame_def Let_def)
  have en: "g_enemies ?g = []" by (simp add: startGame_def Let_def)
  have at: "allTanks ?g = [?p]" unfolding allTanks_def pl en by simp
  have l: "0 < length (allTanks ?g)" unfolding at by simp
  have p0: "allTanks ?g ! 0 = ?p" unfolding at by simp
  have a0: "t_alive ?p" by (simp add: Tank_new_def)
  have a: "t_alive (allTanks ?g ! 0)" unfolding p0 by (rule a0)
  have f0: "\<not> move_blocked ?p UP (generateMap 1) [?p]" by (rule player_spawn_free)
  have f: "\<not> move_blocked (allTanks ?g ! 0) UP (g_walls ?g) (allTanks ?g)"
    unfolding p0 unfolding at w by (rule f0)
  have y0: "t_y (move ?p UP (generateMap 1) [?p]) = 610"
    unfolding move_when_free [OF a0 f0]
    by (simp add: move_target_def Let_def move_turn_y isVertical_def DESIGN_HEIGHT_def)
       (simp add: Tank_new_def TANK_SIZE_def TANK_SPEED_def)
  have y: "t_y (move (allTanks ?g ! 0) UP (g_walls ?g) (allTanks ?g)) = 610"
    unfolding p0 unfolding at w by (rule y0)
  have "wallAt 17 19 STEEL \<in> set borderWalls"
    by (simp add: borderWalls_def COLS_35 ROWS_20) (rule disjI1, rule bexI [of _ 17], simp_all)
  then have b: "wallAt 17 19 STEEL \<in> set (g_walls ?g)"
    unfolding w by (simp add: generateMap_def)
  have n: "wallAt 17 16 BRICK \<notin> set (g_walls ?g)"
  proof
    assume "wallAt 17 16 BRICK \<in> set (g_walls ?g)"
    then have "wallAt 17 16 BRICK \<in> set (generateMap 1)" unfolding w .
    from generateMap_cells [OF this] obtain c r ty where
      e: "wallAt 17 16 BRICK = wallAt c r ty" and
      k: "c = 0 \<or> c = COLS - 1 \<or> r = 0 \<or> r = ROWS - 1 \<or> \<not> isReserved c r"
      by blast
    from e have "c = 17 \<and> r = 16"
      by (simp add: wallAt_def Wall_new_def WALL_SIZE_def)
    moreover have "isReserved 17 16"
      by (simp add: isReserved_def playerSpawnCol_def playerSpawnRow_def COLS_35 ROWS_20)
    ultimately show False using k by (auto simp: COLS_35 ROWS_20)
  qed
  have al: "w_alive (wallAt 17 19 STEEL)" by (simp add: wallAt_def Wall_new_def)
  from committed_move_no_overlap [OF r l a f] b al
  have "\<not> rectsOverlap (getBounds (move (allTanks ?g ! 0) UP (g_walls ?g) (allTanks ?g)))
           (wall_getBounds (wallAt 17 19 STEEL))"
    by blast
  with r l p0 a f y n b al show ?thesis by blast
qed

end
